theory Spec2Isabelle
  imports Complex_Main "HOL-Library.Sublist"
begin

section \<open>Values, events and handler results\<close>

text \<open>
  The plugin dispatch engine of \<^verbatim>\<open>web/server/plugins/manager.ts\<close>, as HOL functions.
  Record fields carry a short prefix, because several source types share field names
  (\<^verbatim>\<open>id\<close>, \<^verbatim>\<open>name\<close>, \<^verbatim>\<open>insights\<close>, ...).

  A JavaScript value of unknown shape (a config, a payload field) is a \<open>jsval\<close>;
  an absent key or \<^verbatim>\<open>undefined\<close> is \<open>None\<close> of an option.
\<close>

datatype jsval =
    VNull
  | VBool bool
  | VNum int
  | VStr string
  | VArr "jsval list"
  | VObj "(string \<times> jsval) list"

type_synonym jsobject = "string \<rightharpoonup> jsval"

text \<open>
  Modelled from the spec: the types of \<^verbatim>\<open>types.ts\<close>, which is not among the sources
  (\<^verbatim>\<open>PluginEvent\<close>, the insights, \<^verbatim>\<open>PermissionAutomationDecision\<close>, the message mutation,
  \<^verbatim>\<open>PluginEventResult\<close>, and further down \<^verbatim>\<open>PluginDefinition\<close>, \<^verbatim>\<open>PluginStats\<close>,
  \<^verbatim>\<open>PluginHealth\<close> and \<^verbatim>\<open>PluginRuntimeInfo\<close>). The records have the fields the data
  model of the specification lists and the manager reads or writes.
\<close>

record plugin_event_meta =
  meta_eventId :: string
  meta_eventVersion :: int
  meta_timestamp :: int
  meta_source :: string
  meta_sessionId :: string
  meta_backendType :: "string option"

text \<open>\<open>ev_data = None\<close> stands for a payload that is not an object
  (the guard \<^verbatim>\<open>mutableEvent.data && typeof mutableEvent.data === "object"\<close> fails).\<close>

record plugin_event =
  ev_name :: string
  ev_meta :: plugin_event_meta
  ev_data :: "jsobject option"

record insight =
  ins_id :: string
  ins_plugin_id :: string
  ins_title :: string
  ins_message :: string
  ins_level :: string
  ins_timestamp :: int
  ins_toast :: "bool option"
  ins_sound :: "bool option"
  ins_desktop :: "bool option"
  ins_event_name :: "string option"
  ins_session_id :: "string option"

record permission_decision =
  pd_behavior :: string
  pd_message :: "string option"
  pd_pluginId :: "string option"

text \<open>
  A key of a mutation object, as a handler returns it: the key can be missing, it can be
  there with the value \<^verbatim>\<open>undefined\<close> (an optional property set to \<^verbatim>\<open>undefined\<close>, which
  an object spread copies like any other own key), or it can be there with a value.
\<close>

datatype 'a own_key = KeyAbsent | KeyUndefined | KeyValue 'a

record user_message_mutation =
  mut_content :: "string own_key"
  mut_images :: "jsval list own_key"
  mut_pluginId :: "string own_key"

record plugin_event_result =
  res_insights :: "insight list option"
  res_permissionDecision :: "permission_decision option"
  res_userMessageMutation :: "user_message_mutation option"
  res_eventDataPatch :: "jsobject option"

subsection \<open>Thrown values\<close>

text \<open>
  A handler or validator may throw any value (\<^verbatim>\<open>err: unknown\<close>). The model keeps the
  three kinds the manager tells apart: an \<^verbatim>\<open>Error\<close> instance with its message, a string,
  and \<^verbatim>\<open>undefined\<close> (as \<^verbatim>\<open>Promise.reject()\<close> gives).
\<close>

datatype thrown = ThrownError string | ThrownString string | ThrownUndefined

text \<open>\<^verbatim>\<open>err instanceof Error ? err.message : String(err)\<close>\<close>

fun thrown_message :: "thrown \<Rightarrow> string" where
  "thrown_message (ThrownError msg) = msg"
| "thrown_message (ThrownString s) = s"
| "thrown_message ThrownUndefined = ''undefined''"

text \<open>JavaScript truthiness of a thrown value, as \<^verbatim>\<open>if (exec.error)\<close> tests it.\<close>

fun thrown_truthy :: "thrown \<Rightarrow> bool" where
  "thrown_truthy (ThrownError msg) = True"
| "thrown_truthy (ThrownString s) = (s \<noteq> [])"
| "thrown_truthy ThrownUndefined = False"

subsection \<open>Strings\<close>

fun digit_char :: "nat \<Rightarrow> char" where
  "digit_char n = char_of (48 + n)"

fun show_nat :: "nat \<Rightarrow> string" where
  "show_nat n = (if n < 10 then [digit_char n] else show_nat (n div 10) @ [digit_char (n mod 10)])"

declare show_nat.simps [simp del]

definition show_int :: "int \<Rightarrow> string" where
  "show_int i = (if i < 0 then CHR ''-'' # show_nat (nat (- i)) else show_nat (nat i))"

text \<open>\<^verbatim>\<open>Array.prototype.join\<close>\<close>

fun join :: "string \<Rightarrow> string list \<Rightarrow> string" where
  "join sep [] = []"
| "join sep [x] = x"
| "join sep (x # y # ys) = x @ sep @ join sep (y # ys)"

section \<open>Plugin definitions and the manager's state\<close>

datatype fail_policy = Continue | AbortCurrentAction

text \<open>
  One run of a handler under \<^verbatim>\<open>runWithTimeout\<close>: it returns a result or nothing, it throws
  (or its promise rejects) with a value, or the deadline timer fires first. The wall-clock
  duration that \<^verbatim>\<open>executePlugin\<close> measures around the run is part of the run.
\<close>

datatype settlement =
    Returned "plugin_event_result option"
  | Threw thrown
  | DeadlineFirst

record handler_run =
  run_settlement :: settlement
  run_durationMs :: int

record plugin_definition =
  def_id :: string
  def_name :: string
  def_version :: string
  def_description :: string
  def_events :: "string list"
  def_priority :: int
  def_blocking :: bool
  def_timeoutMs :: "int option"
  def_failPolicy :: "fail_policy option"
  def_defaultEnabled :: bool
  def_defaultConfig :: jsval
  def_validateConfig :: "(jsval \<Rightarrow> thrown + jsval) option"
  def_capabilities :: "string list option"
  def_riskLevel :: "string option"
  def_apiVersion :: "int option"
  def_onEvent :: "plugin_event \<Rightarrow> jsval \<Rightarrow> handler_run"

text \<open>
  Modelled from the spec: \<^verbatim>\<open>PluginStateStore\<close> (\<^verbatim>\<open>state-store.ts\<close> is not among the
  sources). \<^verbatim>\<open>getState()\<close> gives a snapshot of the persisted record and
  \<^verbatim>\<open>update(mutator)\<close> applies the mutator to it atomically; an in-memory store never
  fails. The store is therefore the record itself, and an update is a function on it.
\<close>

record persisted_state =
  st_enabled :: "string \<rightharpoonup> bool"
  st_config :: "string \<rightharpoonup> jsval"
  st_grants :: "string \<rightharpoonup> (string \<rightharpoonup> bool)"

record plugin_stats =
  stat_invocations :: nat
  stat_successes :: nat
  stat_errors :: nat
  stat_timeouts :: nat
  stat_aborted :: nat
  stat_lastDurationMs :: int
  stat_lastInvokedAt :: "int option"
  stat_lastError :: "string option"
  stat_avgDurationMs :: int
  stat_p95DurationMs :: int

datatype health_status = Healthy | Degraded | Disabled

record plugin_health =
  h_status :: health_status
  h_reason :: "string option"
  h_updatedAt :: int

text \<open>
  The fields of \<^verbatim>\<open>PluginManager\<close>. \<open>definitions\<close> is a JavaScript \<^verbatim>\<open>Map\<close>: an
  association list in insertion order, in which setting an existing key replaces the
  value in place.
\<close>

record manager =
  definitions :: "(string \<times> plugin_definition) list"
  stateStore :: persisted_state
  warnedInvalidConfig :: "string set"
  stats :: "string \<rightharpoonup> plugin_stats"
  health :: "string \<rightharpoonup> plugin_health"
  durationWindows :: "string \<rightharpoonup> int list"

definition DEFAULT_TIMEOUT_MS :: int where
  "DEFAULT_TIMEOUT_MS = 3000"

text \<open>
  Every reading of \<^verbatim>\<open>Date.now()\<close> inside one call of the manager is the parameter
  \<open>now\<close> of the modelled function.
\<close>

definition createEmptyStats :: plugin_stats where
  "createEmptyStats =
     \<lparr> stat_invocations = 0, stat_successes = 0, stat_errors = 0, stat_timeouts = 0,
       stat_aborted = 0, stat_lastDurationMs = 0, stat_lastInvokedAt = None,
       stat_lastError = None, stat_avgDurationMs = 0, stat_p95DurationMs = 0 \<rparr>"

definition createDefaultHealth :: "int \<Rightarrow> bool \<Rightarrow> plugin_health" where
  "createDefaultHealth now enabled =
     \<lparr> h_status = (if enabled then Healthy else Disabled), h_reason = None, h_updatedAt = now \<rparr>"

subsection \<open>The registry\<close>

text \<open>\<^verbatim>\<open>Map.prototype.set\<close> and \<^verbatim>\<open>Map.prototype.get\<close> on the insertion-ordered list.\<close>

fun map_set :: "string \<Rightarrow> 'v \<Rightarrow> (string \<times> 'v) list \<Rightarrow> (string \<times> 'v) list" where
  "map_set k v [] = [(k, v)]"
| "map_set k v ((k', v') # kvs) = (if k' = k then (k, v) # kvs else (k', v') # map_set k v kvs)"

definition map_get :: "(string \<times> 'v) list \<Rightarrow> string \<Rightarrow> 'v option" where
  "map_get kvs k = map_of kvs k"

definition map_values :: "(string \<times> 'v) list \<Rightarrow> 'v list" where
  "map_values kvs = map snd kvs"

definition register :: "int \<Rightarrow> plugin_definition \<Rightarrow> manager \<Rightarrow> manager" where
  "register now plugin m =
     (let m1 = m\<lparr>definitions := map_set (def_id plugin) plugin (definitions m)\<rparr>;
          m2 = (if stats m1 (def_id plugin) = None
                then m1\<lparr>stats := (stats m1)(def_id plugin \<mapsto> createEmptyStats)\<rparr> else m1);
          m3 = (if health m2 (def_id plugin) = None
                then m2\<lparr>health := (health m2)(def_id plugin \<mapsto>
                        createDefaultHealth now (def_defaultEnabled plugin))\<rparr> else m2)
      in m3)"

text \<open>
  The constructor: the given store and the built-in plugins registered in order.
  \<^verbatim>\<open>getBuiltinPlugins()\<close> is a parameter (\<^verbatim>\<open>builtins.ts\<close> is not among the sources).
\<close>

definition new_manager :: "int \<Rightarrow> persisted_state \<Rightarrow> plugin_definition list \<Rightarrow> manager" where
  "new_manager now store builtins =
     foldl (\<lambda>m plugin. register now plugin m)
       \<lparr> definitions = [], stateStore = store, warnedInvalidConfig = {},
         stats = Map.empty, health = Map.empty, durationWindows = Map.empty \<rparr>
       builtins"

text \<open>The state a store has when it is created.\<close>

definition empty_store :: persisted_state where
  "empty_store = \<lparr> st_enabled = Map.empty, st_config = Map.empty, st_grants = Map.empty \<rparr>"

section \<open>Capability gate\<close>

definition getRequestedCapabilities :: "plugin_definition \<Rightarrow> string list" where
  "getRequestedCapabilities plugin =
     (case def_capabilities plugin of Some caps \<Rightarrow> caps | None \<Rightarrow> [])"

text \<open>
  The loop \<^verbatim>\<open>for (const cap of requested) out[cap] = grants[cap] !== false\<close>, from the left:
  a later duplicate of a capability writes the same value again.
\<close>

fun grant_loop :: "(string \<rightharpoonup> bool) \<Rightarrow> string list \<Rightarrow> (string \<rightharpoonup> bool) \<Rightarrow> (string \<rightharpoonup> bool)" where
  "grant_loop grants [] out = out"
| "grant_loop grants (cap # caps) out = grant_loop grants caps (out(cap \<mapsto> (grants cap \<noteq> Some False)))"

definition resolveCapabilityGrants :: "plugin_definition \<Rightarrow> persisted_state \<Rightarrow> (string \<rightharpoonup> bool)" where
  "resolveCapabilityGrants plugin state =
     (let requested = getRequestedCapabilities plugin;
          grants = (case st_grants state (def_id plugin) of Some g \<Rightarrow> g | None \<Rightarrow> Map.empty)
      in grant_loop grants requested Map.empty)"

text \<open>\<^verbatim>\<open>grants[cap]\<close> is truthy: the entry is there and it is \<^verbatim>\<open>true\<close>.\<close>

definition granted :: "(string \<rightharpoonup> bool) \<Rightarrow> string \<Rightarrow> bool" where
  "granted grants cap = (grants cap = Some True)"

definition getGrantedCapabilities :: "plugin_definition \<Rightarrow> persisted_state \<Rightarrow> string list" where
  "getGrantedCapabilities plugin state =
     (let grants = resolveCapabilityGrants plugin state
      in filter (\<lambda>cap. granted grants cap) (getRequestedCapabilities plugin))"

text \<open>\<^verbatim>\<open>if (!blocked.includes(c)) blocked.push(c)\<close>\<close>

definition push_unique :: "string \<Rightarrow> string list \<Rightarrow> string list" where
  "push_unique c blocked = (if c \<in> set blocked then blocked else blocked @ [c])"

text \<open>The callback of \<^verbatim>\<open>result.insights.map\<close>; \<open>blocked\<close> is the array it pushes to.\<close>

definition sanitize_insight :: "(string \<rightharpoonup> bool) \<Rightarrow> insight \<Rightarrow> string list \<Rightarrow> insight \<times> string list" where
  "sanitize_insight grants ins blocked =
     (let (n1, b1) = (if ins_toast ins = Some True \<and> \<not> granted grants ''insight:toast''
                      then (ins\<lparr>ins_toast := Some False\<rparr>, push_unique ''insight:toast'' blocked)
                      else (ins, blocked));
          (n2, b2) = (if ins_sound n1 = Some True \<and> \<not> granted grants ''insight:sound''
                      then (n1\<lparr>ins_sound := Some False\<rparr>, push_unique ''insight:sound'' b1)
                      else (n1, b1));
          (n3, b3) = (if ins_desktop n2 = Some True \<and> \<not> granted grants ''insight:desktop''
                      then (n2\<lparr>ins_desktop := Some False\<rparr>, push_unique ''insight:desktop'' b2)
                      else (n2, b2))
      in (n3, b3))"

fun sanitize_insights :: "(string \<rightharpoonup> bool) \<Rightarrow> insight list \<Rightarrow> string list \<Rightarrow> insight list \<times> string list" where
  "sanitize_insights grants [] blocked = ([], blocked)"
| "sanitize_insights grants (ins # rest) blocked =
     (let (n, b1) = sanitize_insight grants ins blocked;
          (ns, b2) = sanitize_insights grants rest b1
      in (n # ns, b2))"

definition capabilityBlockedInsight :: "int \<Rightarrow> string \<Rightarrow> string list \<Rightarrow> insight" where
  "capabilityBlockedInsight now pluginId blocked =
     \<lparr> ins_id = pluginId @ ''-'' @ show_int now @ ''-capability-blocked'',
       ins_plugin_id = pluginId,
       ins_title = ''Capability blocked'',
       ins_message = ''Blocked by capability grants: '' @ join '', '' blocked,
       ins_level = ''warning'',
       ins_timestamp = now,
       ins_toast = None,
       ins_sound = None,
       ins_desktop = None,
       ins_event_name = None,
       ins_session_id = None \<rparr>"

text \<open>
  The body of \<^verbatim>\<open>sanitizeResultForCapabilities\<close> is five \<^verbatim>\<open>if\<close> statements over its
  two local variables \<^verbatim>\<open>sanitized\<close> and \<^verbatim>\<open>blocked\<close>. Each statement is a function on
  the pair; the conditions read the handler's \<open>result\<close>, as in the source.
\<close>

type_synonym sanitize_vars = "plugin_event_result \<times> string list"

definition strip_permissionDecision ::
  "(string \<rightharpoonup> bool) \<Rightarrow> plugin_event_result \<Rightarrow> sanitize_vars \<Rightarrow> sanitize_vars" where
  "strip_permissionDecision grants result v =
     (if res_permissionDecision result \<noteq> None \<and> \<not> granted grants ''permission:auto-decide''
      then ((fst v)\<lparr>res_permissionDecision := None\<rparr>, snd v @ [''permission:auto-decide''])
      else v)"

definition strip_userMessageMutation ::
  "(string \<rightharpoonup> bool) \<Rightarrow> plugin_event_result \<Rightarrow> sanitize_vars \<Rightarrow> sanitize_vars" where
  "strip_userMessageMutation grants result v =
     (if res_userMessageMutation result \<noteq> None \<and> \<not> granted grants ''message:mutate''
      then ((fst v)\<lparr>res_userMessageMutation := None\<rparr>, snd v @ [''message:mutate''])
      else v)"

definition strip_eventDataPatch ::
  "(string \<rightharpoonup> bool) \<Rightarrow> plugin_event_result \<Rightarrow> sanitize_vars \<Rightarrow> sanitize_vars" where
  "strip_eventDataPatch grants result v =
     (if res_eventDataPatch result \<noteq> None \<and> \<not> granted grants ''event:patch''
      then ((fst v)\<lparr>res_eventDataPatch := None\<rparr>, snd v @ [''event:patch''])
      else v)"

text \<open>\<^verbatim>\<open>if (result.insights?.length) sanitized.insights = result.insights.map(...)\<close>\<close>

definition strip_insight_flags ::
  "(string \<rightharpoonup> bool) \<Rightarrow> plugin_event_result \<Rightarrow> sanitize_vars \<Rightarrow> sanitize_vars" where
  "strip_insight_flags grants result v =
     (case res_insights result of
        None \<Rightarrow> v
      | Some xs \<Rightarrow>
          if length xs > 0
          then ((fst v)\<lparr>res_insights := Some (fst (sanitize_insights grants xs (snd v)))\<rparr>,
                snd (sanitize_insights grants xs (snd v)))
          else v)"

text \<open>\<^verbatim>\<open>if (blocked.length > 0) sanitized.insights = [...(sanitized.insights || []), {...}]\<close>\<close>

definition append_blocked_insight ::
  "int \<Rightarrow> plugin_definition \<Rightarrow> sanitize_vars \<Rightarrow> sanitize_vars" where
  "append_blocked_insight now plugin v =
     (if length (snd v) > 0
      then ((fst v)\<lparr>res_insights :=
               Some ((case res_insights (fst v) of Some xs \<Rightarrow> xs | None \<Rightarrow> [])
                     @ [capabilityBlockedInsight now (def_id plugin) (snd v)])\<rparr>,
            snd v)
      else v)"

definition sanitizeResultForCapabilities ::
  "int \<Rightarrow> plugin_definition \<Rightarrow> plugin_event_result \<Rightarrow> (string \<rightharpoonup> bool)
     \<Rightarrow> plugin_event_result \<times> string list" where
  "sanitizeResultForCapabilities now plugin result grants =
     append_blocked_insight now plugin
       (strip_insight_flags grants result
         (strip_eventDataPatch grants result
           (strip_userMessageMutation grants result
             (strip_permissionDecision grants result (result, [])))))"

section \<open>Execution engine\<close>

text \<open>\<^verbatim>\<open>stateConfig ?? plugin.defaultConfig\<close>: the default replaces \<^verbatim>\<open>undefined\<close> and \<^verbatim>\<open>null\<close>.\<close>

definition raw_config :: "plugin_definition \<Rightarrow> jsval option \<Rightarrow> jsval" where
  "raw_config plugin stateConfig =
     (case stateConfig of
        None \<Rightarrow> def_defaultConfig plugin
      | Some VNull \<Rightarrow> def_defaultConfig plugin
      | Some v \<Rightarrow> v)"

text \<open>
  \<^verbatim>\<open>resolveConfig\<close>. The validator returns the config or throws (\<open>Inl\<close>). The warning
  written to the console is left out; the set that makes it appear once per plugin is kept.
\<close>

definition resolveConfig ::
  "plugin_definition \<Rightarrow> jsval option \<Rightarrow> bool \<Rightarrow> manager \<Rightarrow> jsval \<times> manager" where
  "resolveConfig plugin stateConfig persistDefaultOnInvalid m =
     (let rawConfig = raw_config plugin stateConfig
      in case def_validateConfig plugin of
           None \<Rightarrow> (rawConfig, m)
         | Some validateConfig \<Rightarrow>
             (case validateConfig rawConfig of
                Inr config \<Rightarrow> (config, m)
              | Inl err \<Rightarrow>
                  (let m1 = (if def_id plugin \<notin> warnedInvalidConfig m
                             then m\<lparr>warnedInvalidConfig := insert (def_id plugin) (warnedInvalidConfig m)\<rparr>
                             else m);
                       m2 = (if persistDefaultOnInvalid \<and> stateConfig \<noteq> None
                             then m1\<lparr>stateStore := (stateStore m1)
                                    \<lparr>st_config := (st_config (stateStore m1))
                                        (def_id plugin \<mapsto> def_defaultConfig plugin)\<rparr>\<rparr>
                             else m1)
                   in (def_defaultConfig plugin, m2))))"

text \<open>
  What \<^verbatim>\<open>executePlugin\<close> puts into its \<^verbatim>\<open>error\<close> field: the \<^verbatim>\<open>PluginTimeoutError\<close> of
  \<^verbatim>\<open>runWithTimeout\<close> (an \<^verbatim>\<open>Error\<close> instance, carrying the timeout), or whatever the
  handler threw.
\<close>

datatype exec_error = PluginTimeoutError int | HandlerThrew thrown

fun exec_error_truthy :: "exec_error \<Rightarrow> bool" where
  "exec_error_truthy (PluginTimeoutError timeoutMs) = True"
| "exec_error_truthy (HandlerThrew err) = thrown_truthy err"

fun exec_error_message :: "exec_error \<Rightarrow> string" where
  "exec_error_message (PluginTimeoutError timeoutMs) = ''Plugin timeout after '' @ show_int timeoutMs @ ''ms''"
| "exec_error_message (HandlerThrew err) = thrown_message err"

fun isTimeout :: "exec_error \<Rightarrow> bool" where
  "isTimeout (PluginTimeoutError timeoutMs) = True"
| "isTimeout (HandlerThrew err) = False"

definition toPluginErrorInsight :: "int \<Rightarrow> string \<Rightarrow> plugin_event \<Rightarrow> exec_error \<Rightarrow> insight" where
  "toPluginErrorInsight now pluginId event err =
     \<lparr> ins_id = pluginId @ ''-'' @ show_int now @ ''-error'',
       ins_plugin_id = pluginId,
       ins_title = ''Plugin error'',
       ins_message = exec_error_message err,
       ins_level = ''error'',
       ins_timestamp = now,
       ins_toast = None,
       ins_sound = None,
       ins_desktop = None,
       ins_event_name = Some (ev_name event),
       ins_session_id = Some (meta_sessionId (ev_meta event)) \<rparr>"

record plugin_exec =
  ex_result :: "plugin_event_result option"
  ex_error :: "exec_error option"
  ex_blockedCapabilities :: "string list"
  ex_durationMs :: int

text \<open>
  The \<^verbatim>\<open>try\<close>/\<^verbatim>\<open>catch\<close> of \<^verbatim>\<open>executePlugin\<close>: what it returns for each way the
  handler's run can end.
\<close>

definition finish_run ::
  "int \<Rightarrow> plugin_definition \<Rightarrow> (string \<rightharpoonup> bool) \<Rightarrow> int \<Rightarrow> handler_run \<Rightarrow> plugin_exec" where
  "finish_run now plugin grants timeoutMs run =
     (let durationMs = run_durationMs run
      in case run_settlement run of
           Returned None \<Rightarrow>
             \<lparr> ex_result = None, ex_error = None, ex_blockedCapabilities = [],
               ex_durationMs = durationMs \<rparr>
         | Returned (Some raw) \<Rightarrow>
             \<lparr> ex_result = Some (fst (sanitizeResultForCapabilities now plugin raw grants)),
               ex_error = None,
               ex_blockedCapabilities = snd (sanitizeResultForCapabilities now plugin raw grants),
               ex_durationMs = durationMs \<rparr>
         | Threw err \<Rightarrow>
             \<lparr> ex_result = None, ex_error = Some (HandlerThrew err), ex_blockedCapabilities = [],
               ex_durationMs = durationMs \<rparr>
         | DeadlineFirst \<Rightarrow>
             \<lparr> ex_result = None, ex_error = Some (PluginTimeoutError timeoutMs),
               ex_blockedCapabilities = [], ex_durationMs = durationMs \<rparr>)"

definition executePlugin ::
  "int \<Rightarrow> plugin_definition \<Rightarrow> plugin_event \<Rightarrow> jsval option \<Rightarrow> manager \<Rightarrow> plugin_exec \<times> manager" where
  "executePlugin now plugin event stateConfig m =
     (let config = fst (resolveConfig plugin stateConfig True m);
          m1 = snd (resolveConfig plugin stateConfig True m);
          timeoutMs = (case def_timeoutMs plugin of Some t \<Rightarrow> t | None \<Rightarrow> DEFAULT_TIMEOUT_MS);
          state = stateStore m1;
          grants = resolveCapabilityGrants plugin state
      in (finish_run now plugin grants timeoutMs (def_onEvent plugin event config), m1))"

text \<open>\<^verbatim>\<open>if (exec.error)\<close>: the field is there and its value is truthy.\<close>

definition has_error :: "plugin_exec \<Rightarrow> bool" where
  "has_error exec = (case ex_error exec of Some err \<Rightarrow> exec_error_truthy err | None \<Rightarrow> False)"

section \<open>Telemetry tracker\<close>

datatype run_outcome = RunSuccess | RunError | RunTimeout | RunAborted

text \<open>\<^verbatim>\<open>Math.round\<close>: the nearest integer, a half rounded up. Its argument, the quotient
  \<^verbatim>\<open>sum / win.length\<close>, is taken in exact arithmetic.\<close>

definition Math_round :: "real \<Rightarrow> int" where
  "Math_round x = \<lfloor>x + 1 / 2\<rfloor>"

text \<open>
  The index \<^verbatim>\<open>Math.min(n - 1, Math.ceil(n * 0.95) - 1)\<close>. The product is taken in exact
  arithmetic: for the window sizes that occur (at most 100) the double-precision product
  has the same ceiling.
\<close>

definition p95_index :: "nat \<Rightarrow> int" where
  "p95_index n = min (int n - 1) (\<lceil>real n * 0.95\<rceil> - 1)"

text \<open>
  \<^verbatim>\<open>updateStatsOnRun\<close>, block by block. First the new stats record with its counters
  (\<^verbatim>\<open>const next = { ...prev, ... }\<close> and the five \<^verbatim>\<open>if\<close> statements after it).
\<close>

definition next_counters ::
  "int \<Rightarrow> plugin_stats \<Rightarrow> int \<Rightarrow> run_outcome \<Rightarrow> string option \<Rightarrow> plugin_stats" where
  "next_counters now prev durationMs outcome error =
     (let next0 = prev\<lparr> stat_invocations := stat_invocations prev + 1,
                        stat_lastDurationMs := durationMs,
                        stat_lastInvokedAt := Some now \<rparr>;
          next1 = (if outcome = RunSuccess then next0\<lparr>stat_successes := stat_successes next0 + 1\<rparr> else next0);
          next2 = (if outcome = RunError then next1\<lparr>stat_errors := stat_errors next1 + 1\<rparr> else next1);
          next3 = (if outcome = RunTimeout then next2\<lparr>stat_timeouts := stat_timeouts next2 + 1\<rparr> else next2);
          next4 = (if outcome = RunAborted then next3\<lparr>stat_aborted := stat_aborted next3 + 1\<rparr> else next3)
      in case error of
           None \<Rightarrow> next4
         | Some e \<Rightarrow> if e \<noteq> [] then next4\<lparr>stat_lastError := Some e\<rparr> else next4)"

text \<open>The window: \<^verbatim>\<open>[...old, durationMs]\<close>, then \<^verbatim>\<open>win.splice(0, win.length - 100)\<close> when
  it is longer than 100.\<close>

definition next_window :: "int list \<Rightarrow> int \<Rightarrow> int list" where
  "next_window old durationMs =
     (let win = old @ [durationMs]
      in if length win > 100 then drop (length win - 100) win else win)"

text \<open>\<^verbatim>\<open>win.length > 0 ? Math.round(sum / win.length) : 0\<close>\<close>

definition avg_duration :: "int list \<Rightarrow> int" where
  "avg_duration win =
     (let sum = foldl (\<lambda>acc v. acc + v) 0 win
      in if length win > 0 then Math_round (real_of_int sum / real (length win)) else 0)"

text \<open>
  The percentile over \<^verbatim>\<open>[...win].sort((a, b) => a - b)\<close>; \<open>old\<close> is the value the field
  keeps when the window is empty. An index outside the array reads \<^verbatim>\<open>undefined\<close>, which
  \<^verbatim>\<open>|| 0\<close> turns into 0.
\<close>

definition p95_duration :: "int list \<Rightarrow> int \<Rightarrow> int" where
  "p95_duration win old =
     (let sorted = sort win
      in if length sorted > 0
         then (let idx = p95_index (length sorted);
                   j = nat (max 0 idx)
               in if j < length sorted then sorted ! j else 0)
         else old)"

definition health_of_stats :: "int \<Rightarrow> plugin_stats \<Rightarrow> plugin_health" where
  "health_of_stats now next =
     (let degraded = (stat_errors next + stat_timeouts next \<ge> 3 \<and> stat_invocations next > 0)
      in \<lparr> h_status = (if degraded then Degraded else Healthy),
           h_reason = (if degraded then Some ''High recent error rate'' else None),
           h_updatedAt = now \<rparr>)"

text \<open>\<^verbatim>\<open>this.stats.get(pluginId) || createEmptyStats()\<close>\<close>

definition stats_of :: "manager \<Rightarrow> string \<Rightarrow> plugin_stats" where
  "stats_of m pluginId = (case stats m pluginId of Some s \<Rightarrow> s | None \<Rightarrow> createEmptyStats)"

text \<open>\<^verbatim>\<open>this.durationWindows.get(pluginId) || []\<close>\<close>

definition window_of :: "manager \<Rightarrow> string \<Rightarrow> int list" where
  "window_of m pluginId = (case durationWindows m pluginId of Some w \<Rightarrow> w | None \<Rightarrow> [])"

definition updateStatsOnRun ::
  "int \<Rightarrow> string \<Rightarrow> int \<Rightarrow> run_outcome \<Rightarrow> string option \<Rightarrow> manager \<Rightarrow> manager" where
  "updateStatsOnRun now pluginId durationMs outcome error m =
     (let prev = stats_of m pluginId;
          next5 = next_counters now prev durationMs outcome error;
          win = next_window (window_of m pluginId) durationMs;
          next6 = next5\<lparr>stat_avgDurationMs := avg_duration win\<rparr>;
          next7 = next6\<lparr>stat_p95DurationMs := p95_duration win (stat_p95DurationMs next6)\<rparr>
      in m\<lparr> durationWindows := (durationWindows m)(pluginId \<mapsto> win),
             stats := (stats m)(pluginId \<mapsto> next7),
             health := (health m)(pluginId \<mapsto> health_of_stats now next7) \<rparr>)"

definition updateHealthFromEnabled :: "int \<Rightarrow> string \<Rightarrow> bool \<Rightarrow> manager \<Rightarrow> manager" where
  "updateHealthFromEnabled now pluginId enabled m =
     (if \<not> enabled
      then m\<lparr>health := (health m)(pluginId \<mapsto>
               \<lparr> h_status = Disabled, h_reason = Some ''Plugin disabled'', h_updatedAt = now \<rparr>)\<rparr>
      else (case health m pluginId of
              None \<Rightarrow>
                m\<lparr>health := (health m)(pluginId \<mapsto>
                     \<lparr> h_status = Healthy, h_reason = None, h_updatedAt = now \<rparr>)\<rparr>
            | Some existing \<Rightarrow>
                if h_status existing = Disabled
                then m\<lparr>health := (health m)(pluginId \<mapsto>
                       \<lparr> h_status = Healthy, h_reason = None, h_updatedAt = now \<rparr>)\<rparr>
                else m))"

section \<open>Administrative surface\<close>

record plugin_runtime_info =
  info_id :: string
  info_name :: string
  info_version :: string
  info_description :: string
  info_events :: "string list"
  info_priority :: int
  info_blocking :: bool
  info_timeoutMs :: int
  info_failPolicy :: fail_policy
  info_enabled :: bool
  info_config :: jsval
  info_capabilitiesRequested :: "string list"
  info_capabilitiesGranted :: "string list"
  info_riskLevel :: string
  info_apiVersion :: int
  info_health :: plugin_health
  info_stats :: plugin_stats

text \<open>The resolved enabled flag: the persisted boolean, or the definition's default.\<close>

definition resolve_enabled :: "persisted_state \<Rightarrow> plugin_definition \<Rightarrow> bool" where
  "resolve_enabled state plugin =
     (case st_enabled state (def_id plugin) of
        Some savedEnabled \<Rightarrow> savedEnabled
      | None \<Rightarrow> def_defaultEnabled plugin)"

text \<open>The callback of the \<^verbatim>\<open>map\<close> in \<^verbatim>\<open>list()\<close>; \<open>state\<close> is the snapshot taken before it.\<close>

definition list_row ::
  "int \<Rightarrow> persisted_state \<Rightarrow> plugin_definition \<Rightarrow> manager \<Rightarrow> plugin_runtime_info \<times> manager" where
  "list_row now state plugin m =
     (let enabled = resolve_enabled state plugin;
          (config, m1) = resolveConfig plugin (st_config state (def_id plugin)) True m;
          requested = getRequestedCapabilities plugin;
          granted = getGrantedCapabilities plugin state;
          m2 = updateHealthFromEnabled now (def_id plugin) enabled m1
      in (\<lparr> info_id = def_id plugin,
             info_name = def_name plugin,
             info_version = def_version plugin,
             info_description = def_description plugin,
             info_events = def_events plugin,
             info_priority = def_priority plugin,
             info_blocking = def_blocking plugin,
             info_timeoutMs = (case def_timeoutMs plugin of Some t \<Rightarrow> t | None \<Rightarrow> DEFAULT_TIMEOUT_MS),
             info_failPolicy = (case def_failPolicy plugin of Some f \<Rightarrow> f | None \<Rightarrow> Continue),
             info_enabled = enabled,
             info_config = config,
             info_capabilitiesRequested = requested,
             info_capabilitiesGranted = granted,
             info_riskLevel = (case def_riskLevel plugin of Some r \<Rightarrow> r | None \<Rightarrow> ''low''),
             info_apiVersion = (case def_apiVersion plugin of Some v \<Rightarrow> v | None \<Rightarrow> 1),
             info_health = (case health m2 (def_id plugin) of
                              Some h \<Rightarrow> h | None \<Rightarrow> createDefaultHealth now enabled),
             info_stats = stats_of m2 (def_id plugin) \<rparr>,
          m2))"

fun list_loop ::
  "int \<Rightarrow> persisted_state \<Rightarrow> plugin_definition list \<Rightarrow> manager
     \<Rightarrow> plugin_runtime_info list \<times> manager" where
  "list_loop now state [] m = ([], m)"
| "list_loop now state (plugin # rest) m =
     (let (row, m1) = list_row now state plugin m;
          (rows, m2) = list_loop now state rest m1
      in (row # rows, m2))"

text \<open>\<^verbatim>\<open>PluginManager.list\<close>\<close>

definition list_plugins :: "int \<Rightarrow> manager \<Rightarrow> plugin_runtime_info list \<times> manager" where
  "list_plugins now m = list_loop now (stateStore m) (map_values (definitions m)) m"

definition getStats :: "string \<Rightarrow> manager \<Rightarrow> plugin_stats option" where
  "getStats pid m =
     (if map_get (definitions m) pid = None then None
      else Some (stats_of m pid))"

definition setEnabled ::
  "int \<Rightarrow> string \<Rightarrow> bool \<Rightarrow> manager \<Rightarrow> plugin_runtime_info option \<times> manager" where
  "setEnabled now pid enabled m =
     (case map_get (definitions m) pid of
        None \<Rightarrow> (None, m)
      | Some plugin \<Rightarrow>
          (let m1 = m\<lparr>stateStore := (stateStore m)
                        \<lparr>st_enabled := (st_enabled (stateStore m))(pid \<mapsto> enabled)\<rparr>\<rparr>;
               m2 = updateHealthFromEnabled now pid enabled m1;
               (rows, m3) = list_plugins now m2
           in (find (\<lambda>row. info_id row = pid) rows, m3)))"

text \<open>
  \<^verbatim>\<open>updateConfig\<close> either throws (\<open>Inl\<close>) or returns a row or \<^verbatim>\<open>null\<close> (\<open>Inr\<close>);
  the second component is the manager after the call, also when it throws.
\<close>

datatype manager_error = PluginConfigValidationError (err_pluginId: string) (err_message: string)

definition updateConfig ::
  "int \<Rightarrow> string \<Rightarrow> jsval \<Rightarrow> manager
     \<Rightarrow> (manager_error + plugin_runtime_info option) \<times> manager" where
  "updateConfig now pid rawConfig m =
     (case map_get (definitions m) pid of
        None \<Rightarrow> (Inr None, m)
      | Some plugin \<Rightarrow>
          (case (case def_validateConfig plugin of
                   Some validateConfig \<Rightarrow> validateConfig rawConfig
                 | None \<Rightarrow> Inr rawConfig) of
             Inl err \<Rightarrow>
               (Inl (PluginConfigValidationError pid
                       (''Invalid config for plugin '' @ pid @ '': '' @ thrown_message err)), m)
           | Inr config \<Rightarrow>
               (let m1 = m\<lparr>stateStore := (stateStore m)
                             \<lparr>st_config := (st_config (stateStore m))(pid \<mapsto> config)\<rparr>\<rparr>;
                    m2 = m1\<lparr>warnedInvalidConfig := warnedInvalidConfig m1 - {pid}\<rparr>;
                    (rows, m3) = list_plugins now m2
                in (Inr (find (\<lambda>row. info_id row = pid) rows), m3))))"

section \<open>Dispatch orchestrator\<close>

definition exec_insights :: "plugin_exec \<Rightarrow> insight list" where
  "exec_insights exec =
     (case ex_result exec of
        None \<Rightarrow> []
      | Some r \<Rightarrow> (case res_insights r of Some xs \<Rightarrow> xs | None \<Rightarrow> []))"

record emit_result =
  er_insights :: "insight list"
  er_permissionDecision :: "permission_decision option"
  er_userMessageMutation :: "user_message_mutation option"
  er_aborted :: bool

record plugin_dry_run_result =
  dry_pluginId :: string
  dry_applied :: bool
  dry_blockedByCapabilities :: "string list"
  dry_result :: emit_result

definition dryRun ::
  "int \<Rightarrow> string \<Rightarrow> plugin_event \<Rightarrow> jsval option \<Rightarrow> manager
     \<Rightarrow> plugin_dry_run_result option \<times> manager" where
  "dryRun now pluginId event rawConfig m =
     (case map_get (definitions m) pluginId of
        None \<Rightarrow> (None, m)
      | Some plugin \<Rightarrow>
          (let (exec, m1) = executePlugin now plugin event rawConfig m
           in if has_error exec
              then (let err = the (ex_error exec);
                        m2 = updateStatsOnRun now pluginId (ex_durationMs exec)
                               (if isTimeout err then RunTimeout else RunError)
                               (Some (exec_error_message err)) m1
                    in (Some \<lparr> dry_pluginId = pluginId, dry_applied = False,
                               dry_blockedByCapabilities = [],
                               dry_result = \<lparr> er_insights = [toPluginErrorInsight now pluginId event err],
                                              er_permissionDecision = None,
                                              er_userMessageMutation = None,
                                              er_aborted = False \<rparr> \<rparr>, m2))
              else (let m2 = updateStatsOnRun now pluginId (ex_durationMs exec) RunSuccess None m1
                    in (Some \<lparr> dry_pluginId = pluginId, dry_applied = (ex_result exec \<noteq> None),
                               dry_blockedByCapabilities = ex_blockedCapabilities exec,
                               dry_result = \<lparr> er_insights = exec_insights exec,
                                              er_permissionDecision =
                                                (case ex_result exec of None \<Rightarrow> None
                                                 | Some r \<Rightarrow> res_permissionDecision r),
                                              er_userMessageMutation =
                                                (case ex_result exec of None \<Rightarrow> None
                                                 | Some r \<Rightarrow> res_userMessageMutation r),
                                              er_aborted = False \<rparr> \<rparr>, m2))))"

text \<open>\<^verbatim>\<open>plugin.events.includes("*") || plugin.events.includes(event.name)\<close>\<close>

definition subscribed :: "plugin_event \<Rightarrow> plugin_definition \<Rightarrow> bool" where
  "subscribed event plugin =
     (''*'' \<in> set (def_events plugin) \<or> ev_name event \<in> set (def_events plugin))"

text \<open>
  \<^verbatim>\<open>Array.prototype.sort\<close> is stable; with the comparator
  \<^verbatim>\<open>(a, b) => b.priority - a.priority\<close> it is the stable sort by the negated priority.
\<close>

definition candidates :: "manager \<Rightarrow> plugin_event \<Rightarrow> plugin_definition list" where
  "candidates m event =
     sort_key (\<lambda>plugin. - def_priority plugin)
       (filter (subscribed event) (map_values (definitions m)))"

text \<open>
  One key of \<^verbatim>\<open>{ ...a, ...b }\<close>: every own key of \<^verbatim>\<open>b\<close> is copied over that of \<^verbatim>\<open>a\<close>,
  also a key whose value is \<^verbatim>\<open>undefined\<close>; a key \<^verbatim>\<open>b\<close> lacks keeps what \<^verbatim>\<open>a\<close> has.
\<close>

definition spread_key :: "'a own_key \<Rightarrow> 'a own_key \<Rightarrow> 'a own_key" where
  "spread_key a b = (case b of KeyAbsent \<Rightarrow> a | KeyUndefined \<Rightarrow> KeyUndefined | KeyValue v \<Rightarrow> KeyValue v)"

text \<open>\<^verbatim>\<open>{ ...userMessageMutation, ...result.userMessageMutation }\<close>; spreading
  \<^verbatim>\<open>undefined\<close> adds no key.\<close>

definition merge_mutation ::
  "user_message_mutation option \<Rightarrow> user_message_mutation \<Rightarrow> user_message_mutation" where
  "merge_mutation prev mu =
     (case prev of
        None \<Rightarrow> mu
      | Some p \<Rightarrow>
          \<lparr> mut_content = spread_key (mut_content p) (mut_content mu),
            mut_images = spread_key (mut_images p) (mut_images mu),
            mut_pluginId = spread_key (mut_pluginId p) (mut_pluginId mu) \<rparr>)"

text \<open>
  A non-blocking run that \<^verbatim>\<open>emit\<close> has started and not joined: its \<^verbatim>\<open>then\<close> callback
  runs after \<^verbatim>\<open>emit\<close> has moved on, with the outcome kept here.
\<close>

record detached_run =
  det_pluginId :: string
  det_exec :: plugin_exec

text \<open>
  A call of a handler, recorded in the order the calls are made (the source keeps no
  such list; it is what an observer of the handlers sees).
\<close>

record invocation =
  inv_plugin :: plugin_definition
  inv_event :: plugin_event

text \<open>The local variables of \<^verbatim>\<open>emit\<close>, the manager, the detached runs and the calls made.\<close>

record emit_state =
  es_manager :: manager
  es_insights :: "insight list"
  es_permissionDecision :: "permission_decision option"
  es_userMessageMutation :: "user_message_mutation option"
  es_aborted :: bool
  es_mutableEvent :: plugin_event
  es_detached :: "detached_run list"
  es_invoked :: "invocation list"

text \<open>
  The derived event after an \<^verbatim>\<open>eventDataPatch\<close>:
  \<^verbatim>\<open>{ ...mutableEvent, data: { ...mutableEvent.data, ...result.eventDataPatch } }\<close>,
  when there is a patch and the payload is an object.
\<close>

definition patch_event :: "plugin_event_result \<Rightarrow> plugin_event \<Rightarrow> plugin_event" where
  "patch_event result ev =
     (case res_eventDataPatch result of
        None \<Rightarrow> ev
      | Some patch \<Rightarrow>
          (case ev_data ev of
             None \<Rightarrow> ev
           | Some data \<Rightarrow> ev\<lparr>ev_data := Some (data ++ patch)\<rparr>))"

text \<open>
  The derived event after a message mutation: for \<^verbatim>\<open>user.message.before_send\<close> with an
  object payload, \<^verbatim>\<open>content\<close> of the payload is overwritten when
  \<^verbatim>\<open>typeof result.userMessageMutation.content === "string"\<close> and \<^verbatim>\<open>images\<close> when
  \<^verbatim>\<open>Array.isArray(result.userMessageMutation.images)\<close>; a missing key and a key that is
  \<^verbatim>\<open>undefined\<close> both leave the payload as it is.
\<close>

definition mutate_event :: "user_message_mutation \<Rightarrow> plugin_event \<Rightarrow> plugin_event" where
  "mutate_event mu ev =
     (if ev_name ev = ''user.message.before_send''
      then (case ev_data ev of
              None \<Rightarrow> ev
            | Some data \<Rightarrow>
                (let nextData0 = data;
                     nextData1 = (case mut_content mu of
                                    KeyValue c \<Rightarrow> nextData0(''content'' \<mapsto> VStr c)
                                  | _ \<Rightarrow> nextData0);
                     nextData2 = (case mut_images mu of
                                    KeyValue imgs \<Rightarrow> nextData1(''images'' \<mapsto> VArr imgs)
                                  | _ \<Rightarrow> nextData1)
                 in ev\<lparr>ev_data := Some nextData2\<rparr>))
      else ev)"

text \<open>The tail of the loop body: what a blocking plugin's sanitized result does.\<close>

definition apply_result :: "plugin_event_result \<Rightarrow> emit_state \<Rightarrow> emit_state" where
  "apply_result result s =
     (let ev1 = patch_event result (es_mutableEvent s);
          insights1 = (case res_insights result of
                         None \<Rightarrow> es_insights s
                       | Some xs \<Rightarrow> if length xs > 0 then es_insights s @ xs else es_insights s);
          pd1 = (if es_permissionDecision s = None \<and> res_permissionDecision result \<noteq> None
                 then res_permissionDecision result
                 else es_permissionDecision s)
      in case res_userMessageMutation result of
           None \<Rightarrow>
             s\<lparr> es_mutableEvent := ev1, es_insights := insights1, es_permissionDecision := pd1 \<rparr>
         | Some mu \<Rightarrow>
             s\<lparr> es_mutableEvent := mutate_event mu ev1, es_insights := insights1,
                es_permissionDecision := pd1,
                es_userMessageMutation := Some (merge_mutation (es_userMessageMutation s) mu) \<rparr>)"

text \<open>
  The two ways the loop body ends for a blocking plugin. \<open>s\<close> is the state after
  \<^verbatim>\<open>executePlugin\<close> has returned \<open>exec\<close>. First \<^verbatim>\<open>if (exec.error) { ... }\<close>; the flag
  is \<open>True\<close> when the pass ends in \<^verbatim>\<open>break\<close>.
\<close>

definition on_blocking_failure ::
  "int \<Rightarrow> plugin_event \<Rightarrow> plugin_definition \<Rightarrow> plugin_exec \<Rightarrow> emit_state \<Rightarrow> emit_state \<times> bool" where
  "on_blocking_failure now event plugin exec s =
     (let failPolicy = (case def_failPolicy plugin of Some f \<Rightarrow> f | None \<Rightarrow> Continue);
          err = the (ex_error exec);
          m2 = updateStatsOnRun now (def_id plugin) (ex_durationMs exec)
                 (if isTimeout err then RunTimeout else RunError)
                 (Some (exec_error_message err)) (es_manager s);
          insights1 = es_insights s @ [toPluginErrorInsight now (def_id plugin) event err]
      in if failPolicy = AbortCurrentAction
         then (let prev = stats_of m2 (def_id plugin);
                   m3 = m2\<lparr>stats := (stats m2)(def_id plugin \<mapsto>
                            prev\<lparr>stat_aborted := stat_aborted prev + 1\<rparr>)\<rparr>
               in (s\<lparr> es_manager := m3, es_insights := insights1, es_aborted := True \<rparr>, True))
         else (s\<lparr> es_manager := m2, es_insights := insights1 \<rparr>, False))"

text \<open>Then the rest of the body, from \<^verbatim>\<open>this.updateStatsOnRun(plugin.id, exec.durationMs, "success")\<close>.\<close>

definition on_blocking_success ::
  "int \<Rightarrow> plugin_definition \<Rightarrow> plugin_exec \<Rightarrow> emit_state \<Rightarrow> emit_state \<times> bool" where
  "on_blocking_success now plugin exec s =
     (let m2 = updateStatsOnRun now (def_id plugin) (ex_durationMs exec) RunSuccess None (es_manager s);
          s1 = s\<lparr> es_manager := m2 \<rparr>
      in case ex_result exec of
           None \<Rightarrow> (s1, False)
         | Some result \<Rightarrow> (apply_result result s1, False))"

text \<open>One pass through the body of \<^verbatim>\<open>for (const plugin of candidates)\<close>.\<close>

definition emit_step ::
  "int \<Rightarrow> plugin_event \<Rightarrow> persisted_state \<Rightarrow> plugin_definition \<Rightarrow> emit_state
     \<Rightarrow> emit_state \<times> bool" where
  "emit_step now event state plugin s =
     (let enabled = resolve_enabled state plugin;
          m0 = updateHealthFromEnabled now (def_id plugin) enabled (es_manager s)
      in if \<not> enabled then (s\<lparr>es_manager := m0\<rparr>, False)
         else
           (let exec = fst (executePlugin now plugin (es_mutableEvent s)
                              (st_config state (def_id plugin)) m0);
                m1 = snd (executePlugin now plugin (es_mutableEvent s)
                            (st_config state (def_id plugin)) m0);
                s1 = s\<lparr> es_manager := m1,
                        es_invoked := es_invoked s
                          @ [\<lparr> inv_plugin = plugin, inv_event = es_mutableEvent s \<rparr>] \<rparr>
            in if \<not> def_blocking plugin
               then (s1\<lparr> es_detached := es_detached s1
                          @ [\<lparr> det_pluginId = def_id plugin, det_exec = exec \<rparr>] \<rparr>, False)
               else if has_error exec
               then on_blocking_failure now event plugin exec s1
               else on_blocking_success now plugin exec s1))"

fun emit_loop ::
  "int \<Rightarrow> plugin_event \<Rightarrow> persisted_state \<Rightarrow> plugin_definition list \<Rightarrow> emit_state
     \<Rightarrow> emit_state" where
  "emit_loop now event state [] s = s"
| "emit_loop now event state (plugin # rest) s =
     (case emit_step now event state plugin s of
        (s1, stop) \<Rightarrow> if stop then s1 else emit_loop now event state rest s1)"

definition emit_init :: "manager \<Rightarrow> plugin_event \<Rightarrow> emit_state" where
  "emit_init m event =
     \<lparr> es_manager = m, es_insights = [], es_permissionDecision = None,
       es_userMessageMutation = None, es_aborted = False, es_mutableEvent = event,
       es_detached = [], es_invoked = [] \<rparr>"

text \<open>The state of \<^verbatim>\<open>emit\<close> when it reaches its \<^verbatim>\<open>return\<close>.\<close>

definition emit_run :: "int \<Rightarrow> plugin_event \<Rightarrow> manager \<Rightarrow> emit_state" where
  "emit_run now event m =
     emit_loop now event (stateStore m) (candidates m event) (emit_init m event)"

text \<open>\<^verbatim>\<open>return { insights, permissionDecision, userMessageMutation, aborted }\<close>\<close>

definition emit :: "int \<Rightarrow> plugin_event \<Rightarrow> manager \<Rightarrow> emit_result" where
  "emit now event m =
     (let s = emit_run now event m
      in \<lparr> er_insights = es_insights s,
           er_permissionDecision = es_permissionDecision s,
           er_userMessageMutation = es_userMessageMutation s,
           er_aborted = es_aborted s \<rparr>)"

text \<open>
  The \<^verbatim>\<open>then\<close> callback of a detached (non-blocking) run: it records telemetry and
  hands insights to \<^verbatim>\<open>onInsight\<close>, one call per insight. The first component lists the
  arguments of these calls in order. The callback is taken not to throw, so the
  \<^verbatim>\<open>catch\<close> after the \<^verbatim>\<open>then\<close> never runs.
\<close>

definition settle_detached ::
  "int \<Rightarrow> plugin_event \<Rightarrow> detached_run \<Rightarrow> manager \<Rightarrow> insight list \<times> manager" where
  "settle_detached now event d m =
     (let exec = det_exec d
      in if has_error exec
         then (let err = the (ex_error exec);
                   m1 = updateStatsOnRun now (det_pluginId d) (ex_durationMs exec)
                          (if isTimeout err then RunTimeout else RunError)
                          (Some (exec_error_message err)) m
               in ([toPluginErrorInsight now (det_pluginId d) event err], m1))
         else (let m1 = updateStatsOnRun now (det_pluginId d) (ex_durationMs exec) RunSuccess None m
               in (case ex_result exec of
                     None \<Rightarrow> ([], m1)
                   | Some r \<Rightarrow> (case res_insights r of None \<Rightarrow> ([], m1) | Some xs \<Rightarrow> (xs, m1)))))"

section \<open>The specification's notions\<close>

text \<open>
  Definitions that follow the words of the specification, to compare the code with.
\<close>

subsection \<open>Capability gate\<close>

text \<open>A list deduplicated, each element kept at its first occurrence.\<close>

fun dedup_first :: "'a list \<Rightarrow> 'a list" where
  "dedup_first [] = []"
| "dedup_first (x # xs) = x # dedup_first (filter (\<lambda>y. y \<noteq> x) xs)"

text \<open>An insight with each of its three flags cleared when the flag is set and the matching
  capability is not granted.\<close>

definition clear_flags :: "(string \<rightharpoonup> bool) \<Rightarrow> insight \<Rightarrow> insight" where
  "clear_flags grants ins =
     ins\<lparr> ins_toast := (if ins_toast ins = Some True \<and> \<not> granted grants ''insight:toast''
                        then Some False else ins_toast ins),
          ins_sound := (if ins_sound ins = Some True \<and> \<not> granted grants ''insight:sound''
                        then Some False else ins_sound ins),
          ins_desktop := (if ins_desktop ins = Some True \<and> \<not> granted grants ''insight:desktop''
                          then Some False else ins_desktop ins) \<rparr>"

text \<open>The capabilities one insight runs into, in the order toast, sound, desktop.\<close>

definition insight_blocks :: "(string \<rightharpoonup> bool) \<Rightarrow> insight \<Rightarrow> string list" where
  "insight_blocks grants ins =
     (if ins_toast ins = Some True \<and> \<not> granted grants ''insight:toast'' then [''insight:toast''] else [])
     @ (if ins_sound ins = Some True \<and> \<not> granted grants ''insight:sound'' then [''insight:sound''] else [])
     @ (if ins_desktop ins = Some True \<and> \<not> granted grants ''insight:desktop'' then [''insight:desktop''] else [])"

definition insights_or_empty :: "plugin_event_result \<Rightarrow> insight list" where
  "insights_or_empty result = (case res_insights result of Some xs \<Rightarrow> xs | None \<Rightarrow> [])"

text \<open>Every blocked capability of a result, once per occurrence, in the order the gate
  meets them.\<close>

definition result_blocks :: "(string \<rightharpoonup> bool) \<Rightarrow> plugin_event_result \<Rightarrow> string list" where
  "result_blocks grants result =
     (if res_permissionDecision result \<noteq> None \<and> \<not> granted grants ''permission:auto-decide''
      then [''permission:auto-decide''] else [])
     @ (if res_userMessageMutation result \<noteq> None \<and> \<not> granted grants ''message:mutate''
        then [''message:mutate''] else [])
     @ (if res_eventDataPatch result \<noteq> None \<and> \<not> granted grants ''event:patch''
        then [''event:patch''] else [])
     @ concat (map (insight_blocks grants) (insights_or_empty result))"

text \<open>The entry of a capability in the persisted grants of a plugin, if there is one.\<close>

definition persisted_grant :: "persisted_state \<Rightarrow> plugin_definition \<Rightarrow> string \<Rightarrow> bool option" where
  "persisted_grant state plugin cap =
     (case st_grants state (def_id plugin) of Some g \<Rightarrow> g cap | None \<Rightarrow> None)"

text \<open>The blocked capabilities of the three result-level fields.\<close>

definition pre_blocks :: "(string \<rightharpoonup> bool) \<Rightarrow> plugin_event_result \<Rightarrow> string list" where
  "pre_blocks grants result =
     (if res_permissionDecision result \<noteq> None \<and> \<not> granted grants ''permission:auto-decide''
      then [''permission:auto-decide''] else [])
     @ (if res_userMessageMutation result \<noteq> None \<and> \<not> granted grants ''message:mutate''
        then [''message:mutate''] else [])
     @ (if res_eventDataPatch result \<noteq> None \<and> \<not> granted grants ''event:patch''
        then [''event:patch''] else [])"

subsection \<open>Telemetry\<close>

text \<open>The last \<open>n\<close> elements of a list: what is left after the oldest are evicted.\<close>

definition last_n :: "nat \<Rightarrow> 'a list \<Rightarrow> 'a list" where
  "last_n n xs = drop (length xs - n) xs"

text \<open>The arithmetic mean of a window.\<close>

definition mean :: "int list \<Rightarrow> real" where
  "mean xs = real_of_int (sum_list xs) / real (length xs)"

text \<open>The durations 10, 20, ..., 1000.\<close>

definition tens :: "int list" where
  "tens = map (\<lambda>i. 10 * int i) [1..<101]"

text \<open>A sequence of recorded invocations of one plugin, each a duration and an outcome.\<close>

definition record_runs :: "int \<Rightarrow> string \<Rightarrow> (int \<times> run_outcome) list \<Rightarrow> manager \<Rightarrow> manager" where
  "record_runs now pid runs m =
     foldl (\<lambda>m' run. updateStatsOnRun now pid (fst run) (snd run) None m') m runs"

text \<open>An outcome that counts towards degradation.\<close>

definition failed :: "run_outcome \<Rightarrow> bool" where
  "failed outcome = (outcome = RunError \<or> outcome = RunTimeout)"

text \<open>The failed runs among the last 100 recorded runs: the errors and timeouts
  "within the tracked window" of 100 samples.\<close>

definition window_failures :: "(int \<times> run_outcome) list \<Rightarrow> nat" where
  "window_failures runs = length (filter (\<lambda>run. failed (snd run)) (last_n 100 runs))"

text \<open>A plugin definition with the optional fields left out, for concrete scenarios.\<close>

definition sample_plugin ::
  "string \<Rightarrow> int \<Rightarrow> bool \<Rightarrow> string list \<Rightarrow> (plugin_event \<Rightarrow> jsval \<Rightarrow> handler_run) \<Rightarrow> plugin_definition" where
  "sample_plugin pid priority blocking events onEvent =
     \<lparr> def_id = pid, def_name = pid, def_version = ''1.0.0'', def_description = [],
       def_events = events, def_priority = priority, def_blocking = blocking,
       def_timeoutMs = None, def_failPolicy = None, def_defaultEnabled = True,
       def_defaultConfig = VObj [], def_validateConfig = None,
       def_capabilities = Some [''message:mutate''], def_riskLevel = None,
       def_apiVersion = None, def_onEvent = onEvent \<rparr>"

subsection \<open>Dispatch\<close>

text \<open>The config that \<^verbatim>\<open>resolveConfig\<close> returns: the validated value, or the default when
  validation fails.\<close>

definition resolved_config :: "plugin_definition \<Rightarrow> jsval option \<Rightarrow> jsval" where
  "resolved_config plugin stateConfig =
     (case def_validateConfig plugin of
        None \<Rightarrow> raw_config plugin stateConfig
      | Some validateConfig \<Rightarrow>
          (case validateConfig (raw_config plugin stateConfig) of
             Inr config \<Rightarrow> config
           | Inl err \<Rightarrow> def_defaultConfig plugin))"

text \<open>\<^verbatim>\<open>plugin.timeoutMs ?? DEFAULT_TIMEOUT_MS\<close>\<close>

definition timeout_of :: "plugin_definition \<Rightarrow> int" where
  "timeout_of plugin = (case def_timeoutMs plugin of Some t \<Rightarrow> t | None \<Rightarrow> DEFAULT_TIMEOUT_MS)"

text \<open>\<^verbatim>\<open>plugin.failPolicy ?? "continue"\<close>\<close>

definition policy_of :: "plugin_definition \<Rightarrow> fail_policy" where
  "policy_of plugin = (case def_failPolicy plugin of Some f \<Rightarrow> f | None \<Rightarrow> Continue)"

text \<open>What \<^verbatim>\<open>executePlugin\<close> returns for a candidate in a given state of the loop: the
  handler run on the current derived event with the resolved config, under the grants
  of the store.\<close>

definition step_exec :: "int \<Rightarrow> persisted_state \<Rightarrow> plugin_definition \<Rightarrow> emit_state \<Rightarrow> plugin_exec" where
  "step_exec now state plugin s =
     finish_run now plugin (resolveCapabilityGrants plugin (stateStore (es_manager s)))
       (timeout_of plugin)
       (def_onEvent plugin (es_mutableEvent s) (resolved_config plugin (st_config state (def_id plugin))))"

text \<open>The manager after the health refresh and the config resolution of an enabled candidate.\<close>

definition step_manager :: "int \<Rightarrow> persisted_state \<Rightarrow> plugin_definition \<Rightarrow> manager \<Rightarrow> manager" where
  "step_manager now state plugin m =
     snd (resolveConfig plugin (st_config state (def_id plugin)) True
            (updateHealthFromEnabled now (def_id plugin) True m))"

text \<open>The plugins whose handlers a dispatch calls, in the order of the calls.\<close>

definition invoked_plugins :: "int \<Rightarrow> plugin_event \<Rightarrow> manager \<Rightarrow> plugin_definition list" where
  "invoked_plugins now event m = map inv_plugin (es_invoked (emit_run now event m))"

text \<open>
  A plugin takes part in the dispatch of an event when it is on (the persisted flag when
  there is one, the declared default otherwise) and its events list holds the name of
  the event or the wildcard.
\<close>

definition eligible :: "persisted_state \<Rightarrow> plugin_event \<Rightarrow> plugin_definition \<Rightarrow> bool" where
  "eligible state event plugin =
     ((case st_enabled state (def_id plugin) of
         Some on \<Rightarrow> on
       | None \<Rightarrow> def_defaultEnabled plugin)
      \<and> (ev_name event \<in> set (def_events plugin) \<or> ''*'' \<in> set (def_events plugin)))"

text \<open>
  The order a dispatch is to follow: the registered plugins that take part, in
  registration order, stably sorted by descending priority. It is written from the
  registry alone, without the candidate selection of \<^verbatim>\<open>emit\<close>.
\<close>

definition dispatch_plan :: "manager \<Rightarrow> plugin_event \<Rightarrow> plugin_definition list" where
  "dispatch_plan m event =
     sort_key (\<lambda>plugin. - def_priority plugin)
       (filter (eligible (stateStore m) event) (map snd (definitions m)))"

text \<open>An event with fixed metadata, for concrete scenarios.\<close>

definition sample_event :: "string \<Rightarrow> jsobject option \<Rightarrow> plugin_event" where
  "sample_event name data =
     \<lparr> ev_name = name,
       ev_meta = \<lparr> meta_eventId = ''e1'', meta_eventVersion = 1, meta_timestamp = 0,
                   meta_source = ''test'', meta_sessionId = ''s1'', meta_backendType = None \<rparr>,
       ev_data = data \<rparr>"

text \<open>A blocking plugin with fail policy \<^verbatim>\<open>abort_current_action\<close> whose handler rejects
  without a reason, as \<^verbatim>\<open>() => Promise.reject()\<close> does.\<close>

definition rejecting_guard :: plugin_definition where
  "rejecting_guard =
     (sample_plugin ''guard'' 100 True [''*'']
        (\<lambda>event config. \<lparr> run_settlement = Threw ThrownUndefined, run_durationMs = 0 \<rparr>))
       \<lparr> def_failPolicy := Some AbortCurrentAction \<rparr>"

text \<open>A blocking plugin of lower priority that returns nothing.\<close>

definition later_plugin :: plugin_definition where
  "later_plugin =
     sample_plugin ''later'' 50 True [''*'']
       (\<lambda>event config. \<lparr> run_settlement = Returned None, run_durationMs = 0 \<rparr>)"

text \<open>A blocking plugin that returns nothing.\<close>

definition idle_plugin :: "string \<Rightarrow> int \<Rightarrow> string list \<Rightarrow> plugin_definition" where
  "idle_plugin pid priority events =
     sample_plugin pid priority True events
       (\<lambda>event config. \<lparr> run_settlement = Returned None, run_durationMs = 0 \<rparr>)"

text \<open>
  Five plugins registered in the order a, b, c, d, e: a and c share priority 10 and take
  every event, b has priority 50 and takes \<^verbatim>\<open>user.message.before_send\<close>, d has priority 70
  and is switched off in the store, e has priority 90 and takes \<^verbatim>\<open>tool.finished\<close> only.
\<close>

definition order_scenario :: manager where
  "order_scenario =
     new_manager 0 (empty_store\<lparr>st_enabled := [''d'' \<mapsto> False]\<rparr>)
       [idle_plugin ''a'' 10 [''*''],
        idle_plugin ''b'' 50 [''user.message.before_send''],
        idle_plugin ''c'' 10 [''*''],
        idle_plugin ''d'' 70 [''*''],
        idle_plugin ''e'' 90 [''tool.finished'']]"

text \<open>The \<^verbatim>\<open>content\<close> string of an event payload (empty when there is none).\<close>

definition content_of :: "plugin_event \<Rightarrow> string" where
  "content_of event =
     (case ev_data event of
        None \<Rightarrow> []
      | Some data \<Rightarrow> (case data ''content'' of Some (VStr c) \<Rightarrow> c | _ \<Rightarrow> []))"

text \<open>A handler that returns a \<^verbatim>\<open>userMessageMutation\<close> whose content is a function of the
  content it sees.\<close>

definition rewrite_content :: "string \<Rightarrow> (string \<Rightarrow> string) \<Rightarrow> plugin_event \<Rightarrow> jsval \<Rightarrow> handler_run" where
  "rewrite_content pid f event config =
     \<lparr> run_settlement = Returned (Some
         \<lparr> res_insights = None, res_permissionDecision = None,
           res_userMessageMutation =
             Some \<lparr> mut_content = KeyValue (f (content_of event)), mut_images = KeyAbsent,
                    mut_pluginId = KeyValue pid \<rparr>,
           res_eventDataPatch = None \<rparr>),
       run_durationMs = 1 \<rparr>"

text \<open>The plugin "global": priority 100, prepends \<^verbatim>\<open>"[global] "\<close>.\<close>

definition global_plugin :: plugin_definition where
  "global_plugin =
     sample_plugin ''global'' 100 True [''user.message.before_send'']
       (rewrite_content ''global'' (\<lambda>c. ''[global] '' @ c))"

text \<open>The plugin "project": priority 50, appends \<^verbatim>\<open>" [project]"\<close>.\<close>

definition project_plugin :: plugin_definition where
  "project_plugin =
     sample_plugin ''project'' 50 True [''user.message.before_send'']
       (rewrite_content ''project'' (\<lambda>c. c @ '' [project]''))"

text \<open>The event \<^verbatim>\<open>user.message.before_send\<close> with content \<^verbatim>\<open>"hello"\<close>.\<close>

definition hello_event :: plugin_event where
  "hello_event = sample_event ''user.message.before_send'' (Some [''content'' \<mapsto> VStr ''hello''])"

text \<open>A plugin with its handler replaced by another one when it is non-blocking; a blocking
  plugin is left as it is.\<close>

definition with_handlers ::
  "(plugin_definition \<Rightarrow> plugin_event \<Rightarrow> jsval \<Rightarrow> handler_run) \<Rightarrow> plugin_definition \<Rightarrow> plugin_definition" where
  "with_handlers h plugin =
     (if def_blocking plugin then plugin else plugin\<lparr>def_onEvent := h plugin\<rparr>)"

text \<open>A manager whose non-blocking plugins have other handlers, everything else the same.\<close>

definition swap_handlers ::
  "(plugin_definition \<Rightarrow> plugin_event \<Rightarrow> jsval \<Rightarrow> handler_run) \<Rightarrow> manager \<Rightarrow> manager" where
  "swap_handlers h m =
     m\<lparr>definitions := map (\<lambda>kv. (fst kv, with_handlers h (snd kv))) (definitions m)\<rparr>"

text \<open>The handler calls of a dispatch in order: the plugin id and the event each call sees.\<close>

definition handler_calls :: "int \<Rightarrow> plugin_event \<Rightarrow> manager \<Rightarrow> (string \<times> plugin_event) list" where
  "handler_calls now event m =
     map (\<lambda>i. (def_id (inv_plugin i), inv_event i)) (es_invoked (emit_run now event m))"

text \<open>A loop state with another registry, the invocation list rewritten to the replaced
  handlers, and another list of detached runs: what may differ between two dispatches
  that differ in non-blocking handlers only.\<close>

definition overlay ::
  "(plugin_definition \<Rightarrow> plugin_event \<Rightarrow> jsval \<Rightarrow> handler_run)
     \<Rightarrow> (string \<times> plugin_definition) list \<Rightarrow> detached_run list \<Rightarrow> emit_state \<Rightarrow> emit_state" where
  "overlay h D d s =
     s\<lparr> es_manager := (es_manager s)\<lparr>definitions := D\<rparr>,
        es_invoked := map (\<lambda>i. i\<lparr>inv_plugin := with_handlers h (inv_plugin i)\<rparr>) (es_invoked s),
        es_detached := d \<rparr>"

text \<open>A non-blocking plugin whose handler returns a permission decision, a message mutation
  and an event patch.\<close>

definition meddling_plugin :: plugin_definition where
  "meddling_plugin =
     sample_plugin ''meddler'' 10 False [''*'']
       (\<lambda>event config.
          \<lparr> run_settlement = Returned (Some
              \<lparr> res_insights = None,
                res_permissionDecision =
                  Some \<lparr> pd_behavior = ''allow'', pd_message = None, pd_pluginId = Some ''meddler'' \<rparr>,
                res_userMessageMutation =
                  Some \<lparr> mut_content = KeyValue ''changed'', mut_images = KeyAbsent,
                         mut_pluginId = KeyValue ''meddler'' \<rparr>,
                res_eventDataPatch = Some [''content'' \<mapsto> VStr ''patched''] \<rparr>),
            run_durationMs = 1 \<rparr>)"

text \<open>The manager after \<^verbatim>\<open>this.stats.set(plugin.id, { ...prev, aborted: prev.aborted + 1 })\<close>.\<close>

definition abort_bump :: "string \<Rightarrow> manager \<Rightarrow> manager" where
  "abort_bump pid m =
     m\<lparr>stats := (stats m)(pid \<mapsto> (stats_of m pid)\<lparr>stat_aborted := stat_aborted (stats_of m pid) + 1\<rparr>)\<rparr>"

text \<open>Since the manager \<open>m0\<close>, the plugin has been invoked again, or its stats and its
  health are what they were.\<close>

definition still_tracked :: "manager \<Rightarrow> string \<Rightarrow> manager \<Rightarrow> bool" where
  "still_tracked m0 pid m =
     (stat_invocations (stats_of m0 pid) < stat_invocations (stats_of m pid)
      \<or> (stats m pid = stats m0 pid \<and> health m pid = health m0 pid))"

text \<open>The registry is a \<^verbatim>\<open>Map\<close> filled by \<^verbatim>\<open>register\<close>: its keys are distinct and each
  is the id of its definition.\<close>

definition wf_registry :: "(string \<times> plugin_definition) list \<Rightarrow> bool" where
  "wf_registry defs = (distinct (map fst defs) \<and> list_all (\<lambda>kv. def_id (snd kv) = fst kv) defs)"

text \<open>A plugin "p" whose validator accepts objects only; its default config is the empty object.\<close>

definition strict_plugin :: plugin_definition where
  "strict_plugin =
     (sample_plugin ''p'' 0 True [''*'']
        (\<lambda>event config. \<lparr> run_settlement = Returned None, run_durationMs = 0 \<rparr>))
       \<lparr> def_validateConfig :=
           Some (\<lambda>v. case v of VObj kvs \<Rightarrow> Inr v | _ \<Rightarrow> Inl (ThrownError ''not an object'')) \<rparr>"

text \<open>A plugin "p" subscribed to \<^verbatim>\<open>tool.finished\<close> only.\<close>

definition quiet_plugin :: plugin_definition where
  "quiet_plugin =
     sample_plugin ''p'' 0 True [''tool.finished'']
       (\<lambda>event config. \<lparr> run_settlement = Returned None, run_durationMs = 0 \<rparr>)"

section \<open>Properties of the capability gate\<close>

lemma grant_loop_apply:
  "grant_loop grants caps out cap =
     (if cap \<in> set caps then Some (grants cap \<noteq> Some False) else out cap)"
  by (induction caps arbitrary: out) auto

lemma resolveCapabilityGrants_apply:
  "resolveCapabilityGrants plugin state cap =
     (if cap \<in> set (getRequestedCapabilities plugin)
      then Some (persisted_grant state plugin cap \<noteq> Some False) else None)"
  by (simp add: resolveCapabilityGrants_def grant_loop_apply persisted_grant_def Let_def
           split: option.splits)

lemma foldl_push_unique:
  "distinct acc \<Longrightarrow>
   foldl (\<lambda>b c. push_unique c b) acc xs = acc @ dedup_first (filter (\<lambda>x. x \<notin> set acc) xs)"
proof (induction xs arbitrary: acc)
  case Nil
  then show ?case by simp
next
  case (Cons x xs)
  show ?case
  proof (cases "x \<in> set acc")
    case True
    then show ?thesis using Cons by (simp add: push_unique_def)
  next
    case False
    have eq: "filter (\<lambda>y. y \<noteq> x) (filter (\<lambda>y. y \<notin> set acc) xs) = filter (\<lambda>y. y \<notin> set (acc @ [x])) xs"
      by (induction xs) auto
    have "distinct (acc @ [x])" using False Cons.prems by simp
    from Cons.IH[OF this] show ?thesis using False eq by (simp add: push_unique_def)
  qed
qed

lemma sanitize_insight_eq:
  "sanitize_insight grants ins blocked =
     (clear_flags grants ins, foldl (\<lambda>b c. push_unique c b) blocked (insight_blocks grants ins))"
  by (simp add: sanitize_insight_def clear_flags_def insight_blocks_def)

lemma sanitize_insights_eq:
  "sanitize_insights grants xs blocked =
     (map (clear_flags grants) xs,
      foldl (\<lambda>b c. push_unique c b) blocked (concat (map (insight_blocks grants) xs)))"
  by (induction xs arbitrary: blocked) (simp_all add: sanitize_insight_eq)

lemma pre_blocks_fold: "foldl (\<lambda>b c. push_unique c b) [] (pre_blocks grants result) = pre_blocks grants result"
  by (simp add: pre_blocks_def push_unique_def)

lemma result_blocks_split:
  "result_blocks grants result
     = pre_blocks grants result @ concat (map (insight_blocks grants) (insights_or_empty result))"
  by (simp add: result_blocks_def pre_blocks_def)


lemma snd_strips:
  "snd (strip_eventDataPatch grants result
         (strip_userMessageMutation grants result
           (strip_permissionDecision grants result (result, [])))) = pre_blocks grants result"
  by (simp add: strip_eventDataPatch_def strip_userMessageMutation_def strip_permissionDecision_def
        pre_blocks_def)

lemma fst_strips:
  "fst (strip_eventDataPatch grants result
         (strip_userMessageMutation grants result
           (strip_permissionDecision grants result (result, []))))
   = result\<lparr> res_permissionDecision :=
                (if granted grants ''permission:auto-decide'' then res_permissionDecision result else None),
             res_userMessageMutation :=
                (if granted grants ''message:mutate'' then res_userMessageMutation result else None),
             res_eventDataPatch :=
                (if granted grants ''event:patch'' then res_eventDataPatch result else None) \<rparr>"
  by (simp add: strip_eventDataPatch_def strip_userMessageMutation_def strip_permissionDecision_def)

lemma strip_insight_flags_eq:
  "strip_insight_flags grants result v =
     ((fst v)\<lparr>res_insights := (if res_insights result = None \<or> res_insights result = Some []
                                then res_insights (fst v)
                                else map_option (map (clear_flags grants)) (res_insights result))\<rparr>,
      foldl (\<lambda>b c. push_unique c b) (snd v)
        (concat (map (insight_blocks grants) (insights_or_empty result))))"
  by (cases "res_insights result")
     (auto simp: strip_insight_flags_def sanitize_insights_eq insights_or_empty_def)

lemma sanitize_snd:
  "snd (sanitizeResultForCapabilities now plugin result grants)
     = foldl (\<lambda>b c. push_unique c b) (pre_blocks grants result)
         (concat (map (insight_blocks grants) (insights_or_empty result)))"
  by (simp add: sanitizeResultForCapabilities_def append_blocked_insight_def
        strip_insight_flags_eq snd_strips)

lemma sanitize_blocked:
  "snd (sanitizeResultForCapabilities now plugin result grants) = dedup_first (result_blocks grants result)"
proof -
  have "foldl (\<lambda>b c. push_unique c b) [] (result_blocks grants result)
        = snd (sanitizeResultForCapabilities now plugin result grants)"
    by (simp only: result_blocks_split foldl_append pre_blocks_fold sanitize_snd)
  moreover have "foldl (\<lambda>b c. push_unique c b) [] (result_blocks grants result)
        = dedup_first (result_blocks grants result)"
    using foldl_push_unique[of "[]"] by simp
  ultimately show ?thesis by simp
qed

lemma sanitize_fields:
  "res_permissionDecision (fst (sanitizeResultForCapabilities now plugin result grants))
     = (if granted grants ''permission:auto-decide'' then res_permissionDecision result else None)"
  "res_userMessageMutation (fst (sanitizeResultForCapabilities now plugin result grants))
     = (if granted grants ''message:mutate'' then res_userMessageMutation result else None)"
  "res_eventDataPatch (fst (sanitizeResultForCapabilities now plugin result grants))
     = (if granted grants ''event:patch'' then res_eventDataPatch result else None)"
  by (simp_all add: sanitizeResultForCapabilities_def append_blocked_insight_def
        strip_insight_flags_eq fst_strips)

lemma sanitize_insights_field:
  "res_insights (fst (sanitizeResultForCapabilities now plugin result grants))
     = (if snd (sanitizeResultForCapabilities now plugin result grants) = []
        then map_option (map (clear_flags grants)) (res_insights result)
        else Some (map (clear_flags grants) (insights_or_empty result)
                   @ [capabilityBlockedInsight now (def_id plugin)
                        (snd (sanitizeResultForCapabilities now plugin result grants))]))"
  unfolding sanitize_snd
  by (cases "res_insights result")
     (auto simp: sanitizeResultForCapabilities_def append_blocked_insight_def
        strip_insight_flags_eq fst_strips snd_strips insights_or_empty_def)

text \<open>
  Claim C4. A requested capability is granted unless the persisted grants of the plugin
  set it to \<^verbatim>\<open>false\<close>, and a capability that is not requested has no grant.
  Sanitizing a handler result against any grants keeps \<^verbatim>\<open>permissionDecision\<close>,
  \<^verbatim>\<open>userMessageMutation\<close> and \<^verbatim>\<open>eventDataPatch\<close> exactly when the matching capability
  is granted, clears the toast, sound and desktop flag of every insight one by one, and
  returns as blocked the capabilities it met, deduplicated in the order of their first
  occurrence. When that list is empty the insights are the cleared ones; otherwise
  exactly one insight is appended after them: a warning titled "Capability blocked"
  whose message lists the blocked names.
\<close>

theorem capability_gate:
  "resolveCapabilityGrants plugin state cap
     = (if cap \<in> set (getRequestedCapabilities plugin)
        then Some (persisted_grant state plugin cap \<noteq> Some False) else None)
   \<and> res_permissionDecision (fst (sanitizeResultForCapabilities now plugin result grants))
       = (if granted grants ''permission:auto-decide'' then res_permissionDecision result else None)
   \<and> res_userMessageMutation (fst (sanitizeResultForCapabilities now plugin result grants))
       = (if granted grants ''message:mutate'' then res_userMessageMutation result else None)
   \<and> res_eventDataPatch (fst (sanitizeResultForCapabilities now plugin result grants))
       = (if granted grants ''event:patch'' then res_eventDataPatch result else None)
   \<and> snd (sanitizeResultForCapabilities now plugin result grants)
       = dedup_first (result_blocks grants result)
   \<and> res_insights (fst (sanitizeResultForCapabilities now plugin result grants))
       = (if snd (sanitizeResultForCapabilities now plugin result grants) = []
          then map_option (map (clear_flags grants)) (res_insights result)
          else Some (map (clear_flags grants) (insights_or_empty result)
                     @ [capabilityBlockedInsight now (def_id plugin)
                          (snd (sanitizeResultForCapabilities now plugin result grants))]))
   \<and> ins_title (capabilityBlockedInsight now pid blocked) = ''Capability blocked''
   \<and> ins_level (capabilityBlockedInsight now pid blocked) = ''warning''
   \<and> ins_plugin_id (capabilityBlockedInsight now pid blocked) = pid
   \<and> ins_message (capabilityBlockedInsight now pid blocked)
       = ''Blocked by capability grants: '' @ join '', '' blocked"
  using resolveCapabilityGrants_apply sanitize_fields sanitize_blocked sanitize_insights_field
  by (simp add: capabilityBlockedInsight_def)
section \<open>Properties of the telemetry tracker\<close>

lemma next_window_last_n: "next_window old d = last_n 100 (old @ [d])"
  by (simp add: next_window_def last_n_def Let_def)

lemma last_n_length: "length (last_n n xs) = min n (length xs)"
  by (simp add: last_n_def)

lemma last_n_snoc_nonempty: "0 < n \<Longrightarrow> last_n n (xs @ [d]) \<noteq> []"
  by (simp add: last_n_def)

lemma foldl_plus_sum_list: "foldl (\<lambda>acc v. acc + v) a xs = a + sum_list (xs :: int list)"
  by (induction xs arbitrary: a) simp_all

lemma avg_duration_mean: "win \<noteq> [] \<Longrightarrow> avg_duration win = Math_round (mean win)"
  by (simp add: avg_duration_def mean_def foldl_plus_sum_list)

lemma p95_index_bounds: "0 < n \<Longrightarrow> p95_index n \<le> int n - 1"
  by (simp add: p95_index_def)

lemma p95_duration_nth:
  assumes "win \<noteq> []"
  shows "p95_duration win old = sort win ! nat (max 0 (p95_index (length win)))"
proof -
  have n: "0 < length win" using assms by simp
  have j: "nat (max 0 (p95_index (length win))) < length win"
    using p95_index_bounds[OF n] n by linarith
  have "p95_duration win old =
          (if nat (max 0 (p95_index (length win))) < length win
           then sort win ! nat (max 0 (p95_index (length win))) else 0)"
    unfolding p95_duration_def Let_def length_sort using n by (simp only: if_True)
  then show ?thesis using j by (simp only: if_True)
qed

lemma ceiling_95_small:
  assumes "0 < n" "n < 20"
  shows "\<lceil>real n * 0.95\<rceil> = int n"
proof -
  have "real_of_int (int n) - 1 < real n * 0.95" "real n * 0.95 \<le> real_of_int (int n)"
    using assms by simp_all
  then show ?thesis by (rule ceiling_unique)
qed

lemma p95_index_small:
  assumes "0 < n" "n < 20"
  shows "p95_index n = int n - 1"
proof -
  have "\<lceil>real n * 0.95\<rceil> = int n" using assms by (rule ceiling_95_small)
  then show ?thesis unfolding p95_index_def by simp
qed

lemma p95_index_100: "p95_index 100 = 94"
  by (simp add: p95_index_def)

lemma sorted_last_Max: "sorted xs \<Longrightarrow> xs \<noteq> [] \<Longrightarrow> last xs = Max (set (xs :: int list))"
  by (induction xs) (auto simp: max_def intro!: Max_insert2[symmetric] dest: last_in_set)

lemma p95_small_is_max:
  assumes "win \<noteq> []" "length win < 20"
  shows "p95_duration win old = Max (set win)"
proof -
  have n: "0 < length win" using assms by simp
  have k: "nat (max 0 (int (length win) - 1)) = length win - 1" using n by linarith
  have "set (sort win) \<noteq> {}" using assms(1) by simp
  then have sne: "sort win \<noteq> []" by (simp only: set_empty not_False_eq_True)
  have "p95_duration win old = sort win ! (length win - 1)"
    using p95_duration_nth[OF assms(1), of old] p95_index_small[OF n assms(2)] k by simp
  also have "\<dots> = last (sort win)"
    using last_conv_nth[OF sne] by (simp only: length_sort)
  also have "\<dots> = Max (set win)"
    using sorted_last_Max[OF _ sne] by simp
  finally show ?thesis .
qed

lemma tens_length: "length tens = 100"
  by (simp add: tens_def)

lemma tens_sorted: "sort tens = tens"
  unfolding tens_def by (rule sorted_sort_id) (simp add: sorted_map sorted_wrt_iff_nth_less)

lemma tens_nth: "tens ! 94 = 950"
  by (simp add: tens_def del: upt_Suc)

lemma p95_tens: "p95_duration tens old = 950"
proof -
  have "tens \<noteq> []" using tens_length by auto
  from p95_duration_nth[OF this, of old] show ?thesis
    by (simp add: tens_sorted tens_length p95_index_100 tens_nth)
qed

lemma upt_101: "[1..<101] = [1..<100] @ [100::nat]"
proof -
  have "[1..<Suc 100] = [1..<100] @ [100::nat]" by (rule upt_Suc_append) simp
  then show ?thesis by simp
qed

lemma tens_snoc: "last_n 100 (map (\<lambda>i. 10 * int i) [1..<100] @ [1000]) = tens"
  unfolding tens_def upt_101 by (simp add: last_n_def)

lemma window_of_update:
  "window_of (updateStatsOnRun now pid d outcome err m) pid = next_window (window_of m pid) d"
  by (simp add: updateStatsOnRun_def window_of_def Let_def)

lemma durationWindows_update:
  "durationWindows (updateStatsOnRun now pid d outcome err m) pid
     = Some (next_window (window_of m pid) d)"
  by (simp add: updateStatsOnRun_def Let_def)

lemma stats_of_update:
  "stats_of (updateStatsOnRun now pid d outcome err m) pid
     = (next_counters now (stats_of m pid) d outcome err)
         \<lparr> stat_avgDurationMs := avg_duration (next_window (window_of m pid) d),
           stat_p95DurationMs := p95_duration (next_window (window_of m pid) d)
              (stat_p95DurationMs (next_counters now (stats_of m pid) d outcome err)) \<rparr>"
  by (simp add: updateStatsOnRun_def Let_def stats_of_def[of "_\<lparr>durationWindows := _, stats := _, health := _\<rparr>"])

lemma health_update:
  "health (updateStatsOnRun now pid d outcome err m) pid
     = Some (health_of_stats now (stats_of (updateStatsOnRun now pid d outcome err m) pid))"
  by (simp add: updateStatsOnRun_def Let_def stats_of_def[of "_\<lparr>durationWindows := _, stats := _, health := _\<rparr>"])

lemma update_other:
  "pid' \<noteq> pid \<Longrightarrow> stats (updateStatsOnRun now pid d outcome err m) pid' = stats m pid'"
  "pid' \<noteq> pid \<Longrightarrow> health (updateStatsOnRun now pid d outcome err m) pid' = health m pid'"
  "pid' \<noteq> pid \<Longrightarrow> durationWindows (updateStatsOnRun now pid d outcome err m) pid' = durationWindows m pid'"
  by (simp_all add: updateStatsOnRun_def Let_def)

lemma update_frame:
  "definitions (updateStatsOnRun now pid d outcome err m) = definitions m"
  "stateStore (updateStatsOnRun now pid d outcome err m) = stateStore m"
  "warnedInvalidConfig (updateStatsOnRun now pid d outcome err m) = warnedInvalidConfig m"
  by (simp_all add: updateStatsOnRun_def Let_def)

lemma next_counters_fields:
  "stat_invocations (next_counters now prev d outcome err) = stat_invocations prev + 1"
  "stat_errors (next_counters now prev d outcome err)
     = stat_errors prev + (if outcome = RunError then 1 else 0)"
  "stat_timeouts (next_counters now prev d outcome err)
     = stat_timeouts prev + (if outcome = RunTimeout then 1 else 0)"
  "stat_successes (next_counters now prev d outcome err)
     = stat_successes prev + (if outcome = RunSuccess then 1 else 0)"
  "stat_aborted (next_counters now prev d outcome err)
     = stat_aborted prev + (if outcome = RunAborted then 1 else 0)"
  by (cases outcome; cases err; simp add: next_counters_def Let_def)+

lemma stats_counters_update:
  "stat_invocations (stats_of (updateStatsOnRun now pid d outcome err m) pid)
     = stat_invocations (stats_of m pid) + 1"
  "stat_errors (stats_of (updateStatsOnRun now pid d outcome err m) pid)
     = stat_errors (stats_of m pid) + (if outcome = RunError then 1 else 0)"
  "stat_timeouts (stats_of (updateStatsOnRun now pid d outcome err m) pid)
     = stat_timeouts (stats_of m pid) + (if outcome = RunTimeout then 1 else 0)"
  by (simp_all add: stats_of_update next_counters_fields)

lemma stats_avg_p95_update:
  "stat_avgDurationMs (stats_of (updateStatsOnRun now pid d outcome err m) pid)
     = avg_duration (next_window (window_of m pid) d)"
  "\<exists>old. stat_p95DurationMs (stats_of (updateStatsOnRun now pid d outcome err m) pid)
     = p95_duration (next_window (window_of m pid) d) old"
  by (simp add: stats_of_update) (auto simp: stats_of_update)

lemma last_n_last_n_snoc: "last_n n (last_n n xs @ [d]) = last_n n (xs @ [d])"
proof (cases "length xs \<le> n \<or> n = 0")
  case True
  then show ?thesis by (auto simp: last_n_def)
next
  case False
  then have a: "n < length xs" "0 < n" by simp_all
  then have b: "Suc (length xs) - n = Suc (length xs - n)" by arith
  have c: "length xs - (length xs - n) = n" using a by arith
  show ?thesis using a by (simp add: last_n_def b c)
qed

lemma record_runs_snoc:
  "record_runs now pid (runs @ [run]) m
     = updateStatsOnRun now pid (fst run) (snd run) None (record_runs now pid runs m)"
  by (simp add: record_runs_def)

lemma window_of_record_runs:
  "window_of (record_runs now pid runs m) pid
     = (if runs = [] then window_of m pid else last_n 100 (window_of m pid @ map fst runs))"
proof (induction runs rule: rev_induct)
  case Nil
  show ?case by (simp add: record_runs_def)
next
  case (snoc run runs)
  show ?case
  proof (cases "runs = []")
    case True
    then show ?thesis
      by (simp add: record_runs_def window_of_update next_window_last_n)
  next
    case False
    with snoc show ?thesis
      by (simp add: record_runs_snoc window_of_update next_window_last_n last_n_last_n_snoc)
  qed
qed

lemma counters_record_runs:
  "stat_errors (stats_of (record_runs now pid runs m) pid)
     = stat_errors (stats_of m pid) + length (filter (\<lambda>run. snd run = RunError) runs)"
  "stat_timeouts (stats_of (record_runs now pid runs m) pid)
     = stat_timeouts (stats_of m pid) + length (filter (\<lambda>run. snd run = RunTimeout) runs)"
  "stat_invocations (stats_of (record_runs now pid runs m) pid)
     = stat_invocations (stats_of m pid) + length runs"
  by (induction runs rule: rev_induct)
     (simp_all add: record_runs_snoc stats_counters_update, simp_all add: record_runs_def)

lemma health_record_runs:
  "runs \<noteq> [] \<Longrightarrow>
   health (record_runs now pid runs m) pid
     = Some (health_of_stats now (stats_of (record_runs now pid runs m) pid))"
  by (cases runs rule: rev_cases) (simp_all add: record_runs_snoc health_update)

lemma new_manager_empty:
  "window_of (new_manager now store []) pid = []"
  "stats_of (new_manager now store []) pid = createEmptyStats"
  "health (new_manager now store []) pid = None"
  by (simp_all add: new_manager_def window_of_def stats_of_def)

text \<open>
  Claim C7, as the code has it. Recording a duration leaves the plugin's window equal to
  the last 100 of the old window followed by the new duration, so the oldest samples go
  first and the window never holds more than 100; over a sequence of recordings the window
  is the last 100 durations recorded. \<^verbatim>\<open>p95DurationMs\<close> is the element of the window
  sorted ascending at index \<open>ceil(0.95 n) - 1\<close>, clamped to \<open>[0, n - 1]\<close>: the maximum
  for fewer than 20 samples, and the 95th sample, 950, for the durations 10, 20, ..., 1000.
  \<^verbatim>\<open>avgDurationMs\<close> is not the arithmetic mean itself: it is the mean rounded to the
  nearest integer by \<^verbatim>\<open>Math.round\<close>.
\<close>

theorem telemetry_window:
  "durationWindows (updateStatsOnRun now pid d outcome err m) pid
     = Some (last_n 100 (window_of m pid @ [d]))
   \<and> length (last_n 100 (window_of m pid @ [d])) \<le> 100
   \<and> last_n 100 (window_of m pid @ [d]) \<noteq> []
   \<and> (runs \<noteq> [] \<longrightarrow>
        window_of (record_runs now pid runs m) pid = last_n 100 (window_of m pid @ map fst runs))
   \<and> stat_avgDurationMs (stats_of (updateStatsOnRun now pid d outcome err m) pid)
       = Math_round (mean (last_n 100 (window_of m pid @ [d])))
   \<and> stat_p95DurationMs (stats_of (updateStatsOnRun now pid d outcome err m) pid)
       = sort (last_n 100 (window_of m pid @ [d]))
           ! nat (max 0 (min (int (length (last_n 100 (window_of m pid @ [d]))) - 1)
                            (\<lceil>real (length (last_n 100 (window_of m pid @ [d]))) * 0.95\<rceil> - 1)))
   \<and> (length (last_n 100 (window_of m pid @ [d])) < 20 \<longrightarrow>
        stat_p95DurationMs (stats_of (updateStatsOnRun now pid d outcome err m) pid)
          = Max (set (last_n 100 (window_of m pid @ [d]))))
   \<and> (last_n 100 (window_of m pid @ [d]) = tens \<longrightarrow>
        stat_p95DurationMs (stats_of (updateStatsOnRun now pid d outcome err m) pid) = tens ! 94
        \<and> tens ! 94 = 950)"
proof -
  let ?win = "last_n 100 (window_of m pid @ [d])"
  let ?m' = "updateStatsOnRun now pid d outcome err m"
  have ne: "?win \<noteq> []" by (rule last_n_snoc_nonempty) simp
  obtain old where p: "stat_p95DurationMs (stats_of ?m' pid) = p95_duration ?win old"
    using stats_avg_p95_update(2)[of now pid d outcome err m] by (auto simp: next_window_last_n)
  have 1: "durationWindows ?m' pid = Some ?win"
    by (simp add: durationWindows_update next_window_last_n)
  have 2: "length ?win \<le> 100" by (simp add: last_n_length)
  have 4: "runs \<noteq> [] \<longrightarrow>
        window_of (record_runs now pid runs m) pid = last_n 100 (window_of m pid @ map fst runs)"
    by (simp add: window_of_record_runs)
  have 5: "stat_avgDurationMs (stats_of ?m' pid) = Math_round (mean ?win)"
    using avg_duration_mean[OF ne] by (simp add: stats_avg_p95_update(1) next_window_last_n)
  have 6: "stat_p95DurationMs (stats_of ?m' pid)
       = sort ?win ! nat (max 0 (min (int (length ?win) - 1) (\<lceil>real (length ?win) * 0.95\<rceil> - 1)))"
    unfolding p p95_duration_nth[OF ne] p95_index_def ..
  have 7: "length ?win < 20 \<longrightarrow> stat_p95DurationMs (stats_of ?m' pid) = Max (set ?win)"
    using p95_small_is_max[OF ne] p by simp
  have 8: "?win = tens \<longrightarrow> stat_p95DurationMs (stats_of ?m' pid) = tens ! 94 \<and> tens ! 94 = 950"
    using p p95_tens tens_nth by simp
  from 1 2 ne 4 5 6 7 8 show ?thesis by blast
qed

text \<open>
  The statement at a fresh manager with one sample (fewer than 20), and at a window of
  10, ..., 990 that receives 1000.
\<close>

theorem telemetry_window_witness:
  "stat_p95DurationMs (stats_of (updateStatsOnRun 0 ''p'' 7 RunSuccess None
      (new_manager 0 empty_store [])) ''p'') = 7
   \<and> window_of (record_runs 0 ''p'' [(7, RunSuccess)] (new_manager 0 empty_store [])) ''p'' = [7]
   \<and> stat_p95DurationMs (stats_of (updateStatsOnRun 0 ''p'' 1000 RunSuccess None
        ((new_manager 0 empty_store [])
           \<lparr>durationWindows := [''p'' \<mapsto> map (\<lambda>i. 10 * int i) [1..<100]]\<rparr>)) ''p'') = 950"
proof -
  let ?m0 = "new_manager 0 empty_store []"
  let ?m1 = "?m0\<lparr>durationWindows := [''p'' \<mapsto> map (\<lambda>i. 10 * int i) [1..<100]]\<rparr>"
  have w0: "last_n 100 (window_of ?m0 ''p'' @ [7]) = [7]"
    by (simp add: new_manager_empty last_n_def)
  have w1: "last_n 100 (window_of ?m1 ''p'' @ [1000]) = tens"
    using tens_snoc by (simp add: window_of_def)
  have a: "stat_p95DurationMs (stats_of (updateStatsOnRun 0 ''p'' 7 RunSuccess None ?m0) ''p'') = 7"
    using telemetry_window[of 0 "''p''" 7 RunSuccess None ?m0 "[(7, RunSuccess)]"] w0 by simp
  have b: "window_of (record_runs 0 ''p'' [(7, RunSuccess)] ?m0) ''p'' = [7]"
    using telemetry_window[of 0 "''p''" 7 RunSuccess None ?m0 "[(7, RunSuccess)]"] w0 by simp
  note t = telemetry_window[of 0 "''p''" 1000 RunSuccess None ?m1 "[(7, RunSuccess)]"]
  note t8 = t[THEN conjunct2, THEN conjunct2, THEN conjunct2, THEN conjunct2, THEN conjunct2,
              THEN conjunct2, THEN conjunct2, THEN mp, OF w1]
  have c: "stat_p95DurationMs (stats_of (updateStatsOnRun 0 ''p'' 1000 RunSuccess None ?m1) ''p'') = 950"
    using t8 by (simp only:)
  from a b c show ?thesis by blast
qed

text \<open>
  After the durations 1 and 2 the window is \<open>[1, 2]\<close> with mean \<open>3/2\<close>, and
  \<^verbatim>\<open>avgDurationMs\<close> is 2.
\<close>

theorem avg_duration_rounds_counterexample:
  "real_of_int (stat_avgDurationMs (stats_of
      (record_runs 0 ''p'' [(1, RunSuccess), (2, RunSuccess)] (new_manager 0 empty_store [])) ''p''))
   \<noteq> mean (window_of
      (record_runs 0 ''p'' [(1, RunSuccess), (2, RunSuccess)] (new_manager 0 empty_store [])) ''p'')
   \<and> window_of
      (record_runs 0 ''p'' [(1, RunSuccess), (2, RunSuccess)] (new_manager 0 empty_store [])) ''p''
       = [1, 2]
   \<and> stat_avgDurationMs (stats_of
      (record_runs 0 ''p'' [(1, RunSuccess), (2, RunSuccess)] (new_manager 0 empty_store [])) ''p'') = 2"
proof -
  let ?m = "record_runs 0 ''p'' [(1, RunSuccess), (2, RunSuccess)] (new_manager 0 empty_store [])"
  have w: "window_of ?m ''p'' = [1, 2]"
    by (simp add: window_of_record_runs new_manager_empty last_n_def)
  have "?m = updateStatsOnRun 0 ''p'' 2 RunSuccess None
               (record_runs 0 ''p'' [(1, RunSuccess)] (new_manager 0 empty_store []))"
    by (simp add: record_runs_def)
  then have "stat_avgDurationMs (stats_of ?m ''p'')
        = avg_duration (next_window (window_of
            (record_runs 0 ''p'' [(1, RunSuccess)] (new_manager 0 empty_store [])) ''p'') 2)"
    by (simp only: stats_avg_p95_update(1))
  also have "\<dots> = avg_duration [1, 2]"
    by (simp add: window_of_record_runs new_manager_empty last_n_def next_window_def)
  also have "\<dots> = 2"
    by (simp add: avg_duration_def Math_round_def)
  finally have a: "stat_avgDurationMs (stats_of ?m ''p'') = 2" .
  have "mean [1, 2] = 3 / 2" by (simp add: mean_def)
  with a w show ?thesis by simp
qed
section \<open>Health\<close>

lemma health_of_stats_status:
  "h_status (health_of_stats now s)
     = (if stat_errors s + stat_timeouts s \<ge> 3 \<and> stat_invocations s > 0 then Degraded else Healthy)"
  by (simp add: health_of_stats_def Let_def)

lemma updateHealthFromEnabled_off:
  "health (updateHealthFromEnabled now pid False m) pid
     = Some \<lparr> h_status = Disabled, h_reason = Some ''Plugin disabled'', h_updatedAt = now \<rparr>"
  by (simp add: updateHealthFromEnabled_def)

lemma updateHealthFromEnabled_on:
  "health (updateHealthFromEnabled now pid True m) pid
     = (case health m pid of
          None \<Rightarrow> Some \<lparr> h_status = Healthy, h_reason = None, h_updatedAt = now \<rparr>
        | Some existing \<Rightarrow>
            if h_status existing = Disabled
            then Some \<lparr> h_status = Healthy, h_reason = None, h_updatedAt = now \<rparr>
            else Some existing)"
  by (simp add: updateHealthFromEnabled_def split: option.splits)

lemma updateHealthFromEnabled_other:
  "pid' \<noteq> pid \<Longrightarrow> health (updateHealthFromEnabled now pid enabled m) pid' = health m pid'"
  by (simp add: updateHealthFromEnabled_def split: option.splits)

lemma updateHealthFromEnabled_frame:
  "definitions (updateHealthFromEnabled now pid enabled m) = definitions m"
  "stateStore (updateHealthFromEnabled now pid enabled m) = stateStore m"
  "warnedInvalidConfig (updateHealthFromEnabled now pid enabled m) = warnedInvalidConfig m"
  "stats (updateHealthFromEnabled now pid enabled m) = stats m"
  "durationWindows (updateHealthFromEnabled now pid enabled m) = durationWindows m"
  by (simp_all add: updateHealthFromEnabled_def split: option.splits)

lemma resolveConfig_frame:
  "definitions (snd (resolveConfig plugin c heal m)) = definitions m"
  "stats (snd (resolveConfig plugin c heal m)) = stats m"
  "health (snd (resolveConfig plugin c heal m)) = health m"
  "durationWindows (snd (resolveConfig plugin c heal m)) = durationWindows m"
  "st_enabled (stateStore (snd (resolveConfig plugin c heal m))) = st_enabled (stateStore m)"
  "st_grants (stateStore (snd (resolveConfig plugin c heal m))) = st_grants (stateStore m)"
  by (simp_all add: resolveConfig_def Let_def split: option.splits sum.splits)

lemma list_row_health:
  "info_health (fst (list_row now state plugin m))
     = (case health (updateHealthFromEnabled now (def_id plugin) (resolve_enabled state plugin) m)
               (def_id plugin) of
          Some h \<Rightarrow> h
        | None \<Rightarrow> createDefaultHealth now (resolve_enabled state plugin))"
  by (simp add: list_row_def Let_def case_prod_unfold updateHealthFromEnabled_def resolveConfig_frame
        split: option.splits)

lemma list_row_disabled:
  "\<not> resolve_enabled state plugin \<Longrightarrow>
   h_status (info_health (fst (list_row now state plugin m))) = Disabled"
  by (simp add: list_row_health updateHealthFromEnabled_off)

text \<open>
  Claim C8, as the code has it. A recorded invocation adds one to \<^verbatim>\<open>invocations\<close> and to
  the counter of its outcome; the counters are cumulative, kept since the stats record
  was created and never reset or restricted to the last 100 runs. After the recording the
  plugin's health is degraded exactly when the cumulative \<^verbatim>\<open>errors + timeouts\<close> is at
  least 3 (with \<^verbatim>\<open>invocations > 0\<close>, which then always holds) and healthy otherwise; the
  recorder never sets disabled. Disabled comes from the orchestrator: refreshing the
  health of a plugin that is off gives disabled whatever was recorded, and so does the
  row that \<^verbatim>\<open>list()\<close> returns for it.
\<close>

theorem health_after_record:
  "stat_invocations (stats_of (updateStatsOnRun now pid d outcome err m) pid)
     = stat_invocations (stats_of m pid) + 1
   \<and> stat_errors (stats_of (updateStatsOnRun now pid d outcome err m) pid)
       = stat_errors (stats_of m pid) + (if outcome = RunError then 1 else 0)
   \<and> stat_timeouts (stats_of (updateStatsOnRun now pid d outcome err m) pid)
       = stat_timeouts (stats_of m pid) + (if outcome = RunTimeout then 1 else 0)
   \<and> map_option h_status (health (updateStatsOnRun now pid d outcome err m) pid)
       = Some (if stat_errors (stats_of (updateStatsOnRun now pid d outcome err m) pid)
                  + stat_timeouts (stats_of (updateStatsOnRun now pid d outcome err m) pid) \<ge> 3
                \<and> stat_invocations (stats_of (updateStatsOnRun now pid d outcome err m) pid) > 0
               then Degraded else Healthy)
   \<and> map_option h_status (health (updateStatsOnRun now pid d outcome err m) pid) \<noteq> Some Disabled
   \<and> (runs \<noteq> [] \<longrightarrow>
        map_option h_status (health (record_runs now pid runs m) pid)
          = Some (if stat_errors (stats_of m pid) + length (filter (\<lambda>run. snd run = RunError) runs)
                     + (stat_timeouts (stats_of m pid) + length (filter (\<lambda>run. snd run = RunTimeout) runs))
                     \<ge> 3
                  then Degraded else Healthy))
   \<and> map_option h_status
        (health (updateHealthFromEnabled now' pid False (updateStatsOnRun now pid d outcome err m)) pid)
       = Some Disabled
   \<and> (\<not> resolve_enabled state plugin \<longrightarrow>
        h_status (info_health (fst (list_row now' state plugin
                    (updateStatsOnRun now (def_id plugin) d outcome err m)))) = Disabled)"
proof -
  have r: "runs \<noteq> [] \<longrightarrow>
        map_option h_status (health (record_runs now pid runs m) pid)
          = Some (if stat_errors (stats_of m pid) + length (filter (\<lambda>run. snd run = RunError) runs)
                     + (stat_timeouts (stats_of m pid) + length (filter (\<lambda>run. snd run = RunTimeout) runs))
                     \<ge> 3
                  then Degraded else Healthy)"
  proof
    assume ne: "runs \<noteq> []"
    then have "0 < stat_invocations (stats_of (record_runs now pid runs m) pid)"
      by (simp add: counters_record_runs)
    then show "map_option h_status (health (record_runs now pid runs m) pid)
          = Some (if stat_errors (stats_of m pid) + length (filter (\<lambda>run. snd run = RunError) runs)
                     + (stat_timeouts (stats_of m pid) + length (filter (\<lambda>run. snd run = RunTimeout) runs))
                     \<ge> 3
                  then Degraded else Healthy)"
      by (simp add: health_record_runs[OF ne] health_of_stats_status counters_record_runs)
  qed
  have h: "map_option h_status (health (updateStatsOnRun now pid d outcome err m) pid)
       = Some (if stat_errors (stats_of (updateStatsOnRun now pid d outcome err m) pid)
                  + stat_timeouts (stats_of (updateStatsOnRun now pid d outcome err m) pid) \<ge> 3
                \<and> stat_invocations (stats_of (updateStatsOnRun now pid d outcome err m) pid) > 0
               then Degraded else Healthy)"
    by (simp only: health_update option.map health_of_stats_status)
  have nd: "map_option h_status (health (updateStatsOnRun now pid d outcome err m) pid) \<noteq> Some Disabled"
    unfolding h by simp
  have off: "map_option h_status
        (health (updateHealthFromEnabled now' pid False (updateStatsOnRun now pid d outcome err m)) pid)
       = Some Disabled"
    by (simp add: updateHealthFromEnabled_off)
  have row: "\<not> resolve_enabled state plugin \<longrightarrow>
        h_status (info_health (fst (list_row now' state plugin
                    (updateStatsOnRun now (def_id plugin) d outcome err m)))) = Disabled"
    using list_row_disabled by blast
  note c = stats_counters_update[of now pid d outcome err m]
  from c(1) c(2) c(3) h nd r off row show ?thesis by blast
qed

text \<open>One recorded error on a fresh manager, and the row of a plugin that is switched off.\<close>

theorem health_after_record_witness:
  "map_option h_status (health (record_runs 0 ''p'' [(5, RunError)] (new_manager 0 empty_store [])) ''p'')
     = Some Healthy
   \<and> h_status (info_health (fst (list_row 1 (empty_store\<lparr>st_enabled := [''p'' \<mapsto> False]\<rparr>)
         (sample_plugin ''p'' 0 True [] (\<lambda>e c. \<lparr>run_settlement = Returned None, run_durationMs = 0\<rparr>))
         (updateStatsOnRun 0 ''p'' 5 RunError None (new_manager 0 empty_store []))))) = Disabled"
proof -
  let ?P = "sample_plugin ''p'' 0 True [] (\<lambda>e c. \<lparr>run_settlement = Returned None, run_durationMs = 0\<rparr>)"
  let ?st = "empty_store\<lparr>st_enabled := [''p'' \<mapsto> False]\<rparr>"
  have id: "def_id ?P = ''p''" by (simp add: sample_plugin_def)
  have off: "\<not> resolve_enabled ?st ?P"
    by (simp add: resolve_enabled_def sample_plugin_def)
  have ne: "[(5::int, RunError)] \<noteq> []" by simp
  note t = health_after_record[where now = 0 and pid = "''p''" and d = 5 and outcome = RunError
      and err = None and m = "new_manager 0 empty_store []" and runs = "[(5, RunError)]"
      and now' = 1 and state = ?st and plugin = ?P]
  from t off ne id show ?thesis
    by (simp add: new_manager_empty createEmptyStats_def)
qed

text \<open>
  Three failed runs followed by 100 successful ones: none of the last 100 recorded runs
  failed and the duration window holds only the 100 successful samples, yet the plugin is
  degraded.
\<close>

theorem degraded_outside_window_counterexample:
  "window_failures (replicate 3 (5, RunError) @ replicate 100 (1, RunSuccess)) = 0
   \<and> window_of (record_runs 0 ''p'' (replicate 3 (5, RunError) @ replicate 100 (1, RunSuccess))
        (new_manager 0 empty_store [])) ''p'' = replicate 100 1
   \<and> map_option h_status
        (health (record_runs 0 ''p'' (replicate 3 (5, RunError) @ replicate 100 (1, RunSuccess))
           (new_manager 0 empty_store [])) ''p'') = Some Degraded"
proof -
  let ?runs = "replicate 3 (5::int, RunError) @ replicate 100 (1, RunSuccess)"
  let ?m = "record_runs 0 ''p'' ?runs (new_manager 0 empty_store [])"
  have ne: "?runs \<noteq> []" by simp
  have a: "window_failures ?runs = 0"
    by (simp add: window_failures_def last_n_def failed_def)
  have b: "window_of ?m ''p'' = replicate 100 1"
    by (simp add: window_of_record_runs new_manager_empty last_n_def map_replicate_const)
  have e: "stat_errors (stats_of ?m ''p'') = 3"
    by (simp add: counters_record_runs new_manager_empty createEmptyStats_def)
  have i: "stat_invocations (stats_of ?m ''p'') = 103"
    by (simp add: counters_record_runs new_manager_empty createEmptyStats_def)
  have c: "map_option h_status (health ?m ''p'') = Some Degraded"
    by (simp add: health_record_runs[OF ne] health_of_stats_status e i)
  from a b c show ?thesis by blast
qed

section \<open>Administrative updates\<close>

lemma updateConfig_rejected:
  assumes "map_get (definitions m) pid = Some plugin"
    and "def_validateConfig plugin = Some validateConfig"
    and "validateConfig rawConfig = Inl err"
  shows "updateConfig now pid rawConfig m
     = (Inl (PluginConfigValidationError pid
               (''Invalid config for plugin '' @ pid @ '': '' @ thrown_message err)), m)"
  using assms by (simp add: updateConfig_def)

text \<open>
  Claim C6. When the validator of a registered plugin rejects the value, \<^verbatim>\<open>updateConfig\<close>
  throws a \<^verbatim>\<open>PluginConfigValidationError\<close> whose \<^verbatim>\<open>pluginId\<close> is the plugin's id and
  whose message carries the validator's, and the manager is left as it was: the store is
  not updated, so the persisted config of the plugin is unchanged.
\<close>

theorem updateConfig_rejects_invalid:
  assumes "map_get (definitions m) pid = Some plugin"
    and "def_validateConfig plugin = Some validateConfig"
    and "validateConfig rawConfig = Inl err"
  shows "(\<exists>e. fst (updateConfig now pid rawConfig m) = Inl e
              \<and> err_pluginId e = pid
              \<and> err_message e = ''Invalid config for plugin '' @ pid @ '': '' @ thrown_message err)
         \<and> snd (updateConfig now pid rawConfig m) = m
         \<and> st_config (stateStore (snd (updateConfig now pid rawConfig m))) pid
             = st_config (stateStore m) pid"
  using updateConfig_rejected[OF assms] by simp

text \<open>
  A plugin whose validator rejects \<^verbatim>\<open>null\<close>, with a persisted config of 1: the update
  to \<^verbatim>\<open>null\<close> throws and the persisted config is still 1.
\<close>

theorem updateConfig_rejects_invalid_witness:
  "fst (updateConfig 0 ''p'' VNull
         (new_manager 0 (empty_store\<lparr>st_config := [''p'' \<mapsto> VNum 1]\<rparr>)
            [(sample_plugin ''p'' 0 True [] (\<lambda>e c. \<lparr>run_settlement = Returned None, run_durationMs = 0\<rparr>))
               \<lparr>def_validateConfig :=
                  Some (\<lambda>v. if v = VNull then Inl (ThrownError ''bad'') else Inr v)\<rparr>]))
     = Inl (PluginConfigValidationError ''p'' ''Invalid config for plugin p: bad'')
   \<and> st_config (stateStore (snd (updateConfig 0 ''p'' VNull
         (new_manager 0 (empty_store\<lparr>st_config := [''p'' \<mapsto> VNum 1]\<rparr>)
            [(sample_plugin ''p'' 0 True [] (\<lambda>e c. \<lparr>run_settlement = Returned None, run_durationMs = 0\<rparr>))
               \<lparr>def_validateConfig :=
                  Some (\<lambda>v. if v = VNull then Inl (ThrownError ''bad'') else Inr v)\<rparr>])))) ''p''
     = Some (VNum 1)"
proof -
  let ?v = "\<lambda>v. if v = VNull then Inl (ThrownError ''bad'') else Inr v"
  let ?P = "(sample_plugin ''p'' 0 True [] (\<lambda>e c. \<lparr>run_settlement = Returned None, run_durationMs = 0\<rparr>))
               \<lparr>def_validateConfig := Some ?v\<rparr>"
  let ?m = "new_manager 0 (empty_store\<lparr>st_config := [''p'' \<mapsto> VNum 1]\<rparr>) [?P]"
  have g: "map_get (definitions ?m) ''p'' = Some ?P"
    by (simp add: new_manager_def register_def map_get_def sample_plugin_def Let_def)
  have v: "def_validateConfig ?P = Some ?v" by simp
  have r: "?v VNull = Inl (ThrownError ''bad'')" by simp
  have s: "st_config (stateStore ?m) ''p'' = Some (VNum 1)"
    by (simp add: new_manager_def register_def empty_store_def Let_def)
  from updateConfig_rejects_invalid[OF g v r, of 0]
  obtain e where e: "fst (updateConfig 0 ''p'' VNull ?m) = Inl e" "err_pluginId e = ''p''"
      "err_message e = ''Invalid config for plugin p: bad''"
    and u: "st_config (stateStore (snd (updateConfig 0 ''p'' VNull ?m))) ''p''
              = st_config (stateStore ?m) ''p''"
    by auto
  from e have "fst (updateConfig 0 ''p'' VNull ?m)
                 = Inl (PluginConfigValidationError ''p'' ''Invalid config for plugin p: bad'')"
    by (cases e) simp
  with u s show ?thesis by simp
qed

section \<open>Properties of the dispatch loop\<close>

lemma resolveConfig_fst: "fst (resolveConfig plugin c heal m) = resolved_config plugin c"
  by (simp add: resolveConfig_def resolved_config_def Let_def split: option.splits sum.splits)

lemma executePlugin_snd: "snd (executePlugin now plugin ev c m) = snd (resolveConfig plugin c True m)"
  by (simp add: executePlugin_def Let_def)

lemma resolveCapabilityGrants_cong:
  "st_grants st = st_grants st' \<Longrightarrow> resolveCapabilityGrants plugin st = resolveCapabilityGrants plugin st'"
  by (simp add: resolveCapabilityGrants_def)

lemma executePlugin_fst:
  "fst (executePlugin now plugin ev c m)
     = finish_run now plugin (resolveCapabilityGrants plugin (stateStore m)) (timeout_of plugin)
         (def_onEvent plugin ev (resolved_config plugin c))"
  by (simp add: executePlugin_def Let_def resolveConfig_fst timeout_of_def
        resolveCapabilityGrants_cong[OF resolveConfig_frame(6)])

lemma apply_result_fields:
  "es_manager (apply_result r s) = es_manager s"
  "es_detached (apply_result r s) = es_detached s"
  "es_invoked (apply_result r s) = es_invoked s"
  "es_aborted (apply_result r s) = es_aborted s"
  "es_insights (apply_result r s)
     = es_insights s @ (case res_insights r of None \<Rightarrow> [] | Some xs \<Rightarrow> xs)"
  "es_permissionDecision (apply_result r s)
     = (if es_permissionDecision s = None then res_permissionDecision r else es_permissionDecision s)"
  "es_userMessageMutation (apply_result r s)
     = (case res_userMessageMutation r of
          None \<Rightarrow> es_userMessageMutation s
        | Some mu \<Rightarrow> Some (merge_mutation (es_userMessageMutation s) mu))"
  "es_mutableEvent (apply_result r s)
     = (case res_userMessageMutation r of
          None \<Rightarrow> patch_event r (es_mutableEvent s)
        | Some mu \<Rightarrow> mutate_event mu (patch_event r (es_mutableEvent s)))"
  by (auto simp: apply_result_def Let_def split: option.splits)

lemma on_blocking_failure_fields:
  "es_detached (fst (on_blocking_failure now event plugin exec s)) = es_detached s"
  "es_invoked (fst (on_blocking_failure now event plugin exec s)) = es_invoked s"
  "es_aborted (fst (on_blocking_failure now event plugin exec s))
     = (es_aborted s \<or> policy_of plugin = AbortCurrentAction)"
  "snd (on_blocking_failure now event plugin exec s) = (policy_of plugin = AbortCurrentAction)"
  "es_insights (fst (on_blocking_failure now event plugin exec s))
     = es_insights s @ [toPluginErrorInsight now (def_id plugin) event (the (ex_error exec))]"
  "es_permissionDecision (fst (on_blocking_failure now event plugin exec s)) = es_permissionDecision s"
  "es_userMessageMutation (fst (on_blocking_failure now event plugin exec s)) = es_userMessageMutation s"
  "es_mutableEvent (fst (on_blocking_failure now event plugin exec s)) = es_mutableEvent s"
  by (simp_all add: on_blocking_failure_def Let_def policy_of_def)

lemma on_blocking_success_fields:
  "es_detached (fst (on_blocking_success now plugin exec s)) = es_detached s"
  "es_invoked (fst (on_blocking_success now plugin exec s)) = es_invoked s"
  "es_aborted (fst (on_blocking_success now plugin exec s)) = es_aborted s"
  "snd (on_blocking_success now plugin exec s) = False"
  "es_insights (fst (on_blocking_success now plugin exec s))
     = es_insights s @ exec_insights exec"
  "es_permissionDecision (fst (on_blocking_success now plugin exec s))
     = (if es_permissionDecision s = None
        then (case ex_result exec of None \<Rightarrow> None | Some r \<Rightarrow> res_permissionDecision r)
        else es_permissionDecision s)"
  "es_userMessageMutation (fst (on_blocking_success now plugin exec s))
     = (case ex_result exec of
          None \<Rightarrow> es_userMessageMutation s
        | Some r \<Rightarrow>
            (case res_userMessageMutation r of
               None \<Rightarrow> es_userMessageMutation s
             | Some mu \<Rightarrow> Some (merge_mutation (es_userMessageMutation s) mu)))"
  "es_mutableEvent (fst (on_blocking_success now plugin exec s))
     = (case ex_result exec of
          None \<Rightarrow> es_mutableEvent s
        | Some r \<Rightarrow>
            (case res_userMessageMutation r of
               None \<Rightarrow> patch_event r (es_mutableEvent s)
             | Some mu \<Rightarrow> mutate_event mu (patch_event r (es_mutableEvent s))))"
  by (simp_all add: on_blocking_success_def Let_def apply_result_fields exec_insights_def
        split: option.splits)

lemma emit_step_disabled:
  "\<not> resolve_enabled state plugin \<Longrightarrow>
   emit_step now event state plugin s
     = (s\<lparr>es_manager := updateHealthFromEnabled now (def_id plugin) False (es_manager s)\<rparr>, False)"
  by (simp add: emit_step_def)

lemma emit_step_nonblocking:
  "resolve_enabled state plugin \<Longrightarrow> \<not> def_blocking plugin \<Longrightarrow>
   emit_step now event state plugin s
     = (s\<lparr> es_manager := step_manager now state plugin (es_manager s),
            es_invoked := es_invoked s @ [\<lparr> inv_plugin = plugin, inv_event = es_mutableEvent s \<rparr>],
            es_detached := es_detached s
               @ [\<lparr> det_pluginId = def_id plugin, det_exec = step_exec now state plugin s \<rparr>] \<rparr>, False)"
  by (simp add: emit_step_def Let_def executePlugin_snd executePlugin_fst step_manager_def
        step_exec_def updateHealthFromEnabled_frame)

lemma emit_step_blocking:
  "resolve_enabled state plugin \<Longrightarrow> def_blocking plugin \<Longrightarrow>
   emit_step now event state plugin s
     = (if has_error (step_exec now state plugin s)
        then on_blocking_failure now event plugin (step_exec now state plugin s)
               (s\<lparr> es_manager := step_manager now state plugin (es_manager s),
                   es_invoked := es_invoked s @ [\<lparr> inv_plugin = plugin, inv_event = es_mutableEvent s \<rparr>] \<rparr>)
        else on_blocking_success now plugin (step_exec now state plugin s)
               (s\<lparr> es_manager := step_manager now state plugin (es_manager s),
                   es_invoked := es_invoked s @ [\<lparr> inv_plugin = plugin, inv_event = es_mutableEvent s \<rparr>] \<rparr>))"
  by (simp add: emit_step_def Let_def executePlugin_snd executePlugin_fst step_manager_def
        step_exec_def updateHealthFromEnabled_frame)

lemma emit_step_invoked:
  "es_invoked (fst (emit_step now event state plugin s))
     = es_invoked s @ (if resolve_enabled state plugin
                       then [\<lparr> inv_plugin = plugin, inv_event = es_mutableEvent s \<rparr>] else [])"
  by (cases "resolve_enabled state plugin"; cases "def_blocking plugin")
     (simp_all add: emit_step_disabled emit_step_nonblocking emit_step_blocking
        on_blocking_failure_fields on_blocking_success_fields)

lemma emit_step_aborted:
  "es_aborted (fst (emit_step now event state plugin s))
     = (es_aborted s \<or> snd (emit_step now event state plugin s))"
  by (cases "resolve_enabled state plugin"; cases "def_blocking plugin")
     (simp_all add: emit_step_disabled emit_step_nonblocking emit_step_blocking
        on_blocking_failure_fields on_blocking_success_fields)

lemma emit_loop_trace:
  "\<exists>tr. map inv_plugin (es_invoked (emit_loop now event state cs s))
           = map inv_plugin (es_invoked s) @ tr
        \<and> prefix tr (filter (resolve_enabled state) cs)
        \<and> (es_aborted (emit_loop now event state cs s) \<or> tr = filter (resolve_enabled state) cs)"
proof (induction cs arbitrary: s)
  case Nil
  show ?case by simp
next
  case (Cons p cs)
  obtain s1 stop where st: "emit_step now event state p s = (s1, stop)"
    by (cases "emit_step now event state p s")
  have inv1: "map inv_plugin (es_invoked s1)
      = map inv_plugin (es_invoked s) @ (if resolve_enabled state p then [p] else [])"
    using emit_step_invoked[of now event state p s] st by simp
  have ab1: "es_aborted s1 = (es_aborted s \<or> stop)"
    using emit_step_aborted[of now event state p s] st by simp
  show ?case
  proof (cases stop)
    case True
    then have "emit_loop now event state (p # cs) s = s1" using st by simp
    moreover have "es_aborted s1" using ab1 True by simp
    ultimately show ?thesis using inv1
      by (intro exI[of _ "if resolve_enabled state p then [p] else []"]) simp
  next
    case False
    then have eq: "emit_loop now event state (p # cs) s = emit_loop now event state cs s1"
      using st by simp
    from Cons.IH[of s1] obtain tr where
      tr: "map inv_plugin (es_invoked (emit_loop now event state cs s1))
             = map inv_plugin (es_invoked s1) @ tr"
          "prefix tr (filter (resolve_enabled state) cs)"
          "es_aborted (emit_loop now event state cs s1) \<or> tr = filter (resolve_enabled state) cs"
      by blast
    show ?thesis
      unfolding eq
      by (rule exI[of _ "(if resolve_enabled state p then [p] else []) @ tr"])
         (use tr inv1 in auto)
  qed
qed

lemma candidates_sorted:
  "sorted_wrt (\<lambda>a b. def_priority a \<ge> def_priority b) (candidates m event)"
proof -
  have "sorted (map (\<lambda>p. - def_priority p) (candidates m event))"
    unfolding candidates_def by (rule sorted_sort_key)
  then show ?thesis by (simp add: sorted_map)
qed

lemma candidates_stable:
  "filter (\<lambda>p. def_priority p = k) (candidates m event)
     = filter (\<lambda>p. def_priority p = k) (filter (subscribed event) (map_values (definitions m)))"
  using sort_key_stable[of "\<lambda>p. - def_priority p" "- k"
          "filter (subscribed event) (map_values (definitions m))"]
  by (simp add: candidates_def)

lemma candidates_subscribed: "p \<in> set (candidates m event) \<Longrightarrow> subscribed event p"
  by (simp add: candidates_def)

lemma invoked_prefix:
  "prefix (invoked_plugins now event m) (filter (resolve_enabled (stateStore m)) (candidates m event))"
  "er_aborted (emit now event m)
     \<or> invoked_plugins now event m = filter (resolve_enabled (stateStore m)) (candidates m event)"
  using emit_loop_trace[of now event "stateStore m" "candidates m event" "emit_init m event"]
  by (auto simp: invoked_plugins_def emit_run_def emit_def emit_init_def Let_def)

lemma register_order:
  "map fst (map_set k v kvs) = (if k \<in> set (map fst kvs) then map fst kvs else map fst kvs @ [k])"
proof (induction kvs)
  case Nil
  show ?case by simp
next
  case (Cons kv kvs)
  obtain k' v' where kv: "kv = (k', v')" by (cases kv)
  show ?case using Cons by (auto simp: kv)
qed

lemma stateStore_register: "stateStore (register now plugin m) = stateStore m"
  by (simp add: register_def Let_def)

lemma stateStore_new_manager_aux:
  "stateStore (foldl (\<lambda>m plugin. register now plugin m) m ps) = stateStore m"
  by (induction ps arbitrary: m) (simp_all add: stateStore_register)

lemma stateStore_new_manager: "stateStore (new_manager now store ps) = store"
  by (simp add: new_manager_def stateStore_new_manager_aux)

lemma map_set_fresh: "k \<notin> set (map fst kvs) \<Longrightarrow> map_set k v kvs = kvs @ [(k, v)]"
proof (induction kvs)
  case Nil
  show ?case by simp
next
  case (Cons kv kvs)
  obtain k' v' where kv: "kv = (k', v')" by (cases kv)
  show ?case using Cons by (auto simp: kv)
qed

lemma definitions_register_fresh:
  "def_id plugin \<notin> set (map fst (definitions m)) \<Longrightarrow>
   definitions (register now plugin m) = definitions m @ [(def_id plugin, plugin)]"
  by (simp add: register_def Let_def map_set_fresh)

lemma definitions_fold_register:
  "distinct (map def_id ps) \<Longrightarrow> set (map def_id ps) \<inter> set (map fst (definitions m)) = {} \<Longrightarrow>
   definitions (foldl (\<lambda>m plugin. register now plugin m) m ps)
     = definitions m @ map (\<lambda>p. (def_id p, p)) ps"
proof (induction ps arbitrary: m)
  case Nil
  show ?case by simp
next
  case (Cons p ps)
  have fresh: "def_id p \<notin> set (map fst (definitions m))" using Cons.prems(2) by auto
  have d1: "definitions (register now p m) = definitions m @ [(def_id p, p)]"
    using fresh by (rule definitions_register_fresh)
  have "set (map def_id ps) \<inter> set (map fst (definitions (register now p m))) = {}"
    using Cons.prems unfolding d1 by auto
  moreover have "distinct (map def_id ps)" using Cons.prems(1) by simp
  ultimately have "definitions (foldl (\<lambda>m plugin. register now plugin m) (register now p m) ps)
      = definitions (register now p m) @ map (\<lambda>p. (def_id p, p)) ps"
    by (rule Cons.IH[rotated])
  then show ?case unfolding d1 by simp
qed

lemma new_manager_registry:
  "distinct (map def_id ps) \<Longrightarrow> map snd (definitions (new_manager now store ps)) = ps"
  unfolding new_manager_def
  by (subst definitions_fold_register) (simp_all add: comp_def)

lemma eligible_iff: "eligible state event p = (resolve_enabled state p \<and> subscribed event p)"
  by (auto simp: eligible_def resolve_enabled_def subscribed_def)

lemma dispatch_plan_candidates:
  "dispatch_plan m event = filter (resolve_enabled (stateStore m)) (candidates m event)"
proof -
  have "eligible (stateStore m) event
      = (\<lambda>p. subscribed event p \<and> resolve_enabled (stateStore m) p)"
    by (rule ext) (auto simp: eligible_iff)
  then have "filter (eligible (stateStore m) event) (map snd (definitions m))
      = filter (resolve_enabled (stateStore m)) (filter (subscribed event) (map_values (definitions m)))"
    by (simp add: map_values_def)
  then show ?thesis by (simp add: dispatch_plan_def candidates_def filter_sort)
qed

lemma emit_step_stop:
  "snd (emit_step now event state plugin s) \<Longrightarrow> policy_of plugin = AbortCurrentAction"
  by (cases "resolve_enabled state plugin"; cases "def_blocking plugin";
      cases "has_error (step_exec now state plugin s)")
     (simp_all add: emit_step_disabled emit_step_nonblocking emit_step_blocking
        on_blocking_failure_fields on_blocking_success_fields)

lemma emit_loop_no_abort:
  "\<forall>p\<in>set cs. policy_of p = Continue \<Longrightarrow>
   es_aborted (emit_loop now event state cs s) = es_aborted s"
proof (induction cs arbitrary: s)
  case Nil
  show ?case by simp
next
  case (Cons p cs)
  obtain s1 stop where st: "emit_step now event state p s = (s1, stop)"
    by (cases "emit_step now event state p s")
  have ns: "\<not> stop" using emit_step_stop[of now event state p s] st Cons.prems by auto
  then have a1: "es_aborted s1 = es_aborted s"
    using emit_step_aborted[of now event state p s] st by simp
  have eq: "emit_loop now event state (p # cs) s = emit_loop now event state cs s1"
    using st ns by simp
  have "\<forall>p\<in>set cs. policy_of p = Continue" using Cons.prems by simp
  then have "es_aborted (emit_loop now event state cs s1) = es_aborted s1" by (rule Cons.IH)
  then show ?case unfolding eq a1 .
qed

lemma emit_no_abort:
  "\<forall>p\<in>set (map snd (definitions m)). policy_of p = Continue \<Longrightarrow> \<not> er_aborted (emit now event m)"
proof -
  assume a: "\<forall>p\<in>set (map snd (definitions m)). policy_of p = Continue"
  have "\<forall>p\<in>set (candidates m event). policy_of p = Continue"
    using a by (auto simp: candidates_def map_values_def)
  then show ?thesis
    by (simp add: emit_def emit_run_def Let_def emit_loop_no_abort emit_init_def)
qed

text \<open>
  Claim C1. The registry keeps registration order: registering keeps the ids already
  there in place and puts a new id last, so plugins with distinct ids registered into a
  new manager are listed in the order given. The order a dispatch is to follow is fixed
  from the registry alone: the registered plugins that are on and subscribed by the
  event name or the wildcard, stably sorted by descending priority. The handlers a
  dispatch calls are, in call order, an initial part of that list, and the whole list
  unless the dispatch aborted; the enabled check of the loop applied to the candidates
  of \<^verbatim>\<open>emit\<close> gives the same list. So, unless the dispatch aborted, exactly the registered
  plugins that are on and subscribed are called; the priorities of the blocking plugins
  called never increase along the calls; and the blocking plugins called of any one
  priority \<open>k\<close> are those of the registry that are on and subscribed, in registry order
  (an initial part of them when the dispatch aborted).
\<close>

theorem dispatch_order:
  "map fst (definitions (register now0 plugin m))
     = (if def_id plugin \<in> set (map fst (definitions m))
        then map fst (definitions m) else map fst (definitions m) @ [def_id plugin])
   \<and> (distinct (map def_id ps) \<longrightarrow> map snd (definitions (new_manager now0 store ps)) = ps)
   \<and> prefix (invoked_plugins now event m) (dispatch_plan m event)
   \<and> (er_aborted (emit now event m) \<or> invoked_plugins now event m = dispatch_plan m event)
   \<and> dispatch_plan m event = filter (resolve_enabled (stateStore m)) (candidates m event)
   \<and> (er_aborted (emit now event m)
        \<or> set (invoked_plugins now event m)
            = {p \<in> set (map snd (definitions m)). eligible (stateStore m) event p})
   \<and> sorted_wrt (\<lambda>a b. def_priority a \<ge> def_priority b)
        (filter def_blocking (invoked_plugins now event m))
   \<and> list_all (\<lambda>p. resolve_enabled (stateStore m) p \<and> subscribed event p)
        (invoked_plugins now event m)
   \<and> prefix (filter (\<lambda>p. def_priority p = k) (filter def_blocking (invoked_plugins now event m)))
        (filter (\<lambda>p. def_priority p = k)
           (filter def_blocking
              (filter (eligible (stateStore m) event) (map snd (definitions m)))))
   \<and> (er_aborted (emit now event m)
        \<or> filter (\<lambda>p. def_priority p = k) (filter def_blocking (invoked_plugins now event m))
            = filter (\<lambda>p. def_priority p = k)
                (filter def_blocking
                   (filter (eligible (stateStore m) event) (map snd (definitions m)))))"
proof -
  let ?inv = "invoked_plugins now event m"
  let ?en = "resolve_enabled (stateStore m)"
  let ?el = "eligible (stateStore m) event"
  let ?reg = "map snd (definitions m)"
  have reg: "map fst (definitions (register now0 plugin m))
     = (if def_id plugin \<in> set (map fst (definitions m))
        then map fst (definitions m) else map fst (definitions m) @ [def_id plugin])"
    using register_order[of "def_id plugin" plugin "definitions m"]
    by (simp add: register_def Let_def)
  have new: "distinct (map def_id ps) \<longrightarrow> map snd (definitions (new_manager now0 store ps)) = ps"
    by (simp add: new_manager_registry)
  have plan: "dispatch_plan m event = filter ?en (candidates m event)"
    by (rule dispatch_plan_candidates)
  have pre: "prefix ?inv (dispatch_plan m event)" unfolding plan by (rule invoked_prefix(1))
  have full: "er_aborted (emit now event m) \<or> ?inv = dispatch_plan m event"
    unfolding plan by (rule invoked_prefix(2))
  have plan_set: "set (dispatch_plan m event) = {p \<in> set ?reg. ?el p}"
    by (auto simp: dispatch_plan_def)
  have sets: "er_aborted (emit now event m) \<or> set ?inv = {p \<in> set ?reg. ?el p}"
  proof (cases "er_aborted (emit now event m)")
    case True
    then show ?thesis by simp
  next
    case False
    then have "?inv = dispatch_plan m event" using full by simp
    then show ?thesis unfolding plan_set[symmetric] by simp
  qed
  obtain rest where rest: "dispatch_plan m event = ?inv @ rest"
    using pre by (auto simp: prefix_def)
  have "sorted (map (\<lambda>p. - def_priority p) (dispatch_plan m event))"
    unfolding dispatch_plan_def by (rule sorted_sort_key)
  then have "sorted_wrt (\<lambda>a b. def_priority a \<ge> def_priority b) (dispatch_plan m event)"
    by (simp add: sorted_map)
  then have "sorted_wrt (\<lambda>a b. def_priority a \<ge> def_priority b) ?inv"
    unfolding rest by (simp add: sorted_wrt_append)
  then have srt: "sorted_wrt (\<lambda>a b. def_priority a \<ge> def_priority b) (filter def_blocking ?inv)"
    by (rule sorted_wrt_filter)
  have "set ?inv \<subseteq> set (dispatch_plan m event)" unfolding rest by simp
  then have elig: "list_all (\<lambda>p. ?en p \<and> subscribed event p) ?inv"
    unfolding plan_set by (auto simp: list_all_iff eligible_iff)
  have swap: "filter (\<lambda>p. def_priority p = k) (filter def_blocking xs)
      = filter def_blocking (filter (\<lambda>p. def_priority p = k) xs)"
    for xs :: "plugin_definition list"
    by (induction xs) simp_all
  have ties: "filter (\<lambda>p. def_priority p = k) (dispatch_plan m event)
      = filter (\<lambda>p. def_priority p = k) (filter ?el ?reg)"
    using sort_key_stable[of "\<lambda>p. - def_priority p" "- k" "filter ?el ?reg"]
    by (simp add: dispatch_plan_def)
  have stable: "filter (\<lambda>p. def_priority p = k) (filter def_blocking (dispatch_plan m event))
      = filter (\<lambda>p. def_priority p = k) (filter def_blocking (filter ?el ?reg))"
    unfolding swap ties ..
  have "prefix (filter (\<lambda>p. def_priority p = k) (filter def_blocking ?inv))
          (filter (\<lambda>p. def_priority p = k) (filter def_blocking (dispatch_plan m event)))"
    using pre by (intro filter_mono_prefix)
  then have tie: "prefix (filter (\<lambda>p. def_priority p = k) (filter def_blocking ?inv))
        (filter (\<lambda>p. def_priority p = k) (filter def_blocking (filter ?el ?reg)))"
    unfolding stable .
  have tie_full: "er_aborted (emit now event m)
        \<or> filter (\<lambda>p. def_priority p = k) (filter def_blocking ?inv)
            = filter (\<lambda>p. def_priority p = k) (filter def_blocking (filter ?el ?reg))"
    using full stable by auto
  from reg new pre full plan sets srt elig tie tie_full show ?thesis by blast
qed

text \<open>
  Five plugins registered as a, b, c, d, e, with d switched off and e subscribed to
  another event: the dispatch of \<^verbatim>\<open>user.message.before_send\<close> does not abort and calls b
  (priority 50), then a and c (both priority 10) in the order they were registered.
\<close>

theorem dispatch_order_witness:
  "map def_id (map snd (definitions order_scenario)) = [''a'', ''b'', ''c'', ''d'', ''e'']
   \<and> \<not> er_aborted (emit 0 hello_event order_scenario)
   \<and> map def_id (invoked_plugins 0 hello_event order_scenario) = [''b'', ''a'', ''c'']
   \<and> map def_priority (invoked_plugins 0 hello_event order_scenario) = [50, 10, 10]"
proof -
  define ps where "ps = [idle_plugin ''a'' 10 [''*''],
        idle_plugin ''b'' 50 [''user.message.before_send''],
        idle_plugin ''c'' 10 [''*''],
        idle_plugin ''d'' 70 [''*''],
        idle_plugin ''e'' 90 [''tool.finished'']]"
  define st where "st = empty_store\<lparr>st_enabled := [''d'' \<mapsto> False]\<rparr>"
  have sc: "order_scenario = new_manager 0 st ps"
    by (simp add: order_scenario_def st_def ps_def)
  have ids: "map def_id ps = [''a'', ''b'', ''c'', ''d'', ''e'']"
    by (simp add: ps_def idle_plugin_def sample_plugin_def)
  note t = dispatch_order[where m = order_scenario and ps = ps and store = st and now0 = 0
             and now = 0 and event = hello_event]
  have "distinct (map def_id ps)" unfolding ids by simp
  then have reg: "map snd (definitions order_scenario) = ps"
    using t unfolding sc by blast
  have store: "stateStore order_scenario = st" unfolding sc by (rule stateStore_new_manager)
  have "\<forall>p\<in>set (map snd (definitions order_scenario)). policy_of p = Continue"
    unfolding reg by (simp add: ps_def idle_plugin_def sample_plugin_def policy_of_def)
  then have na: "\<not> er_aborted (emit 0 hello_event order_scenario)" by (rule emit_no_abort)
  have inv: "invoked_plugins 0 hello_event order_scenario = dispatch_plan order_scenario hello_event"
    using t na by blast
  have plan: "dispatch_plan order_scenario hello_event
      = [idle_plugin ''b'' 50 [''user.message.before_send''],
         idle_plugin ''a'' 10 [''*''], idle_plugin ''c'' 10 [''*'']]"
    unfolding dispatch_plan_def reg store
    by (simp add: ps_def st_def eligible_def idle_plugin_def sample_plugin_def empty_store_def
          hello_event_def sample_event_def)
  show ?thesis
    unfolding inv plan reg ids
    using na ids by (simp add: idle_plugin_def sample_plugin_def)
qed

lemma step_manager_frame:
  "st_grants (stateStore (step_manager now state plugin m)) = st_grants (stateStore m)"
  "st_enabled (stateStore (step_manager now state plugin m)) = st_enabled (stateStore m)"
  "definitions (step_manager now state plugin m) = definitions m"
  by (simp_all add: step_manager_def resolveConfig_frame updateHealthFromEnabled_frame)

lemma guard_scenario_candidates:
  "candidates (new_manager 0 empty_store [rejecting_guard, later_plugin]) (sample_event ''session.created'' None)
     = [rejecting_guard, later_plugin]"
  by (simp add: candidates_def new_manager_def register_def map_values_def Let_def subscribed_def
        rejecting_guard_def later_plugin_def sample_plugin_def)

lemma emit_step_grants:
  "st_grants (stateStore (es_manager (fst (emit_step now event state plugin s))))
     = st_grants (stateStore (es_manager s))"
  by (cases "resolve_enabled state plugin"; cases "def_blocking plugin")
     (simp_all add: emit_step_disabled emit_step_nonblocking emit_step_blocking
        on_blocking_failure_def on_blocking_success_def Let_def apply_result_fields
        update_frame step_manager_frame updateHealthFromEnabled_frame split: option.splits)

lemma granted_default:
  "st_grants st (def_id plugin) = None \<Longrightarrow>
   granted (resolveCapabilityGrants plugin st) cap = (cap \<in> set (getRequestedCapabilities plugin))"
  by (simp add: granted_def resolveCapabilityGrants_apply persisted_grant_def)

lemma step_exec_returned:
  assumes "run_settlement (def_onEvent plugin (es_mutableEvent s)
             (resolved_config plugin (st_config state (def_id plugin)))) = Returned (Some raw)"
  shows "\<not> has_error (step_exec now state plugin s)"
    and "ex_result (step_exec now state plugin s)
           = Some (fst (sanitizeResultForCapabilities now plugin raw
                     (resolveCapabilityGrants plugin (stateStore (es_manager s)))))"
  using assms by (simp_all add: step_exec_def finish_run_def has_error_def Let_def)

lemma emit_step_success:
  assumes "resolve_enabled state plugin" "def_blocking plugin"
    and "\<not> has_error (step_exec now state plugin s)"
    and "ex_result (step_exec now state plugin s) = Some r"
  shows "snd (emit_step now event state plugin s) = False"
    and "es_userMessageMutation (fst (emit_step now event state plugin s))
           = (case res_userMessageMutation r of
                None \<Rightarrow> es_userMessageMutation s
              | Some mu \<Rightarrow> Some (merge_mutation (es_userMessageMutation s) mu))"
    and "es_mutableEvent (fst (emit_step now event state plugin s))
           = (case res_userMessageMutation r of
                None \<Rightarrow> patch_event r (es_mutableEvent s)
              | Some mu \<Rightarrow> mutate_event mu (patch_event r (es_mutableEvent s)))"
  using assms by (simp_all add: emit_step_blocking on_blocking_success_fields split: option.splits)

lemma message_scenario_candidates:
  "candidates (new_manager 0 empty_store [project_plugin, global_plugin]) hello_event
     = [global_plugin, project_plugin]"
  by (simp add: candidates_def new_manager_def register_def map_values_def Let_def subscribed_def
        global_plugin_def project_plugin_def sample_plugin_def hello_event_def sample_event_def)

lemma merge_mutation_fields:
  "merge_mutation None mu = mu"
  "mut_content (merge_mutation (Some p) mu) = spread_key (mut_content p) (mut_content mu)"
  "mut_images (merge_mutation (Some p) mu) = spread_key (mut_images p) (mut_images mu)"
  "mut_pluginId (merge_mutation (Some p) mu) = spread_key (mut_pluginId p) (mut_pluginId mu)"
  by (simp_all add: merge_mutation_def)

lemma mutate_event_content:
  "ev_name ev = ''user.message.before_send'' \<Longrightarrow> ev_data ev = Some data \<Longrightarrow>
   mut_content mu = KeyValue c \<Longrightarrow>
   content_of (mutate_event mu ev) = c"
  by (simp add: mutate_event_def content_of_def Let_def split: own_key.splits)

lemma mutate_event_name: "ev_name (mutate_event mu ev) = ev_name ev"
  by (simp add: mutate_event_def Let_def split: option.splits own_key.splits)

lemma mutate_event_data:
  "ev_data ev = Some data \<Longrightarrow> ev_data (mutate_event mu ev) \<noteq> None"
  by (simp add: mutate_event_def Let_def split: option.splits own_key.splits)

text \<open>
  Claim C2. With "project" (priority 50) registered before "global" (priority 100), both
  enabled, blocking, subscribed to \<^verbatim>\<open>user.message.before_send\<close> and granted
  \<^verbatim>\<open>message:mutate\<close> by default, the dispatch of content \<^verbatim>\<open>"hello"\<close> calls "global" with
  \<^verbatim>\<open>"hello"\<close> and then "project" with \<^verbatim>\<open>"[global] hello"\<close>, and returns the mutation
  with content \<^verbatim>\<open>"[global] hello [project]"\<close>, no images, and "project" as its origin.
  Merging mutations is the shallow overwrite of an object spread, key by key: the first
  mutation is taken as returned; after that a key the later mutation has replaces the
  earlier one, also when its value is \<^verbatim>\<open>undefined\<close>, and a key it lacks is kept. The
  derived event takes over a content that is a string and images that are an array, and
  is otherwise left alone.
\<close>

theorem message_mutation_chain:
  "er_userMessageMutation (emit 0 hello_event
       (new_manager 0 empty_store [project_plugin, global_plugin]))
     = Some \<lparr> mut_content = KeyValue ''[global] hello [project]'', mut_images = KeyAbsent,
              mut_pluginId = KeyValue ''project'' \<rparr>
   \<and> map (\<lambda>i. (def_id (inv_plugin i), content_of (inv_event i)))
        (es_invoked (emit_run 0 hello_event
           (new_manager 0 empty_store [project_plugin, global_plugin])))
       = [(''global'', ''hello''), (''project'', ''[global] hello'')]
   \<and> merge_mutation None mu = mu
   \<and> mut_content (merge_mutation (Some p) mu)
       = (case mut_content mu of KeyAbsent \<Rightarrow> mut_content p
          | KeyUndefined \<Rightarrow> KeyUndefined | KeyValue c \<Rightarrow> KeyValue c)
   \<and> mut_images (merge_mutation (Some p) mu)
       = (case mut_images mu of KeyAbsent \<Rightarrow> mut_images p
          | KeyUndefined \<Rightarrow> KeyUndefined | KeyValue i \<Rightarrow> KeyValue i)
   \<and> mut_pluginId (merge_mutation (Some p) mu)
       = (case mut_pluginId mu of KeyAbsent \<Rightarrow> mut_pluginId p
          | KeyUndefined \<Rightarrow> KeyUndefined | KeyValue i \<Rightarrow> KeyValue i)
   \<and> ev_data (mutate_event mu (sample_event ''user.message.before_send'' (Some data)))
       = Some ((case mut_images mu of
                  KeyValue imgs \<Rightarrow> (\<lambda>d. d(''images'' \<mapsto> VArr imgs)) | _ \<Rightarrow> (\<lambda>d. d))
               ((case mut_content mu of
                   KeyValue c \<Rightarrow> (\<lambda>d. d(''content'' \<mapsto> VStr c)) | _ \<Rightarrow> (\<lambda>d. d)) data))"
proof -
  define m where "m = new_manager 0 empty_store [project_plugin, global_plugin]"
  define s0 where "s0 = emit_init m hello_event"
  define s1 where "s1 = fst (emit_step 0 hello_event empty_store global_plugin s0)"
  define s2 where "s2 = fst (emit_step 0 hello_event empty_store project_plugin s1)"
  define mu1 where "mu1 = \<lparr> mut_content = KeyValue ''[global] hello'', mut_images = KeyAbsent,
                             mut_pluginId = KeyValue ''global'' \<rparr>"
  define mu2 where "mu2 = \<lparr> mut_content = KeyValue ''[global] hello [project]'', mut_images = KeyAbsent,
                             mut_pluginId = KeyValue ''project'' \<rparr>"
  define raw1 where "raw1 = \<lparr> res_insights = None, res_permissionDecision = None,
                               res_userMessageMutation = Some mu1, res_eventDataPatch = None \<rparr>"
  define raw2 where "raw2 = \<lparr> res_insights = None, res_permissionDecision = None,
                               res_userMessageMutation = Some mu2, res_eventDataPatch = None \<rparr>"
  have en: "resolve_enabled empty_store global_plugin" "resolve_enabled empty_store project_plugin"
    by (simp_all add: resolve_enabled_def empty_store_def global_plugin_def project_plugin_def
          sample_plugin_def)
  have bl: "def_blocking global_plugin" "def_blocking project_plugin"
    by (simp_all add: global_plugin_def project_plugin_def sample_plugin_def)
  have g0: "st_grants (stateStore (es_manager s0)) = Map.empty"
    by (simp add: s0_def m_def emit_init_def stateStore_new_manager empty_store_def)
  have g1: "st_grants (stateStore (es_manager s1)) = Map.empty"
    unfolding s1_def by (simp only: emit_step_grants g0)
  have q: "''message:mutate'' \<in> set (getRequestedCapabilities global_plugin)"
          "''message:mutate'' \<in> set (getRequestedCapabilities project_plugin)"
    by (simp_all add: getRequestedCapabilities_def global_plugin_def project_plugin_def
          sample_plugin_def)
  have gr1: "granted (resolveCapabilityGrants global_plugin (stateStore (es_manager s0))) ''message:mutate''"
    by (subst granted_default) (simp_all only: g0 q)
  have gr2: "granted (resolveCapabilityGrants project_plugin (stateStore (es_manager s1))) ''message:mutate''"
    by (subst granted_default) (simp_all only: g1 q)
  have ev0: "es_mutableEvent s0 = hello_event" by (simp add: s0_def emit_init_def)
  have c0: "content_of hello_event = ''hello''"
    by (simp add: content_of_def hello_event_def sample_event_def)
  \<comment> \<open>the first pass: the plugin of priority 100\<close>
  have h1: "def_onEvent global_plugin ev cfg = rewrite_content ''global'' (\<lambda>c. ''[global] '' @ c) ev cfg"
    for ev cfg by (simp add: global_plugin_def sample_plugin_def)
  have run1: "run_settlement (def_onEvent global_plugin (es_mutableEvent s0)
                (resolved_config global_plugin (st_config empty_store (def_id global_plugin))))
      = Returned (Some raw1)"
    unfolding h1 ev0 by (simp add: rewrite_content_def c0 raw1_def mu1_def)
  note x1 = step_exec_returned[OF run1, of 0]
  have r1: "res_userMessageMutation (fst (sanitizeResultForCapabilities 0 global_plugin raw1
              (resolveCapabilityGrants global_plugin (stateStore (es_manager s0))))) = Some mu1"
       "res_eventDataPatch (fst (sanitizeResultForCapabilities 0 global_plugin raw1
              (resolveCapabilityGrants global_plugin (stateStore (es_manager s0))))) = None"
    by (simp_all add: sanitize_fields gr1 raw1_def)
  note st1 = emit_step_success[OF en(1) bl(1) x1(1) x1(2), of hello_event]
  have stop1: "snd (emit_step 0 hello_event empty_store global_plugin s0) = False"
    by (rule st1(1))
  have i0: "es_userMessageMutation s0 = None" by (simp add: s0_def emit_init_def)
  have m1: "es_userMessageMutation s1 = Some mu1"
    unfolding s1_def st1(2) r1 i0 by (simp add: merge_mutation_def)
  have ev1: "es_mutableEvent s1 = mutate_event mu1 hello_event"
    unfolding s1_def st1(3) r1 ev0 by (simp add: patch_event_def r1)
  have c1: "content_of (es_mutableEvent s1) = ''[global] hello''"
    unfolding ev1
    by (rule mutate_event_content[where data = "[''content'' \<mapsto> VStr ''hello'']"])
       (simp_all add: hello_event_def sample_event_def mu1_def)
  \<comment> \<open>the second pass: the plugin of priority 50 sees the mutated content\<close>
  have h2: "def_onEvent project_plugin ev cfg = rewrite_content ''project'' (\<lambda>c. c @ '' [project]'') ev cfg"
    for ev cfg by (simp add: project_plugin_def sample_plugin_def)
  have run2: "run_settlement (def_onEvent project_plugin (es_mutableEvent s1)
                (resolved_config project_plugin (st_config empty_store (def_id project_plugin))))
      = Returned (Some raw2)"
    unfolding h2 by (simp add: rewrite_content_def c1 raw2_def mu2_def)
  note x2 = step_exec_returned[OF run2, of 0]
  have r2: "res_userMessageMutation (fst (sanitizeResultForCapabilities 0 project_plugin raw2
              (resolveCapabilityGrants project_plugin (stateStore (es_manager s1))))) = Some mu2"
    by (simp add: sanitize_fields gr2 raw2_def)
  note st2 = emit_step_success[OF en(2) bl(2) x2(1) x2(2), of hello_event]
  have stop2: "snd (emit_step 0 hello_event empty_store project_plugin s1) = False"
    by (rule st2(1))
  have m2: "es_userMessageMutation s2 = Some (merge_mutation (Some mu1) mu2)"
    unfolding s2_def st2(2) r2 m1 by simp
  have sm: "stateStore m = empty_store" by (simp add: m_def stateStore_new_manager)
  have cs: "candidates m hello_event = [global_plugin, project_plugin]"
    unfolding m_def by (rule message_scenario_candidates)
  have e1: "emit_step 0 hello_event empty_store global_plugin s0 = (s1, False)"
    using stop1 by (simp add: s1_def prod_eq_iff)
  have e2: "emit_step 0 hello_event empty_store project_plugin s1 = (s2, False)"
    using stop2 by (simp add: s2_def prod_eq_iff)
  have run: "emit_run 0 hello_event m = s2"
    by (simp add: emit_run_def sm cs s0_def[symmetric] e1 e2)
  have a: "er_userMessageMutation (emit 0 hello_event m)
             = Some \<lparr> mut_content = KeyValue ''[global] hello [project]'', mut_images = KeyAbsent,
                      mut_pluginId = KeyValue ''project'' \<rparr>"
    by (simp add: emit_def Let_def run m2 merge_mutation_def spread_key_def mu1_def mu2_def)
  have inv: "es_invoked s2
      = [\<lparr> inv_plugin = global_plugin, inv_event = es_mutableEvent s0 \<rparr>,
         \<lparr> inv_plugin = project_plugin, inv_event = es_mutableEvent s1 \<rparr>]"
    unfolding s2_def emit_step_invoked s1_def[symmetric]
    unfolding s1_def emit_step_invoked
    by (simp add: en s0_def emit_init_def)
  have ids: "def_id global_plugin = ''global''" "def_id project_plugin = ''project''"
    by (simp_all add: global_plugin_def project_plugin_def sample_plugin_def)
  have b: "map (\<lambda>i. (def_id (inv_plugin i), content_of (inv_event i))) (es_invoked (emit_run 0 hello_event m))
       = [(''global'', ''hello''), (''project'', ''[global] hello'')]"
    unfolding run inv by (simp add: c1 ev0 c0 ids)
  have c: "ev_data (mutate_event mu (sample_event ''user.message.before_send'' (Some data)))
       = Some ((case mut_images mu of
                  KeyValue imgs \<Rightarrow> (\<lambda>d. d(''images'' \<mapsto> VArr imgs)) | _ \<Rightarrow> (\<lambda>d. d))
               ((case mut_content mu of
                   KeyValue c \<Rightarrow> (\<lambda>d. d(''content'' \<mapsto> VStr c)) | _ \<Rightarrow> (\<lambda>d. d)) data))"
    by (simp add: mutate_event_def sample_event_def Let_def split: own_key.splits)
  have d: "mut_content (merge_mutation (Some p) mu)
       = (case mut_content mu of KeyAbsent \<Rightarrow> mut_content p
          | KeyUndefined \<Rightarrow> KeyUndefined | KeyValue c \<Rightarrow> KeyValue c)"
    "mut_images (merge_mutation (Some p) mu)
       = (case mut_images mu of KeyAbsent \<Rightarrow> mut_images p
          | KeyUndefined \<Rightarrow> KeyUndefined | KeyValue i \<Rightarrow> KeyValue i)"
    "mut_pluginId (merge_mutation (Some p) mu)
       = (case mut_pluginId mu of KeyAbsent \<Rightarrow> mut_pluginId p
          | KeyUndefined \<Rightarrow> KeyUndefined | KeyValue i \<Rightarrow> KeyValue i)"
    by (simp_all add: merge_mutation_def spread_key_def)
  have e: "merge_mutation None mu = mu" by (simp add: merge_mutation_def)
  show ?thesis using a b c d e unfolding m_def by blast
qed

section \<open>Non-blocking plugins\<close>

lemma with_handlers_fields:
  "def_id (with_handlers h p) = def_id p"
  "def_blocking (with_handlers h p) = def_blocking p"
  "def_priority (with_handlers h p) = def_priority p"
  "def_events (with_handlers h p) = def_events p"
  "def_failPolicy (with_handlers h p) = def_failPolicy p"
  "def_defaultEnabled (with_handlers h p) = def_defaultEnabled p"
  "def_blocking p \<Longrightarrow> with_handlers h p = p"
  by (simp_all add: with_handlers_def)

lemma onEvent_irrelevant:
  "resolve_enabled state (p\<lparr>def_onEvent := f\<rparr>) = resolve_enabled state p"
  "subscribed event (p\<lparr>def_onEvent := f\<rparr>) = subscribed event p"
  "raw_config (p\<lparr>def_onEvent := f\<rparr>) c = raw_config p c"
  "resolved_config (p\<lparr>def_onEvent := f\<rparr>) c = resolved_config p c"
  "timeout_of (p\<lparr>def_onEvent := f\<rparr>) = timeout_of p"
  by (simp_all add: resolve_enabled_def subscribed_def raw_config_def resolved_config_def
        timeout_of_def cong: option.case_cong jsval.case_cong sum.case_cong)

lemma resolveConfig_onEvent:
  "resolveConfig (p\<lparr>def_onEvent := f\<rparr>) c heal m = resolveConfig p c heal m"
  by (auto simp: resolveConfig_def onEvent_irrelevant Let_def split: option.splits sum.splits)

lemma with_handlers_resolve:
  "resolve_enabled state (with_handlers h p) = resolve_enabled state p"
  "subscribed event (with_handlers h p) = subscribed event p"
  "resolveConfig (with_handlers h p) c heal m = resolveConfig p c heal m"
  "step_manager now state (with_handlers h p) m = step_manager now state p m"
  by (simp_all add: with_handlers_def onEvent_irrelevant resolveConfig_onEvent step_manager_def)

lemma definitions_commute:
  "updateHealthFromEnabled now pid en (m\<lparr>definitions := D\<rparr>)
     = (updateHealthFromEnabled now pid en m)\<lparr>definitions := D\<rparr>"
  "snd (resolveConfig p c heal (m\<lparr>definitions := D\<rparr>))
     = (snd (resolveConfig p c heal m))\<lparr>definitions := D\<rparr>"
  "updateStatsOnRun now pid dur oc err (m\<lparr>definitions := D\<rparr>)
     = (updateStatsOnRun now pid dur oc err m)\<lparr>definitions := D\<rparr>"
  "stats_of (m\<lparr>definitions := D\<rparr>) pid = stats_of m pid"
  by (auto simp: updateHealthFromEnabled_def resolveConfig_def updateStatsOnRun_def Let_def
        stats_of_def window_of_def split: option.splits sum.splits)

lemma step_manager_commute:
  "step_manager now state p (m\<lparr>definitions := D\<rparr>) = (step_manager now state p m)\<lparr>definitions := D\<rparr>"
  by (simp add: step_manager_def definitions_commute)

lemma overlay_fields:
  "es_insights (overlay h D d s) = es_insights s"
  "es_permissionDecision (overlay h D d s) = es_permissionDecision s"
  "es_userMessageMutation (overlay h D d s) = es_userMessageMutation s"
  "es_aborted (overlay h D d s) = es_aborted s"
  "es_mutableEvent (overlay h D d s) = es_mutableEvent s"
  "stateStore (es_manager (overlay h D d s)) = stateStore (es_manager s)"
  by (simp_all add: overlay_def)

lemma step_exec_overlay:
  "step_exec now state p (overlay h D d s) = step_exec now state p s"
  by (simp add: step_exec_def overlay_fields)

lemma on_blocking_failure_overlay:
  "on_blocking_failure now event p exec (overlay h D d s)
     = (overlay h D d (fst (on_blocking_failure now event p exec s)),
        snd (on_blocking_failure now event p exec s))"
  by (simp add: on_blocking_failure_def Let_def overlay_def definitions_commute)

lemma apply_result_overlay:
  "apply_result r (overlay h D d s) = overlay h D d (apply_result r s)"
  by (simp add: apply_result_def Let_def overlay_def split: option.splits)

lemma on_blocking_success_overlay:
  "on_blocking_success now p exec (overlay h D d s)
     = (overlay h D d (fst (on_blocking_success now p exec s)),
        snd (on_blocking_success now p exec s))"
proof -
  have "s\<lparr>es_manager := (es_manager s)\<lparr>definitions := D\<rparr>,
           es_invoked := map (\<lambda>i. i\<lparr>inv_plugin := with_handlers h (inv_plugin i)\<rparr>) (es_invoked s),
           es_detached := d,
           es_manager := (updateStatsOnRun now (def_id p) (ex_durationMs exec) RunSuccess None
                            (es_manager s))\<lparr>definitions := D\<rparr>\<rparr>
        = overlay h D d (s\<lparr>es_manager := updateStatsOnRun now (def_id p) (ex_durationMs exec)
                                           RunSuccess None (es_manager s)\<rparr>)"
    by (simp add: overlay_def)
  then show ?thesis
    by (simp add: on_blocking_success_def Let_def definitions_commute apply_result_overlay
          overlay_def[of h D d s] split: option.splits)
qed

lemma overlay_manager:
  "(overlay h D d s)\<lparr>es_manager := m'\<lparr>definitions := D\<rparr>\<rparr> = overlay h D d (s\<lparr>es_manager := m'\<rparr>)"
  by (simp add: overlay_def)

lemma emit_step_overlay:
  assumes "map det_pluginId d = map det_pluginId (es_detached s)"
  shows "\<exists>d2. emit_step now event state (with_handlers h p) (overlay h D d s)
                 = (overlay h D d2 (fst (emit_step now event state p s)),
                    snd (emit_step now event state p s))
              \<and> map det_pluginId d2
                 = map det_pluginId (es_detached (fst (emit_step now event state p s)))"
proof (cases "resolve_enabled state p")
  case False
  then show ?thesis using assms
    by (intro exI[of _ d])
       (simp add: emit_step_disabled with_handlers_resolve with_handlers_fields overlay_def
          definitions_commute)
next
  case en: True
  show ?thesis
  proof (cases "def_blocking p")
    case False
    let ?d2 = "d @ [\<lparr> det_pluginId = def_id p,
                      det_exec = step_exec now state (with_handlers h p) (overlay h D d s) \<rparr>]"
    show ?thesis using assms en False
      by (intro exI[of _ ?d2])
         (simp add: emit_step_nonblocking with_handlers_resolve with_handlers_fields overlay_def
            step_manager_commute)
  next
    case True
    have w: "with_handlers h p = p" using True by (simp add: with_handlers_fields)
    let ?s1 = "s\<lparr> es_manager := step_manager now state p (es_manager s),
                   es_invoked := es_invoked s @ [\<lparr> inv_plugin = p, inv_event = es_mutableEvent s \<rparr>] \<rparr>"
    have o: "(overlay h D d s)
               \<lparr> es_manager := step_manager now state p (es_manager (overlay h D d s)),
                 es_invoked := es_invoked (overlay h D d s)
                    @ [\<lparr> inv_plugin = p, inv_event = es_mutableEvent (overlay h D d s) \<rparr>] \<rparr>
             = overlay h D d ?s1"
      by (simp add: overlay_def step_manager_commute w)
    have dd: "es_detached (fst (emit_step now event state p s)) = es_detached s"
      using en True
      by (simp add: emit_step_blocking on_blocking_failure_fields on_blocking_success_fields)
    show ?thesis using assms en True
      by (intro exI[of _ d])
         (simp add: w emit_step_blocking step_exec_overlay o on_blocking_failure_overlay
            on_blocking_success_overlay dd[unfolded emit_step_blocking[OF en True]])
  qed
qed

lemma emit_loop_overlay:
  assumes "map det_pluginId d = map det_pluginId (es_detached s)"
  shows "\<exists>d2. emit_loop now event state (map (with_handlers h) cs) (overlay h D d s)
                 = overlay h D d2 (emit_loop now event state cs s)
              \<and> map det_pluginId d2
                 = map det_pluginId (es_detached (emit_loop now event state cs s))"
  using assms
proof (induction cs arbitrary: d s)
  case Nil
  then show ?case by (intro exI[of _ d]) simp
next
  case (Cons p cs)
  obtain s1 stop where st: "emit_step now event state p s = (s1, stop)"
    by (cases "emit_step now event state p s")
  from emit_step_overlay[OF Cons.prems, of now event state h p D] st
  obtain d1 where d1: "emit_step now event state (with_handlers h p) (overlay h D d s)
                         = (overlay h D d1 s1, stop)"
      "map det_pluginId d1 = map det_pluginId (es_detached s1)"
    by auto
  show ?case
  proof (cases stop)
    case True
    then show ?thesis using st d1 by (intro exI[of _ d1]) simp
  next
    case False
    from Cons.IH[OF d1(2)] obtain d2 where
      "emit_loop now event state (map (with_handlers h) cs) (overlay h D d1 s1)
         = overlay h D d2 (emit_loop now event state cs s1)"
      "map det_pluginId d2 = map det_pluginId (es_detached (emit_loop now event state cs s1))"
      by blast
    then show ?thesis using st d1 False by (intro exI[of _ d2]) simp
  qed
qed

lemma insort_key_map:
  "insort_key f (g x) (map g ys) = map g (insort_key (\<lambda>y. f (g y)) x ys)"
  by (induction ys) simp_all

lemma sort_key_map_inner:
  "sort_key f (map g xs) = map g (sort_key (\<lambda>y. f (g y)) xs)"
  by (induction xs) (simp_all add: insort_key_map)

lemma candidates_swap:
  "candidates (swap_handlers h m) event = map (with_handlers h) (candidates m event)"
  by (simp add: candidates_def swap_handlers_def map_values_def sort_key_map_inner filter_map
        comp_def with_handlers_resolve with_handlers_fields)

lemma emit_run_swap:
  "\<exists>d2. emit_run now event (swap_handlers h m)
           = overlay h (definitions (swap_handlers h m)) d2 (emit_run now event m)
        \<and> map det_pluginId d2 = map det_pluginId (es_detached (emit_run now event m))"
proof -
  have i: "emit_init (swap_handlers h m) event
             = overlay h (definitions (swap_handlers h m)) [] (emit_init m event)"
    by (simp add: emit_init_def overlay_def swap_handlers_def)
  have s: "stateStore (swap_handlers h m) = stateStore m" by (simp add: swap_handlers_def)
  have "map det_pluginId [] = map det_pluginId (es_detached (emit_init m event))"
    by (simp add: emit_init_def)
  from emit_loop_overlay[OF this, of now event "stateStore m" h "candidates m event"
         "definitions (swap_handlers h m)"]
  show ?thesis by (simp add: emit_run_def candidates_swap i s)
qed

lemma emit_swap: "emit now event (swap_handlers h m) = emit now event m"
  using emit_run_swap[of now event h m] by (auto simp: emit_def Let_def overlay_fields)

lemma handler_calls_swap: "handler_calls now event (swap_handlers h m) = handler_calls now event m"
proof -
  obtain d2 where r: "emit_run now event (swap_handlers h m)
           = overlay h (definitions (swap_handlers h m)) d2 (emit_run now event m)"
    using emit_run_swap[of now event h m] by blast
  show ?thesis by (simp add: handler_calls_def r overlay_def comp_def with_handlers_fields)
qed

lemma settle_detached_fst:
  "fst (settle_detached now event d m)
     = (if has_error (det_exec d)
        then [toPluginErrorInsight now (det_pluginId d) event (the (ex_error (det_exec d)))]
        else exec_insights (det_exec d))"
  by (simp add: settle_detached_def Let_def exec_insights_def split: option.splits)

lemma settle_detached_frame:
  "definitions (snd (settle_detached now event d m)) = definitions m"
  "stateStore (snd (settle_detached now event d m)) = stateStore m"
  by (simp_all add: settle_detached_def Let_def update_frame split: option.splits)

text \<open>
  Claim C9. Replacing the handlers of the non-blocking plugins by any others changes
  neither the result a dispatch returns nor the event that each handler call sees. The
  pass of the loop for an enabled non-blocking plugin never ends in \<^verbatim>\<open>break\<close>, leaves
  the insights, the permission decision, the message mutation, the aborted flag and the
  derived event as they were, and only starts a detached run. When that run settles, the
  callback hands over its insights one by one (or one error insight when it failed) and
  touches telemetry only: the registry and the store stay as they are.
\<close>

theorem nonblocking_frame:
  "emit now event (swap_handlers h m) = emit now event m
   \<and> handler_calls now event (swap_handlers h m) = handler_calls now event m
   \<and> (resolve_enabled state plugin \<and> \<not> def_blocking plugin \<longrightarrow>
        snd (emit_step now event state plugin s) = False
        \<and> es_insights (fst (emit_step now event state plugin s)) = es_insights s
        \<and> es_permissionDecision (fst (emit_step now event state plugin s)) = es_permissionDecision s
        \<and> es_userMessageMutation (fst (emit_step now event state plugin s)) = es_userMessageMutation s
        \<and> es_aborted (fst (emit_step now event state plugin s)) = es_aborted s
        \<and> es_mutableEvent (fst (emit_step now event state plugin s)) = es_mutableEvent s
        \<and> es_detached (fst (emit_step now event state plugin s))
            = es_detached s @ [\<lparr> det_pluginId = def_id plugin,
                                  det_exec = step_exec now state plugin s \<rparr>])
   \<and> fst (settle_detached now event d m)
       = (if has_error (det_exec d)
          then [toPluginErrorInsight now (det_pluginId d) event (the (ex_error (det_exec d)))]
          else exec_insights (det_exec d))
   \<and> definitions (snd (settle_detached now event d m)) = definitions m
   \<and> stateStore (snd (settle_detached now event d m)) = stateStore m"
  using emit_swap[of now event h m] handler_calls_swap[of now event h m]
    settle_detached_fst[of now event d m] settle_detached_frame[of now event d m]
  by (simp add: emit_step_nonblocking)

text \<open>
  The pass for a non-blocking plugin that returns a decision, a mutation and a patch:
  none of them reaches the loop's variables.
\<close>

theorem nonblocking_frame_witness:
  "snd (emit_step 0 hello_event empty_store meddling_plugin
          (emit_init (new_manager 0 empty_store [meddling_plugin]) hello_event)) = False
   \<and> es_permissionDecision (fst (emit_step 0 hello_event empty_store meddling_plugin
          (emit_init (new_manager 0 empty_store [meddling_plugin]) hello_event))) = None
   \<and> es_userMessageMutation (fst (emit_step 0 hello_event empty_store meddling_plugin
          (emit_init (new_manager 0 empty_store [meddling_plugin]) hello_event))) = None
   \<and> es_mutableEvent (fst (emit_step 0 hello_event empty_store meddling_plugin
          (emit_init (new_manager 0 empty_store [meddling_plugin]) hello_event))) = hello_event
   \<and> es_aborted (fst (emit_step 0 hello_event empty_store meddling_plugin
          (emit_init (new_manager 0 empty_store [meddling_plugin]) hello_event))) = False"
proof -
  have en: "resolve_enabled empty_store meddling_plugin \<and> \<not> def_blocking meddling_plugin"
    by (simp add: resolve_enabled_def empty_store_def meddling_plugin_def sample_plugin_def)
  note t = nonblocking_frame[where state = empty_store and plugin = meddling_plugin and now = 0
      and event = hello_event
      and s = "emit_init (new_manager 0 empty_store [meddling_plugin]) hello_event"]
  from t[THEN conjunct2, THEN conjunct2, THEN conjunct1, THEN mp, OF en]
  show ?thesis by (simp add: emit_init_def)
qed

section \<open>Failures, healing and health across dispatches\<close>

text \<open>
  A run counts as failed for \<^verbatim>\<open>emit\<close> when the deadline came first or the handler threw
  a truthy value. For such a failure of an enabled blocking plugin the pass appends the
  error insight and ends in \<^verbatim>\<open>break\<close> with \<^verbatim>\<open>aborted = true\<close> exactly when the fail
  policy is \<^verbatim>\<open>abort_current_action\<close>.
\<close>

lemma has_error_cases:
  "has_error (finish_run now plugin grants t run)
     = (case run_settlement run of
          Returned r \<Rightarrow> False
        | Threw err \<Rightarrow> thrown_truthy err
        | DeadlineFirst \<Rightarrow> True)"
  by (simp add: finish_run_def has_error_def Let_def split: settlement.splits option.splits)

lemma emit_step_failure:
  assumes "resolve_enabled state plugin" "def_blocking plugin"
    and "has_error (step_exec now state plugin s)"
  shows "snd (emit_step now event state plugin s) = (policy_of plugin = AbortCurrentAction)"
    and "es_aborted (fst (emit_step now event state plugin s))
           = (es_aborted s \<or> policy_of plugin = AbortCurrentAction)"
    and "es_insights (fst (emit_step now event state plugin s))
           = es_insights s @ [toPluginErrorInsight now (def_id plugin) event
                                (the (ex_error (step_exec now state plugin s)))]"
    and "ins_level (toPluginErrorInsight now (def_id plugin) event e) = ''error''"
    and "ins_plugin_id (toPluginErrorInsight now (def_id plugin) event e) = def_id plugin"
  using assms
  by (simp_all add: emit_step_blocking on_blocking_failure_fields toPluginErrorInsight_def)

lemma emit_loop_stop:
  "snd (emit_step now event state plugin s) \<Longrightarrow>
   emit_loop now event state (plugin # rest) s = fst (emit_step now event state plugin s)"
  by (cases "emit_step now event state plugin s") simp

lemma on_blocking_failure_manager:
  "es_manager (fst (on_blocking_failure now event plugin exec s))
     = (if policy_of plugin = AbortCurrentAction
        then abort_bump (def_id plugin)
               (updateStatsOnRun now (def_id plugin) (ex_durationMs exec)
                  (if isTimeout (the (ex_error exec)) then RunTimeout else RunError)
                  (Some (exec_error_message (the (ex_error exec)))) (es_manager s))
        else updateStatsOnRun now (def_id plugin) (ex_durationMs exec)
               (if isTimeout (the (ex_error exec)) then RunTimeout else RunError)
               (Some (exec_error_message (the (ex_error exec)))) (es_manager s))"
  by (simp add: on_blocking_failure_def Let_def policy_of_def abort_bump_def)

lemma on_blocking_success_manager:
  "es_manager (fst (on_blocking_success now plugin exec s))
     = updateStatsOnRun now (def_id plugin) (ex_durationMs exec) RunSuccess None (es_manager s)"
  by (cases "ex_result exec") (simp_all add: on_blocking_success_def Let_def apply_result_fields)

lemma emit_step_manager:
  "\<not> resolve_enabled state plugin \<Longrightarrow>
     es_manager (fst (emit_step now event state plugin s))
       = updateHealthFromEnabled now (def_id plugin) False (es_manager s)"
  "resolve_enabled state plugin \<Longrightarrow> \<not> def_blocking plugin \<Longrightarrow>
     es_manager (fst (emit_step now event state plugin s))
       = step_manager now state plugin (es_manager s)"
  "resolve_enabled state plugin \<Longrightarrow> def_blocking plugin \<Longrightarrow>
     has_error (step_exec now state plugin s) \<Longrightarrow>
     es_manager (fst (emit_step now event state plugin s))
       = (if policy_of plugin = AbortCurrentAction
          then abort_bump (def_id plugin)
                 (updateStatsOnRun now (def_id plugin) (ex_durationMs (step_exec now state plugin s))
                    (if isTimeout (the (ex_error (step_exec now state plugin s)))
                     then RunTimeout else RunError)
                    (Some (exec_error_message (the (ex_error (step_exec now state plugin s)))))
                    (step_manager now state plugin (es_manager s)))
          else updateStatsOnRun now (def_id plugin) (ex_durationMs (step_exec now state plugin s))
                 (if isTimeout (the (ex_error (step_exec now state plugin s)))
                  then RunTimeout else RunError)
                 (Some (exec_error_message (the (ex_error (step_exec now state plugin s)))))
                 (step_manager now state plugin (es_manager s)))"
  "resolve_enabled state plugin \<Longrightarrow> def_blocking plugin \<Longrightarrow>
     \<not> has_error (step_exec now state plugin s) \<Longrightarrow>
     es_manager (fst (emit_step now event state plugin s))
       = updateStatsOnRun now (def_id plugin) (ex_durationMs (step_exec now state plugin s))
           RunSuccess None (step_manager now state plugin (es_manager s))"
  by (simp_all add: emit_step_disabled emit_step_nonblocking emit_step_blocking
        on_blocking_failure_manager on_blocking_success_manager)

lemma step_manager_telemetry:
  "stats (step_manager now state plugin m) = stats m"
  "pid \<noteq> def_id plugin \<Longrightarrow> health (step_manager now state plugin m) pid = health m pid"
  "health (step_manager now state plugin m) (def_id plugin)
     = health (updateHealthFromEnabled now (def_id plugin) True m) (def_id plugin)"
  by (simp_all add: step_manager_def resolveConfig_frame updateHealthFromEnabled_frame
        updateHealthFromEnabled_other)

lemma stats_of_cong: "stats m pid = stats m' pid \<Longrightarrow> stats_of m pid = stats_of m' pid"
  by (simp add: stats_of_def)

lemma tracked_health_off:
  "pid \<noteq> pid' \<Longrightarrow> still_tracked m0 pid m \<Longrightarrow>
   still_tracked m0 pid (updateHealthFromEnabled now pid' en m)"
  by (simp add: still_tracked_def updateHealthFromEnabled_other updateHealthFromEnabled_frame
        stats_of_cong[of "updateHealthFromEnabled now pid' en m" pid m])

lemma tracked_step_manager:
  assumes "health m0 pid = Some h" "h_status h \<noteq> Disabled" "still_tracked m0 pid m"
  shows "still_tracked m0 pid (step_manager now state plugin m)"
proof (cases "def_id plugin = pid")
  case False
  then show ?thesis using assms(3)
    by (simp add: still_tracked_def step_manager_telemetry
          stats_of_cong[of "step_manager now state plugin m" pid m])
next
  case True
  have st: "stats_of (step_manager now state plugin m) pid = stats_of m pid"
    by (rule stats_of_cong) (simp add: step_manager_telemetry)
  show ?thesis
  proof (cases "stat_invocations (stats_of m0 pid) < stat_invocations (stats_of m pid)")
    case True
    then show ?thesis by (simp add: still_tracked_def st)
  next
    case False
    with assms(3) have eq: "stats m pid = stats m0 pid" "health m pid = health m0 pid"
      by (simp_all add: still_tracked_def)
    have "health (step_manager now state plugin m) (def_id plugin)
            = health (updateHealthFromEnabled now (def_id plugin) True m) (def_id plugin)"
      by (rule step_manager_telemetry(3))
    also have "\<dots> = health m (def_id plugin)"
      using \<open>def_id plugin = pid\<close> eq(2) assms(1,2) by (simp add: updateHealthFromEnabled_on)
    finally have "health (step_manager now state plugin m) pid = health m pid"
      using \<open>def_id plugin = pid\<close> by simp
    then show ?thesis using eq by (simp add: still_tracked_def step_manager_telemetry)
  qed
qed

lemma tracked_le:
  assumes "still_tracked m0 pid m"
  shows "stat_invocations (stats_of m0 pid) \<le> stat_invocations (stats_of m pid)"
proof (cases "stats m pid = stats m0 pid")
  case True
  then have "stats_of m pid = stats_of m0 pid" by (rule stats_of_cong)
  then show ?thesis by simp
next
  case False
  then show ?thesis using assms by (simp add: still_tracked_def)
qed

lemma tracked_update:
  "still_tracked m0 pid m \<Longrightarrow> still_tracked m0 pid (updateStatsOnRun now pid' d oc err m)"
proof (cases "pid' = pid")
  case True
  assume "still_tracked m0 pid m"
  then have "stat_invocations (stats_of m0 pid) \<le> stat_invocations (stats_of m pid)"
    by (rule tracked_le)
  then show ?thesis using True by (simp add: still_tracked_def stats_counters_update)
next
  case False
  assume "still_tracked m0 pid m"
  then show ?thesis using False
    by (simp add: still_tracked_def update_other
          stats_of_cong[of "updateStatsOnRun now pid' d oc err m" pid m])
qed

lemma tracked_bump:
  assumes "stat_invocations (stats_of m0 pid) < stat_invocations (stats_of m pid) \<or> pid' \<noteq> pid"
    and "still_tracked m0 pid m"
  shows "still_tracked m0 pid (abort_bump pid' m)"
proof (cases "pid' = pid")
  case True
  with assms(1) have "stat_invocations (stats_of m0 pid) < stat_invocations (stats_of m pid)" by simp
  then show ?thesis using True by (simp add: still_tracked_def abort_bump_def stats_of_def)
next
  case False
  then show ?thesis using assms(2)
    by (simp add: still_tracked_def abort_bump_def stats_of_def)
qed

lemma tracked_update_strict:
  "still_tracked m0 pid m \<Longrightarrow>
   stat_invocations (stats_of m0 pid) < stat_invocations (stats_of (updateStatsOnRun now pid d oc err m) pid)"
proof -
  assume "still_tracked m0 pid m"
  then have "stat_invocations (stats_of m0 pid) \<le> stat_invocations (stats_of m pid)"
    by (rule tracked_le)
  then show ?thesis by (simp add: stats_counters_update)
qed

lemma tracked_emit_step:
  assumes "health m0 pid = Some h" "h_status h \<noteq> Disabled"
    and "def_id plugin = pid \<longrightarrow> resolve_enabled state plugin"
    and "still_tracked m0 pid (es_manager s)"
  shows "still_tracked m0 pid (es_manager (fst (emit_step now event state plugin s)))"
proof (cases "resolve_enabled state plugin")
  case False
  then have "pid \<noteq> def_id plugin" using assms(3) by auto
  then show ?thesis using False assms(4) by (simp add: emit_step_manager(1) tracked_health_off)
next
  case en: True
  note sm = tracked_step_manager[OF assms(1,2,4), of now state plugin]
  show ?thesis
  proof (cases "def_blocking plugin")
    case False
    then show ?thesis using en sm by (simp add: emit_step_manager(2))
  next
    case bl: True
    show ?thesis
    proof (cases "has_error (step_exec now state plugin s)")
      case False
      then show ?thesis using en bl sm by (simp add: emit_step_manager(4) tracked_update)
    next
      case err: True
      let ?m2 = "updateStatsOnRun now (def_id plugin) (ex_durationMs (step_exec now state plugin s))
                 (if isTimeout (the (ex_error (step_exec now state plugin s)))
                  then RunTimeout else RunError)
                 (Some (exec_error_message (the (ex_error (step_exec now state plugin s)))))
                 (step_manager now state plugin (es_manager s))"
      have t2: "still_tracked m0 pid ?m2" using sm by (rule tracked_update)
      have "stat_invocations (stats_of m0 pid) < stat_invocations (stats_of ?m2 pid)
            \<or> def_id plugin \<noteq> pid"
        using tracked_update_strict[OF sm] by (cases "def_id plugin = pid") auto
      then have "still_tracked m0 pid (abort_bump (def_id plugin) ?m2)"
        using t2 by (rule tracked_bump)
      then show ?thesis using en bl err t2 by (simp add: emit_step_manager(3))
    qed
  qed
qed

lemma tracked_emit_loop:
  assumes "health m0 pid = Some h" "h_status h \<noteq> Disabled"
    and "\<forall>p\<in>set cs. def_id p = pid \<longrightarrow> resolve_enabled state p"
    and "still_tracked m0 pid (es_manager s)"
  shows "still_tracked m0 pid (es_manager (emit_loop now event state cs s))"
  using assms(3,4)
proof (induction cs arbitrary: s)
  case Nil
  then show ?case by simp
next
  case (Cons p cs)
  have "still_tracked m0 pid (es_manager (fst (emit_step now event state p s)))"
    using Cons.prems by (intro tracked_emit_step[OF assms(1,2)]) simp_all
  then show ?case using Cons by (auto split: prod.splits)
qed

lemma candidates_subset: "set (candidates m event) \<subseteq> set (map_values (definitions m))"
  by (auto simp: candidates_def)

lemma emit_keeps_health:
  assumes "health m pid = Some h" "h_status h \<noteq> Disabled"
    and "\<forall>p\<in>set (map_values (definitions m)). def_id p = pid \<longrightarrow> resolve_enabled (stateStore m) p"
    and "stats (es_manager (emit_run now event m)) pid = stats m pid"
  shows "health (es_manager (emit_run now event m)) pid = Some h"
proof -
  have c: "\<forall>p\<in>set (candidates m event). def_id p = pid \<longrightarrow> resolve_enabled (stateStore m) p"
    using assms(3) candidates_subset by blast
  have i: "still_tracked m pid (es_manager (emit_init m event))"
    by (simp add: still_tracked_def emit_init_def)
  from tracked_emit_loop[OF assms(1,2) c i, of now event]
  have "still_tracked m pid (es_manager (emit_run now event m))" by (simp add: emit_run_def)
  moreover have "stats_of (es_manager (emit_run now event m)) pid = stats_of m pid"
    using assms(4) by (rule stats_of_cong)
  ultimately show ?thesis using assms(1) by (simp add: still_tracked_def)
qed

lemma list_row_snd:
  "snd (list_row now state p m)
     = updateHealthFromEnabled now (def_id p) (resolve_enabled state p)
         (snd (resolveConfig p (st_config state (def_id p)) True m))"
  by (simp add: list_row_def Let_def case_prod_unfold)

lemma list_row_fst:
  "info_id (fst (list_row now state p m)) = def_id p"
  "info_config (fst (list_row now state p m)) = resolved_config p (st_config state (def_id p))"
  by (simp_all add: list_row_def Let_def case_prod_unfold resolveConfig_fst)

lemma list_loop_unfold:
  "fst (list_loop now state (p # ps) m)
     = fst (list_row now state p m) # fst (list_loop now state ps (snd (list_row now state p m)))"
  "snd (list_loop now state (p # ps) m) = snd (list_loop now state ps (snd (list_row now state p m)))"
  by (simp_all add: case_prod_unfold Let_def)

lemma list_loop_health:
  assumes "\<forall>p\<in>set ps. def_id p = pid \<longrightarrow> resolve_enabled state p"
    and "health m pid = Some h" "h_status h \<noteq> Disabled"
  shows "health (snd (list_loop now state ps m)) pid = Some h"
  using assms
proof (induction ps arbitrary: m)
  case Nil
  then show ?case by simp
next
  case (Cons p ps)
  have "health (snd (list_row now state p m)) pid = Some h"
  proof (cases "def_id p = pid")
    case True
    then have "resolve_enabled state p" using Cons.prems(1) by simp
    then show ?thesis using True Cons.prems(2,3)
      by (auto simp: list_row_snd updateHealthFromEnabled_on resolveConfig_frame)
  next
    case False
    then show ?thesis using Cons.prems(2)
      by (simp add: list_row_snd updateHealthFromEnabled_other resolveConfig_frame)
  qed
  then show ?case using Cons by (simp only: list_loop_unfold) simp
qed

lemma list_loop_rows:
  "list_all2 (\<lambda>row p. info_id row = def_id p
                      \<and> info_config row = resolved_config p (st_config state (def_id p)))
     (fst (list_loop now state ps m)) ps"
proof (induction ps arbitrary: m)
  case Nil
  show ?case by simp
next
  case (Cons p ps)
  show ?case unfolding list_loop_unfold using Cons by (simp add: list_row_fst)
qed

lemma resolveConfig_store_other:
  "pid \<noteq> def_id p \<Longrightarrow>
   st_config (stateStore (snd (resolveConfig p c heal m))) pid = st_config (stateStore m) pid"
  by (auto simp: resolveConfig_def Let_def split: option.splits sum.splits)

lemma resolveConfig_invalid:
  assumes "def_validateConfig p = Some v" "v (raw_config p c) = Inl e"
  shows "fst (resolveConfig p c heal m) = def_defaultConfig p"
    and "st_config (stateStore (snd (resolveConfig p c True m))) (def_id p)
           = (if c \<noteq> None then Some (def_defaultConfig p) else st_config (stateStore m) (def_id p))"
    and "c = None \<Longrightarrow> stateStore (snd (resolveConfig p c True m)) = stateStore m"
  using assms by (auto simp: resolveConfig_def Let_def)

lemma list_row_store:
  "stateStore (snd (list_row now state p m))
     = stateStore (snd (resolveConfig p (st_config state (def_id p)) True m))"
  by (simp add: list_row_snd updateHealthFromEnabled_frame)

lemma list_loop_store_kept:
  assumes "def_validateConfig plugin = Some v" "v (raw_config plugin (Some c)) = Inl e"
    and "st_config state (def_id plugin) = Some c"
    and "\<forall>p\<in>set ps. def_id p = def_id plugin \<longrightarrow> p = plugin"
    and "st_config (stateStore m) (def_id plugin) = Some (def_defaultConfig plugin)"
  shows "st_config (stateStore (snd (list_loop now state ps m))) (def_id plugin)
           = Some (def_defaultConfig plugin)"
  using assms(4,5)
proof (induction ps arbitrary: m)
  case Nil
  then show ?case by simp
next
  case (Cons p ps)
  have "st_config (stateStore (snd (list_row now state p m))) (def_id plugin)
          = Some (def_defaultConfig plugin)"
  proof (cases "def_id p = def_id plugin")
    case True
    then have "p = plugin" using Cons.prems(1) by simp
    then show ?thesis
      using resolveConfig_invalid(2)[OF assms(1,2), of m] assms(3) by (simp add: list_row_store)
  next
    case False
    then show ?thesis using Cons.prems(2)
      by (simp add: list_row_store resolveConfig_store_other)
  qed
  then show ?case using Cons by (simp only: list_loop_unfold) simp
qed

lemma list_loop_store_healed:
  assumes "def_validateConfig plugin = Some v" "v (raw_config plugin (Some c)) = Inl e"
    and "st_config state (def_id plugin) = Some c"
    and "\<forall>p\<in>set ps. def_id p = def_id plugin \<longrightarrow> p = plugin"
    and "plugin \<in> set ps"
  shows "st_config (stateStore (snd (list_loop now state ps m))) (def_id plugin)
           = Some (def_defaultConfig plugin)"
  using assms(4,5)
proof (induction ps arbitrary: m)
  case Nil
  then show ?case by simp
next
  case (Cons p ps)
  show ?case
  proof (cases "p = plugin")
    case True
    have h: "st_config (stateStore (snd (list_row now state p m))) (def_id plugin)
          = Some (def_defaultConfig plugin)"
      using resolveConfig_invalid(2)[OF assms(1,2), of m] assms(3) True
      by (simp add: list_row_store)
    have u: "\<forall>q\<in>set ps. def_id q = def_id plugin \<longrightarrow> q = plugin" using Cons.prems(1) by simp
    show ?thesis
      unfolding list_loop_unfold
      by (rule list_loop_store_kept[OF assms(1,2,3) u h])
  next
    case False
    then have "plugin \<in> set ps" using Cons.prems(2) by simp
    moreover have "\<forall>q\<in>set ps. def_id q = def_id plugin \<longrightarrow> q = plugin" using Cons.prems(1) by simp
    ultimately show ?thesis unfolding list_loop_unfold by (rule Cons.IH[rotated])
  qed
qed

lemma wf_registry_unique:
  assumes "wf_registry defs" "map_get defs pid = Some plugin"
  shows "plugin \<in> set (map_values defs)"
    and "def_id plugin = pid"
    and "\<forall>p\<in>set (map_values defs). def_id p = pid \<longrightarrow> p = plugin"
proof -
  have d: "distinct (map fst defs)" and k: "\<forall>kv\<in>set defs. def_id (snd kv) = fst kv"
    using assms(1) by (simp_all add: wf_registry_def list_all_iff)
  have mem: "(pid, plugin) \<in> set defs"
    using assms(2) by (simp add: map_get_def map_of_SomeD)
  then show "plugin \<in> set (map_values defs)" by (force simp: map_values_def)
  show "def_id plugin = pid" using k mem by force
  show "\<forall>p\<in>set (map_values defs). def_id p = pid \<longrightarrow> p = plugin"
  proof (intro ballI impI)
    fix p assume "p \<in> set (map_values defs)" "def_id p = pid"
    then obtain k' where "(k', p) \<in> set defs" by (auto simp: map_values_def)
    moreover from this k have "k' = def_id p" by force
    ultimately have "(pid, p) \<in> set defs" using \<open>def_id p = pid\<close> by simp
    then have "map_of defs pid = Some p" using d by (rule map_of_is_SomeI[rotated])
    then show "p = plugin" using assms(2) by (simp add: map_get_def)
  qed
qed

lemma map_set_wf:
  "wf_registry defs \<Longrightarrow> wf_registry (map_set (def_id plugin) plugin defs)"
proof (induction defs)
  case Nil
  show ?case by (simp add: wf_registry_def)
next
  case (Cons kv defs)
  obtain k' v' where kv: "kv = (k', v')" by (cases kv)
  have tl: "wf_registry defs" using Cons.prems by (simp add: wf_registry_def)
  have keys: "set (map fst (map_set (def_id plugin) plugin defs))
                = insert (def_id plugin) (set (map fst defs))"
    by (auto simp: register_order)
  show ?case
  proof (cases "k' = def_id plugin")
    case True
    then show ?thesis using Cons.prems by (simp add: kv wf_registry_def)
  next
    case False
    then show ?thesis using Cons.prems Cons.IH[OF tl] keys
      by (simp add: kv wf_registry_def)
  qed
qed

lemma register_wf: "wf_registry (definitions m) \<Longrightarrow> wf_registry (definitions (register now plugin m))"
  by (simp add: register_def Let_def map_set_wf)

lemma new_manager_wf_aux:
  "wf_registry (definitions m) \<Longrightarrow>
   wf_registry (definitions (foldl (\<lambda>m plugin. register now plugin m) m ps))"
  by (induction ps arbitrary: m) (simp_all add: register_wf)

lemma new_manager_wf: "wf_registry (definitions (new_manager now store builtins))"
  unfolding new_manager_def by (rule new_manager_wf_aux) (simp add: wf_registry_def)

lemma step_manager_store:
  "stateStore (step_manager now state plugin m)
     = stateStore (snd (resolveConfig plugin (st_config state (def_id plugin)) True m))"
proof -
  have "stateStore (snd (resolveConfig p c True (updateHealthFromEnabled now pid en m)))
          = stateStore (snd (resolveConfig p c True m))" for p c pid en
    by (auto simp: resolveConfig_def Let_def updateHealthFromEnabled_frame
          split: option.splits sum.splits)
  then show ?thesis by (simp add: step_manager_def)
qed

lemma abort_bump_store: "stateStore (abort_bump pid m) = stateStore m"
  by (simp add: abort_bump_def)

lemma emit_step_store:
  "resolve_enabled state plugin \<Longrightarrow>
   stateStore (es_manager (fst (emit_step now event state plugin s)))
     = stateStore (snd (resolveConfig plugin (st_config state (def_id plugin)) True (es_manager s)))"
  by (cases "def_blocking plugin"; cases "has_error (step_exec now state plugin s)")
     (simp_all add: emit_step_manager update_frame abort_bump_store step_manager_store)

lemma emit_step_store_off:
  "\<not> resolve_enabled state plugin \<Longrightarrow>
   stateStore (es_manager (fst (emit_step now event state plugin s))) = stateStore (es_manager s)"
  by (simp add: emit_step_manager(1) updateHealthFromEnabled_frame)

lemma emit_step_store_other:
  "def_id p \<noteq> pid \<Longrightarrow>
   st_config (stateStore (es_manager (fst (emit_step now event state p s)))) pid
     = st_config (stateStore (es_manager s)) pid"
  by (cases "resolve_enabled state p")
     (simp_all add: emit_step_store emit_step_store_off resolveConfig_store_other)

lemma emit_step_store_kept:
  assumes "def_validateConfig plugin = Some v" "v (raw_config plugin (Some c)) = Inl e"
    and "st_config state (def_id plugin) = Some c"
    and "def_id p = def_id plugin \<longrightarrow> p = plugin"
    and "st_config (stateStore (es_manager s)) (def_id plugin) = Some (def_defaultConfig plugin)"
  shows "st_config (stateStore (es_manager (fst (emit_step now event state p s)))) (def_id plugin)
           = Some (def_defaultConfig plugin)"
proof (cases "def_id p = def_id plugin")
  case False
  then show ?thesis using assms(5) by (simp add: emit_step_store_other)
next
  case True
  then have p: "p = plugin" using assms(4) by simp
  show ?thesis
  proof (cases "resolve_enabled state plugin")
    case True
    then show ?thesis
      using resolveConfig_invalid(2)[OF assms(1,2), of "es_manager s"] assms(3)
      by (simp add: p emit_step_store)
  next
    case False
    then show ?thesis using assms(5) by (simp add: p emit_step_store_off)
  qed
qed

lemma emit_loop_store_kept:
  assumes "def_validateConfig plugin = Some v" "v (raw_config plugin (Some c)) = Inl e"
    and "st_config state (def_id plugin) = Some c"
    and "\<forall>p\<in>set cs. def_id p = def_id plugin \<longrightarrow> p = plugin"
    and "st_config (stateStore (es_manager s)) (def_id plugin) = Some (def_defaultConfig plugin)"
  shows "st_config (stateStore (es_manager (emit_loop now event state cs s))) (def_id plugin)
           = Some (def_defaultConfig plugin)"
  using assms(4,5)
proof (induction cs arbitrary: s)
  case Nil
  then show ?case by simp
next
  case (Cons p cs)
  obtain s1 stop where st: "emit_step now event state p s = (s1, stop)"
    by (cases "emit_step now event state p s")
  have "def_id p = def_id plugin \<longrightarrow> p = plugin" using Cons.prems(1) by simp
  from emit_step_store_kept[OF assms(1,2,3) this Cons.prems(2), of now event]
  have k: "st_config (stateStore (es_manager s1)) (def_id plugin) = Some (def_defaultConfig plugin)"
    using st by simp
  have u: "\<forall>q\<in>set cs. def_id q = def_id plugin \<longrightarrow> q = plugin" using Cons.prems(1) by simp
  show ?case
  proof (cases stop)
    case True
    then show ?thesis using st k by simp
  next
    case False
    then show ?thesis using st Cons.IH[OF u k] by simp
  qed
qed

lemma emit_loop_invoked_mono:
  "set (map inv_plugin (es_invoked s))
     \<subseteq> set (map inv_plugin (es_invoked (emit_loop now event state cs s)))"
proof -
  obtain tr where "map inv_plugin (es_invoked (emit_loop now event state cs s))
           = map inv_plugin (es_invoked s) @ tr"
    using emit_loop_trace[of now event state cs s] by blast
  then show ?thesis by (simp only: set_append Un_upper1)
qed

lemma emit_step_invoked_plugins:
  "map inv_plugin (es_invoked (fst (emit_step now event state p s)))
     = map inv_plugin (es_invoked s) @ (if resolve_enabled state p then [p] else [])"
  by (simp add: emit_step_invoked)

lemma emit_loop_store_healed:
  assumes "def_validateConfig plugin = Some v" "v (raw_config plugin (Some c)) = Inl e"
    and "st_config state (def_id plugin) = Some c"
    and "\<forall>p\<in>set cs. def_id p = def_id plugin \<longrightarrow> p = plugin"
    and "plugin \<in> set (map inv_plugin (es_invoked (emit_loop now event state cs s)))"
    and "plugin \<notin> set (map inv_plugin (es_invoked s))"
  shows "st_config (stateStore (es_manager (emit_loop now event state cs s))) (def_id plugin)
           = Some (def_defaultConfig plugin)"
  using assms(4,5,6)
proof (induction cs arbitrary: s)
  case Nil
  then show ?case by simp
next
  case (Cons p cs)
  obtain s1 stop where st: "emit_step now event state p s = (s1, stop)"
    by (cases "emit_step now event state p s")
  have inv1: "map inv_plugin (es_invoked s1)
      = map inv_plugin (es_invoked s) @ (if resolve_enabled state p then [p] else [])"
    using emit_step_invoked_plugins[of now event state p s] st by simp
  have u: "\<forall>q\<in>set cs. def_id q = def_id plugin \<longrightarrow> q = plugin" using Cons.prems(1) by simp
  have loop: "emit_loop now event state (p # cs) s
      = (if stop then s1 else emit_loop now event state cs s1)"
    using st by simp
  show ?case
  proof (cases "p = plugin \<and> resolve_enabled state p")
    case True
    have en: "resolve_enabled state plugin" using True by blast
    have "stateStore (es_manager (fst (emit_step now event state plugin s)))
        = stateStore (snd (resolveConfig plugin (st_config state (def_id plugin)) True (es_manager s)))"
      using en by (rule emit_step_store)
    moreover have "fst (emit_step now event state plugin s) = s1" using st True by auto
    ultimately have k: "st_config (stateStore (es_manager s1)) (def_id plugin)
        = Some (def_defaultConfig plugin)"
      using resolveConfig_invalid(2)[OF assms(1,2), of "es_manager s"] assms(3) by simp
    show ?thesis
    proof (cases stop)
      case True
      then show ?thesis using loop k by simp
    next
      case False
      then show ?thesis using loop emit_loop_store_kept[OF assms(1,2,3) u k] by simp
    qed
  next
    case False
    then have n1: "plugin \<notin> set (map inv_plugin (es_invoked s1))"
      using inv1 Cons.prems(3) by auto
    show ?thesis
    proof (cases stop)
      case True
      then show ?thesis using loop Cons.prems(2) n1 by simp
    next
      case False
      then have "plugin \<in> set (map inv_plugin (es_invoked (emit_loop now event state cs s1)))"
        using loop Cons.prems(2) by simp
      from Cons.IH[OF u this n1] show ?thesis using loop False by simp
    qed
  qed
qed

lemma emit_loop_store_untouched:
  assumes "\<forall>p\<in>set cs. def_id p = def_id plugin \<longrightarrow> p = plugin"
    and "plugin \<notin> set (map inv_plugin (es_invoked (emit_loop now event state cs s)))"
  shows "st_config (stateStore (es_manager (emit_loop now event state cs s))) (def_id plugin)
           = st_config (stateStore (es_manager s)) (def_id plugin)"
  using assms
proof (induction cs arbitrary: s)
  case Nil
  then show ?case by simp
next
  case (Cons p cs)
  obtain s1 stop where st: "emit_step now event state p s = (s1, stop)"
    by (cases "emit_step now event state p s")
  have inv1: "map inv_plugin (es_invoked s1)
      = map inv_plugin (es_invoked s) @ (if resolve_enabled state p then [p] else [])"
    using emit_step_invoked_plugins[of now event state p s] st by simp
  have u: "\<forall>q\<in>set cs. def_id q = def_id plugin \<longrightarrow> q = plugin" using Cons.prems(1) by simp
  have loop: "emit_loop now event state (p # cs) s
      = (if stop then s1 else emit_loop now event state cs s1)"
    using st by simp
  have sub: "set (map inv_plugin (es_invoked s1))
      \<subseteq> set (map inv_plugin (es_invoked (emit_loop now event state (p # cs) s)))"
    unfolding loop using emit_loop_invoked_mono[of s1 now event state cs] by simp
  have n1: "plugin \<notin> set (map inv_plugin (es_invoked s1))" using sub Cons.prems(2) by blast
  have k: "st_config (stateStore (es_manager s1)) (def_id plugin)
      = st_config (stateStore (es_manager s)) (def_id plugin)"
  proof (cases "resolve_enabled state p")
    case True
    then have "p \<noteq> plugin" using n1 inv1 by auto
    then have "def_id p \<noteq> def_id plugin" using Cons.prems(1) by auto
    then show ?thesis using emit_step_store_other[of p "def_id plugin" now event state s] st by simp
  next
    case False
    then show ?thesis using emit_step_store_off[of state p now event s] st by simp
  qed
  show ?case
  proof (cases stop)
    case True
    then show ?thesis using loop k by simp
  next
    case False
    then have "plugin \<notin> set (map inv_plugin (es_invoked (emit_loop now event state cs s1)))"
      using loop Cons.prems(2) by simp
    from Cons.IH[OF u this] show ?thesis using loop False k by simp
  qed
qed

lemma candidates_unique:
  assumes "wf_registry (definitions m)" "map_get (definitions m) (def_id plugin) = Some plugin"
  shows "\<forall>p\<in>set (candidates m event). def_id p = def_id plugin \<longrightarrow> p = plugin"
  using wf_registry_unique(3)[OF assms] candidates_subset[of m event] by blast

lemma emit_run_store:
  assumes "def_validateConfig plugin = Some v" "v (raw_config plugin (Some c)) = Inl e"
    and "wf_registry (definitions m)" "map_get (definitions m) (def_id plugin) = Some plugin"
    and "st_config (stateStore m) (def_id plugin) = Some c"
  shows "plugin \<in> set (invoked_plugins now event m) \<Longrightarrow>
           st_config (stateStore (es_manager (emit_run now event m))) (def_id plugin)
             = Some (def_defaultConfig plugin)"
    and "plugin \<notin> set (invoked_plugins now event m) \<Longrightarrow>
           st_config (stateStore (es_manager (emit_run now event m))) (def_id plugin) = Some c"
proof -
  note u = candidates_unique[OF assms(3,4), of event]
  have i: "plugin \<notin> set (map inv_plugin (es_invoked (emit_init m event)))"
    by (simp add: emit_init_def)
  show "st_config (stateStore (es_manager (emit_run now event m))) (def_id plugin)
             = Some (def_defaultConfig plugin)"
    if "plugin \<in> set (invoked_plugins now event m)"
    using emit_loop_store_healed[OF assms(1,2,5) u _ i, of now] that
    by (simp add: invoked_plugins_def emit_run_def)
  show "st_config (stateStore (es_manager (emit_run now event m))) (def_id plugin) = Some c"
    if "plugin \<notin> set (invoked_plugins now event m)"
    using emit_loop_store_untouched[OF u, where now = now and state = "stateStore m"
            and s = "emit_init m event"] that assms(5)
    by (simp add: invoked_plugins_def emit_run_def emit_init_def)
qed

lemma invoked_eligible:
  assumes "wf_registry (definitions m)" "map_get (definitions m) (def_id plugin) = Some plugin"
  shows "eligible (stateStore m) event plugin \<Longrightarrow> \<not> er_aborted (emit now event m) \<Longrightarrow>
           plugin \<in> set (invoked_plugins now event m)"
    and "\<not> eligible (stateStore m) event plugin \<Longrightarrow> plugin \<notin> set (invoked_plugins now event m)"
proof -
  have reg: "plugin \<in> set (map snd (definitions m))"
    using wf_registry_unique(1)[OF assms] by (simp add: map_values_def)
  have plan: "set (dispatch_plan m event)
      = {p \<in> set (map snd (definitions m)). eligible (stateStore m) event p}"
    by (auto simp: dispatch_plan_def)
  show "plugin \<in> set (invoked_plugins now event m)"
    if "eligible (stateStore m) event plugin" "\<not> er_aborted (emit now event m)"
  proof -
    have "invoked_plugins now event m = dispatch_plan m event"
      using invoked_prefix(2)[of now event m] that(2) by (simp add: dispatch_plan_candidates)
    then show ?thesis using plan reg that(1) by simp
  qed
  show "plugin \<notin> set (invoked_plugins now event m)" if "\<not> eligible (stateStore m) event plugin"
  proof -
    obtain zs where zs: "dispatch_plan m event = invoked_plugins now event m @ zs"
      using invoked_prefix(1)[of now event m] unfolding dispatch_plan_candidates
      by (auto simp: prefix_def)
    have "set (invoked_plugins now event m) \<subseteq> set (dispatch_plan m event)"
      unfolding zs by (simp only: set_append Un_upper1)
    then show ?thesis using plan that by auto
  qed
qed

text \<open>
  Claim C5. Let the validator of a plugin reject the persisted config \<open>c\<close>. Then
  \<^verbatim>\<open>resolveConfig\<close> returns the declared default, and with healing on it rewrites the
  persisted config of the plugin to the default; when no value is persisted nothing is
  written. For a registered plugin, \<^verbatim>\<open>list()\<close> returns a row for it, every row with its
  id carries the default config, and the store holds the default afterwards.
  \<^verbatim>\<open>emit()\<close> resolves the config of a plugin only when it runs it: \<^verbatim>\<open>executePlugin\<close>
  calls the handler with the default config and leaves the default in the store, and so
  does the pass of the loop for an enabled candidate. For a registered plugin, the store
  after a whole dispatch holds the default when the handler of the plugin was called in
  it, and still holds \<open>c\<close> when it was not. The handler is called when the plugin is on
  and subscribed and the dispatch did not abort, and it is not called when the plugin is
  off or not subscribed. \<^verbatim>\<open>list_plugins\<close>, \<^verbatim>\<open>executePlugin\<close> and \<^verbatim>\<open>emit\<close> have no error
  result: the validation failure is caught inside and never reaches the caller.
\<close>

theorem invalid_config_heals:
  assumes "def_validateConfig plugin = Some validateConfig"
    and "validateConfig (raw_config plugin (Some c)) = Inl err"
  shows "fst (resolveConfig plugin (Some c) heal m) = def_defaultConfig plugin
   \<and> st_config (stateStore (snd (resolveConfig plugin (Some c) True m))) (def_id plugin)
       = Some (def_defaultConfig plugin)
   \<and> (validateConfig (raw_config plugin None) = Inl err' \<longrightarrow>
        fst (resolveConfig plugin None True m) = def_defaultConfig plugin
        \<and> stateStore (snd (resolveConfig plugin None True m)) = stateStore m)
   \<and> (wf_registry (definitions m) \<and> map_get (definitions m) (def_id plugin) = Some plugin
        \<and> st_config (stateStore m) (def_id plugin) = Some c \<longrightarrow>
        (\<exists>row\<in>set (fst (list_plugins now m)). info_id row = def_id plugin)
        \<and> (\<forall>row\<in>set (fst (list_plugins now m)).
              info_id row = def_id plugin \<longrightarrow> info_config row = def_defaultConfig plugin)
        \<and> st_config (stateStore (snd (list_plugins now m))) (def_id plugin)
            = Some (def_defaultConfig plugin))
   \<and> fst (executePlugin now plugin event (Some c) m)
       = finish_run now plugin (resolveCapabilityGrants plugin (stateStore m)) (timeout_of plugin)
           (def_onEvent plugin event (def_defaultConfig plugin))
   \<and> st_config (stateStore (snd (executePlugin now plugin event (Some c) m))) (def_id plugin)
       = Some (def_defaultConfig plugin)
   \<and> (resolve_enabled state plugin \<and> st_config state (def_id plugin) = Some c \<longrightarrow>
        st_config (stateStore (es_manager (fst (emit_step now event state plugin s)))) (def_id plugin)
          = Some (def_defaultConfig plugin))
   \<and> (wf_registry (definitions m) \<and> map_get (definitions m) (def_id plugin) = Some plugin
        \<and> st_config (stateStore m) (def_id plugin) = Some c \<longrightarrow>
        (plugin \<in> set (invoked_plugins now event m) \<longrightarrow>
           st_config (stateStore (es_manager (emit_run now event m))) (def_id plugin)
             = Some (def_defaultConfig plugin))
        \<and> (plugin \<notin> set (invoked_plugins now event m) \<longrightarrow>
             st_config (stateStore (es_manager (emit_run now event m))) (def_id plugin) = Some c)
        \<and> (eligible (stateStore m) event plugin \<and> \<not> er_aborted (emit now event m) \<longrightarrow>
             plugin \<in> set (invoked_plugins now event m))
        \<and> (\<not> eligible (stateStore m) event plugin \<longrightarrow>
             plugin \<notin> set (invoked_plugins now event m)))"
proof -
  note inv = resolveConfig_invalid[OF assms]
  have rc: "resolved_config plugin (Some c) = def_defaultConfig plugin"
    using inv(1)[of True m] by (simp add: resolveConfig_fst)
  have 1: "fst (resolveConfig plugin (Some c) heal m) = def_defaultConfig plugin" by (rule inv(1))
  have 2: "st_config (stateStore (snd (resolveConfig plugin (Some c) True m))) (def_id plugin)
       = Some (def_defaultConfig plugin)"
    using inv(2)[of m] by simp
  have 3: "validateConfig (raw_config plugin None) = Inl err' \<longrightarrow>
        fst (resolveConfig plugin None True m) = def_defaultConfig plugin
        \<and> stateStore (snd (resolveConfig plugin None True m)) = stateStore m"
    using resolveConfig_invalid(1,3)[OF assms(1), of None err'] by simp
  have 4: "wf_registry (definitions m) \<and> map_get (definitions m) (def_id plugin) = Some plugin
        \<and> st_config (stateStore m) (def_id plugin) = Some c \<longrightarrow>
        (\<exists>row\<in>set (fst (list_plugins now m)). info_id row = def_id plugin)
        \<and> (\<forall>row\<in>set (fst (list_plugins now m)).
              info_id row = def_id plugin \<longrightarrow> info_config row = def_defaultConfig plugin)
        \<and> st_config (stateStore (snd (list_plugins now m))) (def_id plugin)
            = Some (def_defaultConfig plugin)"
  proof (intro impI, elim conjE)
    assume wf: "wf_registry (definitions m)"
      and g: "map_get (definitions m) (def_id plugin) = Some plugin"
      and c: "st_config (stateStore m) (def_id plugin) = Some c"
    note u = wf_registry_unique[OF wf g]
    let ?ps = "map_values (definitions m)"
    let ?rows = "fst (list_plugins now m)"
    have rows: "list_all2 (\<lambda>row p. info_id row = def_id p
                      \<and> info_config row = resolved_config p (st_config (stateStore m) (def_id p)))
                  ?rows ?ps"
      unfolding list_plugins_def by (rule list_loop_rows)
    have a: "\<exists>row\<in>set ?rows. info_id row = def_id plugin"
    proof -
      from u(1) obtain i where i: "i < length ?ps" "?ps ! i = plugin"
        by (auto simp: in_set_conv_nth)
      then have "i < length ?rows" "info_id (?rows ! i) = def_id plugin"
        using rows by (auto simp: list_all2_conv_all_nth)
      then show ?thesis using nth_mem by blast
    qed
    have b: "\<forall>row\<in>set ?rows. info_id row = def_id plugin \<longrightarrow> info_config row = def_defaultConfig plugin"
    proof (intro ballI impI)
      fix row assume r: "row \<in> set ?rows" "info_id row = def_id plugin"
      then obtain i where i: "i < length ?rows" "?rows ! i = row" by (auto simp: in_set_conv_nth)
      then have p: "info_id row = def_id (?ps ! i)"
          "info_config row = resolved_config (?ps ! i) (st_config (stateStore m) (def_id (?ps ! i)))"
          "?ps ! i \<in> set ?ps"
        using rows by (auto simp: list_all2_conv_all_nth)
      then have "?ps ! i = plugin" using u(3) r(2) by simp
      then show "info_config row = def_defaultConfig plugin" using p(2) c rc by simp
    qed
    have d: "st_config (stateStore (snd (list_plugins now m))) (def_id plugin)
            = Some (def_defaultConfig plugin)"
      unfolding list_plugins_def
      by (rule list_loop_store_healed[OF assms c]) (use u in simp_all)
    from a b d show "(\<exists>row\<in>set ?rows. info_id row = def_id plugin)
        \<and> (\<forall>row\<in>set ?rows. info_id row = def_id plugin \<longrightarrow> info_config row = def_defaultConfig plugin)
        \<and> st_config (stateStore (snd (list_plugins now m))) (def_id plugin)
            = Some (def_defaultConfig plugin)"
      by blast
  qed
  have 5: "fst (executePlugin now plugin event (Some c) m)
       = finish_run now plugin (resolveCapabilityGrants plugin (stateStore m)) (timeout_of plugin)
           (def_onEvent plugin event (def_defaultConfig plugin))"
    by (simp add: executePlugin_fst rc)
  have 6: "st_config (stateStore (snd (executePlugin now plugin event (Some c) m))) (def_id plugin)
       = Some (def_defaultConfig plugin)"
    using 2 by (simp add: executePlugin_snd)
  have 7: "resolve_enabled state plugin \<and> st_config state (def_id plugin) = Some c \<longrightarrow>
        st_config (stateStore (es_manager (fst (emit_step now event state plugin s)))) (def_id plugin)
          = Some (def_defaultConfig plugin)"
    using inv(2)[of "es_manager s"] by (simp add: emit_step_store)
  have 8: "wf_registry (definitions m) \<and> map_get (definitions m) (def_id plugin) = Some plugin
        \<and> st_config (stateStore m) (def_id plugin) = Some c \<longrightarrow>
        (plugin \<in> set (invoked_plugins now event m) \<longrightarrow>
           st_config (stateStore (es_manager (emit_run now event m))) (def_id plugin)
             = Some (def_defaultConfig plugin))
        \<and> (plugin \<notin> set (invoked_plugins now event m) \<longrightarrow>
             st_config (stateStore (es_manager (emit_run now event m))) (def_id plugin) = Some c)
        \<and> (eligible (stateStore m) event plugin \<and> \<not> er_aborted (emit now event m) \<longrightarrow>
             plugin \<in> set (invoked_plugins now event m))
        \<and> (\<not> eligible (stateStore m) event plugin \<longrightarrow>
             plugin \<notin> set (invoked_plugins now event m))"
  proof (intro impI, elim conjE)
    assume wf: "wf_registry (definitions m)"
      and g: "map_get (definitions m) (def_id plugin) = Some plugin"
      and c: "st_config (stateStore m) (def_id plugin) = Some c"
    note a = emit_run_store[OF assms wf g c, of now event]
    note b = invoked_eligible[OF wf g, of event now]
    from a b show "(plugin \<in> set (invoked_plugins now event m) \<longrightarrow>
           st_config (stateStore (es_manager (emit_run now event m))) (def_id plugin)
             = Some (def_defaultConfig plugin))
        \<and> (plugin \<notin> set (invoked_plugins now event m) \<longrightarrow>
             st_config (stateStore (es_manager (emit_run now event m))) (def_id plugin) = Some c)
        \<and> (eligible (stateStore m) event plugin \<and> \<not> er_aborted (emit now event m) \<longrightarrow>
             plugin \<in> set (invoked_plugins now event m))
        \<and> (\<not> eligible (stateStore m) event plugin \<longrightarrow>
             plugin \<notin> set (invoked_plugins now event m))"
      by blast
  qed
  from 1 2 3 4 5 6 7 8 show ?thesis by blast
qed

text \<open>
  The plugin "p" accepts objects only, is on by default and takes every event, and the
  number 1 is persisted for it: \<^verbatim>\<open>list()\<close> and a dispatch both leave the empty object,
  its default, in the store.
\<close>

theorem invalid_config_heals_witness:
  "fst (resolveConfig strict_plugin (Some (VNum 1)) True
         (new_manager 0 (empty_store\<lparr>st_config := [''p'' \<mapsto> VNum 1]\<rparr>) [strict_plugin])) = VObj []
   \<and> st_config (stateStore (snd (list_plugins 0
         (new_manager 0 (empty_store\<lparr>st_config := [''p'' \<mapsto> VNum 1]\<rparr>) [strict_plugin])))) ''p''
       = Some (VObj [])
   \<and> st_config (stateStore (es_manager (fst (emit_step 0 hello_event
         (empty_store\<lparr>st_config := [''p'' \<mapsto> VNum 1]\<rparr>) strict_plugin
         (emit_init (new_manager 0 (empty_store\<lparr>st_config := [''p'' \<mapsto> VNum 1]\<rparr>) [strict_plugin])
            hello_event))))) ''p''
       = Some (VObj [])
   \<and> strict_plugin \<in> set (invoked_plugins 0 hello_event
         (new_manager 0 (empty_store\<lparr>st_config := [''p'' \<mapsto> VNum 1]\<rparr>) [strict_plugin]))
   \<and> st_config (stateStore (es_manager (emit_run 0 hello_event
         (new_manager 0 (empty_store\<lparr>st_config := [''p'' \<mapsto> VNum 1]\<rparr>) [strict_plugin])))) ''p''
       = Some (VObj [])"
proof -
  define st where "st = empty_store\<lparr>st_config := [''p'' \<mapsto> VNum 1]\<rparr>"
  define m where "m = new_manager 0 st [strict_plugin]"
  define v where "v = (\<lambda>v. case v of VObj kvs \<Rightarrow> Inr v | _ \<Rightarrow> Inl (ThrownError ''not an object''))"
  have id: "def_id strict_plugin = ''p''" and dc: "def_defaultConfig strict_plugin = VObj []"
    by (simp_all add: strict_plugin_def sample_plugin_def)
  have val: "def_validateConfig strict_plugin = Some v"
    by (simp add: strict_plugin_def v_def)
  have rej: "v (raw_config strict_plugin (Some (VNum 1))) = Inl (ThrownError ''not an object'')"
    by (simp add: raw_config_def v_def)
  have wf: "wf_registry (definitions m)" unfolding m_def by (rule new_manager_wf)
  have g: "map_get (definitions m) (def_id strict_plugin) = Some strict_plugin"
    by (simp add: m_def new_manager_def register_def map_get_def Let_def id)
  have sm: "stateStore m = st" by (simp add: m_def stateStore_new_manager)
  have c: "st_config (stateStore m) (def_id strict_plugin) = Some (VNum 1)"
    by (simp add: sm st_def id)
  have en: "resolve_enabled st strict_plugin"
    by (simp add: resolve_enabled_def st_def empty_store_def strict_plugin_def sample_plugin_def)
  have cs: "st_config st (def_id strict_plugin) = Some (VNum 1)" by (simp add: st_def id)
  have el: "eligible (stateStore m) hello_event strict_plugin"
    unfolding sm
    by (simp add: eligible_def st_def empty_store_def strict_plugin_def sample_plugin_def)
  have "\<forall>p\<in>set (map snd (definitions m)). policy_of p = Continue"
    by (simp add: m_def new_manager_def register_def Let_def policy_of_def strict_plugin_def
          sample_plugin_def)
  then have na: "\<not> er_aborted (emit 0 hello_event m)" by (rule emit_no_abort)
  note t = invalid_config_heals[OF val rej, where m = m and now = 0 and heal = True
      and state = st and event = hello_event and s = "emit_init m hello_event"]
  have a: "fst (resolveConfig strict_plugin (Some (VNum 1)) True m) = VObj []"
    using t[THEN conjunct1] dc by simp
  have b: "st_config (stateStore (snd (list_plugins 0 m))) ''p'' = Some (VObj [])"
    using t[THEN conjunct2, THEN conjunct2, THEN conjunct2, THEN conjunct1] wf g c dc id by simp
  have d: "st_config (stateStore (es_manager (fst (emit_step 0 hello_event st strict_plugin
             (emit_init m hello_event))))) ''p'' = Some (VObj [])"
    using t[THEN conjunct2, THEN conjunct2, THEN conjunct2, THEN conjunct2, THEN conjunct2,
            THEN conjunct2, THEN conjunct1] en cs dc id by simp
  note t8 = t[THEN conjunct2, THEN conjunct2, THEN conjunct2, THEN conjunct2, THEN conjunct2,
            THEN conjunct2, THEN conjunct2, THEN mp, OF conjI[OF wf conjI[OF g c]]]
  have e: "strict_plugin \<in> set (invoked_plugins 0 hello_event m)"
    using t8[THEN conjunct2, THEN conjunct2, THEN conjunct1] el na by blast
  have f: "st_config (stateStore (es_manager (emit_run 0 hello_event m))) ''p'' = Some (VObj [])"
    using t8[THEN conjunct1] e dc id by simp
  from a b d e f show ?thesis unfolding m_def st_def by blast
qed

text \<open>
  The same plugin with the number 1 persisted, but switched off in the store: the
  validator rejects the number, and after a dispatch of an event the plugin is subscribed
  to the store still holds the number. The same holds when the plugin is on but
  subscribed to \<^verbatim>\<open>tool.finished\<close> only. In both dispatches no handler is called.
\<close>

theorem emit_skips_healing_counterexample:
  "map_option (\<lambda>validateConfig. validateConfig (raw_config strict_plugin (Some (VNum 1))))
       (def_validateConfig strict_plugin)
     = Some (Inl (ThrownError ''not an object''))
   \<and> st_config (stateStore (es_manager (emit_run 0 hello_event
         (new_manager 0 (empty_store\<lparr>st_config := [''p'' \<mapsto> VNum 1],
                                      st_enabled := [''p'' \<mapsto> False]\<rparr>) [strict_plugin])))) ''p''
       = Some (VNum 1)
   \<and> es_invoked (emit_run 0 hello_event
         (new_manager 0 (empty_store\<lparr>st_config := [''p'' \<mapsto> VNum 1],
                                      st_enabled := [''p'' \<mapsto> False]\<rparr>) [strict_plugin])) = []
   \<and> st_config (stateStore (es_manager (emit_run 0 hello_event
         (new_manager 0 (empty_store\<lparr>st_config := [''p'' \<mapsto> VNum 1]\<rparr>)
            [strict_plugin\<lparr>def_events := [''tool.finished'']\<rparr>])))) ''p''
       = Some (VNum 1)
   \<and> es_invoked (emit_run 0 hello_event
         (new_manager 0 (empty_store\<lparr>st_config := [''p'' \<mapsto> VNum 1]\<rparr>)
            [strict_plugin\<lparr>def_events := [''tool.finished'']\<rparr>])) = []"
proof -
  define st where "st = empty_store\<lparr>st_config := [''p'' \<mapsto> VNum 1], st_enabled := [''p'' \<mapsto> False]\<rparr>"
  define m where "m = new_manager 0 st [strict_plugin]"
  define st' where "st' = empty_store\<lparr>st_config := [''p'' \<mapsto> VNum 1]\<rparr>"
  define q where "q = strict_plugin\<lparr>def_events := [''tool.finished'']\<rparr>"
  define m' where "m' = new_manager 0 st' [q]"
  have id: "def_id strict_plugin = ''p''" by (simp add: strict_plugin_def sample_plugin_def)
  have v: "map_option (\<lambda>validateConfig. validateConfig (raw_config strict_plugin (Some (VNum 1))))
       (def_validateConfig strict_plugin) = Some (Inl (ThrownError ''not an object''))"
    by (simp add: strict_plugin_def raw_config_def)
  have sm: "stateStore m = st" "stateStore m' = st'"
    by (simp_all add: m_def m'_def stateStore_new_manager)
  have off: "\<not> resolve_enabled st strict_plugin"
    by (simp add: resolve_enabled_def st_def id)
  have cs: "candidates m hello_event = [strict_plugin]"
    by (simp add: candidates_def m_def new_manager_def register_def map_values_def Let_def
          subscribed_def strict_plugin_def sample_plugin_def)
  have run: "emit_run 0 hello_event m
      = (emit_init m hello_event)\<lparr>es_manager := updateHealthFromEnabled 0 (def_id strict_plugin) False m\<rparr>"
    by (simp add: emit_run_def cs sm emit_step_disabled[OF off] emit_init_def)
  have a: "st_config (stateStore (es_manager (emit_run 0 hello_event m))) ''p'' = Some (VNum 1)"
    unfolding run by (simp add: updateHealthFromEnabled_frame sm st_def)
  have b: "es_invoked (emit_run 0 hello_event m) = []"
    unfolding run by (simp add: emit_init_def)
  have cs': "candidates m' hello_event = []"
    by (simp add: candidates_def m'_def new_manager_def register_def map_values_def Let_def
          subscribed_def q_def strict_plugin_def sample_plugin_def hello_event_def sample_event_def)
  have run': "emit_run 0 hello_event m' = emit_init m' hello_event"
    by (simp add: emit_run_def cs')
  have c: "st_config (stateStore (es_manager (emit_run 0 hello_event m'))) ''p'' = Some (VNum 1)"
    unfolding run' by (simp add: emit_init_def sm st'_def)
  have d: "es_invoked (emit_run 0 hello_event m') = []"
    unfolding run' by (simp add: emit_init_def)
  from v a b c d show ?thesis unfolding m_def m'_def st_def st'_def q_def by blast
qed

lemma record_runs_frame:
  "definitions (record_runs now pid runs m) = definitions m"
  "stateStore (record_runs now pid runs m) = stateStore m"
  by (induction runs rule: rev_induct) (simp_all add: record_runs_snoc update_frame, simp_all add: record_runs_def)

lemma refresh_on_unchanged:
  "health m pid = Some h \<Longrightarrow> h_status h \<noteq> Disabled \<Longrightarrow> updateHealthFromEnabled now pid True m = m"
  by (simp add: updateHealthFromEnabled_def)

lemma setEnabled_keeps_health:
  assumes "health m pid = Some h" "h_status h \<noteq> Disabled"
  shows "health (snd (setEnabled now pid True m)) pid = Some h"
proof (cases "map_get (definitions m) pid")
  case None
  then show ?thesis using assms by (simp add: setEnabled_def)
next
  case (Some plugin)
  let ?m1 = "m\<lparr>stateStore := (stateStore m)\<lparr>st_enabled := (st_enabled (stateStore m))(pid \<mapsto> True)\<rparr>\<rparr>"
  have h1: "health ?m1 pid = Some h" using assms(1) by simp
  have u: "updateHealthFromEnabled now pid True ?m1 = ?m1"
    using h1 assms(2) by (rule refresh_on_unchanged)
  have en: "\<forall>p\<in>set (map_values (definitions ?m1)). def_id p = pid \<longrightarrow> resolve_enabled (stateStore ?m1) p"
    by (simp add: resolve_enabled_def)
  have "health (snd (list_plugins now ?m1)) pid = Some h"
    unfolding list_plugins_def using en h1 assms(2) by (rule list_loop_health)
  then show ?thesis using Some u by (simp add: setEnabled_def Let_def case_prod_unfold)
qed

text \<open>
  Claim C10. Refreshing the health of a plugin from an enabled flag of \<^verbatim>\<open>true\<close> sets it
  to healthy only when there is no record or the status is disabled; any other record is
  kept as it is. So for a plugin whose status is degraded the refresh changes nothing,
  \<^verbatim>\<open>setEnabled(id, true)\<close> keeps the record, and when the plugin is enabled
  \<^verbatim>\<open>list()\<close> keeps it too, and \<^verbatim>\<open>emit()\<close> keeps it unless the stats of the plugin change.
\<close>

theorem refresh_keeps_degraded:
  "health (updateHealthFromEnabled now pid True m) pid
     = (case health m pid of
          None \<Rightarrow> Some \<lparr> h_status = Healthy, h_reason = None, h_updatedAt = now \<rparr>
        | Some existing \<Rightarrow>
            if h_status existing = Disabled
            then Some \<lparr> h_status = Healthy, h_reason = None, h_updatedAt = now \<rparr>
            else Some existing)
   \<and> (health m pid = Some h \<and> h_status h = Degraded \<longrightarrow>
        updateHealthFromEnabled now pid True m = m
        \<and> health (snd (setEnabled now pid True m)) pid = Some h
        \<and> ((\<forall>p\<in>set (map_values (definitions m)).
               def_id p = pid \<longrightarrow> resolve_enabled (stateStore m) p) \<longrightarrow>
            health (snd (list_plugins now m)) pid = Some h
            \<and> (stats (es_manager (emit_run now event m)) pid = stats m pid \<longrightarrow>
                 health (es_manager (emit_run now event m)) pid = Some h)))"
proof -
  have 1: "health (updateHealthFromEnabled now pid True m) pid
     = (case health m pid of
          None \<Rightarrow> Some \<lparr> h_status = Healthy, h_reason = None, h_updatedAt = now \<rparr>
        | Some existing \<Rightarrow>
            if h_status existing = Disabled
            then Some \<lparr> h_status = Healthy, h_reason = None, h_updatedAt = now \<rparr>
            else Some existing)"
    by (rule updateHealthFromEnabled_on)
  have 2: "health m pid = Some h \<and> h_status h = Degraded \<longrightarrow>
        updateHealthFromEnabled now pid True m = m
        \<and> health (snd (setEnabled now pid True m)) pid = Some h
        \<and> ((\<forall>p\<in>set (map_values (definitions m)).
               def_id p = pid \<longrightarrow> resolve_enabled (stateStore m) p) \<longrightarrow>
            health (snd (list_plugins now m)) pid = Some h
            \<and> (stats (es_manager (emit_run now event m)) pid = stats m pid \<longrightarrow>
                 health (es_manager (emit_run now event m)) pid = Some h))"
  proof (intro impI, elim conjE)
    assume h: "health m pid = Some h" and d: "h_status h = Degraded"
    then have nd: "h_status h \<noteq> Disabled" by simp
    have a: "updateHealthFromEnabled now pid True m = m" using h nd by (rule refresh_on_unchanged)
    have b: "health (snd (setEnabled now pid True m)) pid = Some h"
      using h nd by (rule setEnabled_keeps_health)
    have c: "(\<forall>p\<in>set (map_values (definitions m)).
               def_id p = pid \<longrightarrow> resolve_enabled (stateStore m) p) \<longrightarrow>
            health (snd (list_plugins now m)) pid = Some h
            \<and> (stats (es_manager (emit_run now event m)) pid = stats m pid \<longrightarrow>
                 health (es_manager (emit_run now event m)) pid = Some h)"
      using list_loop_health[of "map_values (definitions m)" pid "stateStore m" m h now]
        emit_keeps_health[of m pid h now event] h nd
      by (simp add: list_plugins_def)
    from a b c show "updateHealthFromEnabled now pid True m = m
        \<and> health (snd (setEnabled now pid True m)) pid = Some h
        \<and> ((\<forall>p\<in>set (map_values (definitions m)).
               def_id p = pid \<longrightarrow> resolve_enabled (stateStore m) p) \<longrightarrow>
            health (snd (list_plugins now m)) pid = Some h
            \<and> (stats (es_manager (emit_run now event m)) pid = stats m pid \<longrightarrow>
                 health (es_manager (emit_run now event m)) pid = Some h))"
      by blast
  qed
  from 1 2 show ?thesis by blast
qed

text \<open>
  The plugin "p" after three recorded errors: still degraded after \<^verbatim>\<open>list()\<close>, after
  \<^verbatim>\<open>setEnabled("p", true)\<close> and after the dispatch of an event it is not subscribed to.
\<close>

theorem refresh_keeps_degraded_witness:
  "map_option h_status (health (snd (list_plugins 1
       (record_runs 0 ''p'' [(5, RunError), (5, RunError), (5, RunError)]
          (new_manager 0 empty_store [quiet_plugin])))) ''p'') = Some Degraded
   \<and> map_option h_status (health (snd (setEnabled 1 ''p'' True
       (record_runs 0 ''p'' [(5, RunError), (5, RunError), (5, RunError)]
          (new_manager 0 empty_store [quiet_plugin])))) ''p'') = Some Degraded
   \<and> map_option h_status (health (es_manager (emit_run 1 hello_event
       (record_runs 0 ''p'' [(5, RunError), (5, RunError), (5, RunError)]
          (new_manager 0 empty_store [quiet_plugin])))) ''p'') = Some Degraded"
proof -
  define runs where "runs = [(5::int, RunError), (5, RunError), (5, RunError)]"
  define m where "m = record_runs 0 ''p'' runs (new_manager 0 empty_store [quiet_plugin])"
  define h where "h = health_of_stats 0 (stats_of m ''p'')"
  have ne: "runs \<noteq> []" by (simp add: runs_def)
  have hm: "health m ''p'' = Some h"
    unfolding m_def h_def by (rule health_record_runs[OF ne])
  have base: "stats_of (new_manager 0 empty_store [quiet_plugin]) ''p'' = createEmptyStats"
    by (simp add: new_manager_def register_def Let_def stats_of_def)
  have e: "stat_errors (stats_of m ''p'') = 3" "stat_invocations (stats_of m ''p'') = 3"
    by (simp_all add: m_def counters_record_runs runs_def base createEmptyStats_def)
  have dg: "h_status h = Degraded" by (simp add: h_def health_of_stats_status e)
  have defs: "definitions m = [(''p'', quiet_plugin)]"
    by (simp add: m_def record_runs_frame new_manager_def register_def Let_def quiet_plugin_def
          sample_plugin_def)
  have st: "stateStore m = empty_store"
    by (simp add: m_def record_runs_frame stateStore_new_manager)
  have en: "\<forall>p\<in>set (map_values (definitions m)). def_id p = ''p'' \<longrightarrow> resolve_enabled (stateStore m) p"
    by (simp add: defs st map_values_def resolve_enabled_def empty_store_def quiet_plugin_def
          sample_plugin_def)
  have cand: "candidates m hello_event = []"
    by (simp add: candidates_def defs map_values_def subscribed_def quiet_plugin_def
          sample_plugin_def hello_event_def sample_event_def)
  have same: "stats (es_manager (emit_run 1 hello_event m)) ''p'' = stats m ''p''"
    by (simp add: emit_run_def cand emit_init_def)
  note t = refresh_keeps_degraded[where m = m and pid = "''p''" and h = h and now = 1
      and event = hello_event, THEN conjunct2, THEN mp, OF conjI[OF hm dg]]
  have a: "health (snd (setEnabled 1 ''p'' True m)) ''p'' = Some h"
    using t by blast
  have b: "health (snd (list_plugins 1 m)) ''p'' = Some h"
    using t en by blast
  have c: "health (es_manager (emit_run 1 hello_event m)) ''p'' = Some h"
    using t en same by blast
  from a b c dg show ?thesis unfolding m_def runs_def by simp
qed

section \<open>A rejection without a reason\<close>

lemma stats_successes_update:
  "stat_successes (stats_of (updateStatsOnRun now pid d outcome err m) pid)
     = stat_successes (stats_of m pid) + (if outcome = RunSuccess then 1 else 0)"
  by (simp add: stats_of_update next_counters_fields)

lemma guard_scenario_stats:
  "stat_successes (stats_of (es_manager (emit_run 0 (sample_event ''session.created'' None)
       (new_manager 0 empty_store [rejecting_guard, later_plugin]))) ''guard'') = 1
   \<and> stat_errors (stats_of (es_manager (emit_run 0 (sample_event ''session.created'' None)
       (new_manager 0 empty_store [rejecting_guard, later_plugin]))) ''guard'') = 0"
proof -
  define m where "m = new_manager 0 empty_store [rejecting_guard, later_plugin]"
  define ev where "ev = sample_event ''session.created'' None"
  define s0 where "s0 = emit_init m ev"
  define s1 where "s1 = fst (emit_step 0 ev empty_store rejecting_guard s0)"
  define s2 where "s2 = fst (emit_step 0 ev empty_store later_plugin s1)"
  have en: "resolve_enabled empty_store rejecting_guard" "resolve_enabled empty_store later_plugin"
    by (simp_all add: resolve_enabled_def empty_store_def rejecting_guard_def later_plugin_def
          sample_plugin_def)
  have bl: "def_blocking rejecting_guard" "def_blocking later_plugin"
    by (simp_all add: rejecting_guard_def later_plugin_def sample_plugin_def)
  have ids: "def_id rejecting_guard = ''guard''" "def_id later_plugin = ''later''"
    by (simp_all add: rejecting_guard_def later_plugin_def sample_plugin_def)
  have e1: "\<not> has_error (step_exec 0 empty_store rejecting_guard s)" for s
    by (simp add: step_exec_def finish_run_def has_error_def rejecting_guard_def sample_plugin_def)
  have e2: "\<not> has_error (step_exec 0 empty_store later_plugin s)" for s
    by (simp add: step_exec_def finish_run_def has_error_def later_plugin_def sample_plugin_def)
  have st1: "snd (emit_step 0 ev empty_store rejecting_guard s0) = False"
    by (simp add: emit_step_blocking en bl e1 on_blocking_success_fields)
  have st2: "snd (emit_step 0 ev empty_store later_plugin s1) = False"
    by (simp add: emit_step_blocking en bl e2 on_blocking_success_fields)
  have run: "emit_run 0 ev m = s2"
    using st1 st2
    by (simp add: emit_run_def m_def guard_scenario_candidates[folded ev_def] stateStore_new_manager
          s0_def[unfolded m_def, symmetric] s1_def[symmetric] s2_def[symmetric] prod_eq_iff
          split: prod.splits)
  have base: "stats_of (es_manager s0) ''guard'' = createEmptyStats"
    by (simp add: s0_def emit_init_def m_def new_manager_def register_def Let_def stats_of_def ids)
  have m1: "es_manager s1 = updateStatsOnRun 0 ''guard'' (ex_durationMs (step_exec 0 empty_store rejecting_guard s0))
               RunSuccess None (step_manager 0 empty_store rejecting_guard (es_manager s0))"
    unfolding s1_def using emit_step_manager(4)[OF en(1) bl(1) e1, of ev s0] by (simp add: ids)
  have m2: "es_manager s2 = updateStatsOnRun 0 ''later'' (ex_durationMs (step_exec 0 empty_store later_plugin s1))
               RunSuccess None (step_manager 0 empty_store later_plugin (es_manager s1))"
    unfolding s2_def using emit_step_manager(4)[OF en(2) bl(2) e2, of ev s1] by (simp add: ids)
  have k0: "stats_of (step_manager 0 empty_store rejecting_guard (es_manager s0)) ''guard'' = createEmptyStats"
    using base by (simp add: stats_of_def step_manager_telemetry)
  have a1: "stat_successes (stats_of (es_manager s1) ''guard'') = 1"
           "stat_errors (stats_of (es_manager s1) ''guard'') = 0"
    unfolding m1 by (simp_all add: stats_successes_update stats_counters_update k0 createEmptyStats_def)
  have k2: "stats_of (es_manager s2) ''guard'' = stats_of (es_manager s1) ''guard''"
    unfolding m2 by (rule stats_of_cong) (simp add: update_other step_manager_telemetry)
  show ?thesis
    unfolding m_def[symmetric] ev_def[symmetric] run k2 using a1 by simp
qed

text \<open>
  Claim C3 at a handler that rejects with a falsy reason. The plugin "guard" (priority
  100, fail policy \<^verbatim>\<open>abort_current_action\<close>) rejects with \<^verbatim>\<open>undefined\<close>;
  \<^verbatim>\<open>if (exec.error)\<close> takes the run for a success. So the dispatch is not aborted, no
  error insight is recorded, the plugin "later" is still called, and telemetry books a
  success and no error for "guard".
\<close>

theorem falsy_rejection_not_aborted:
  "er_aborted (emit 0 (sample_event ''session.created'' None)
       (new_manager 0 empty_store [rejecting_guard, later_plugin])) = False
   \<and> er_insights (emit 0 (sample_event ''session.created'' None)
       (new_manager 0 empty_store [rejecting_guard, later_plugin])) = []
   \<and> map def_id (invoked_plugins 0 (sample_event ''session.created'' None)
       (new_manager 0 empty_store [rejecting_guard, later_plugin])) = [''guard'', ''later'']
   \<and> stat_successes (stats_of (es_manager (emit_run 0 (sample_event ''session.created'' None)
       (new_manager 0 empty_store [rejecting_guard, later_plugin]))) ''guard'') = 1
   \<and> stat_errors (stats_of (es_manager (emit_run 0 (sample_event ''session.created'' None)
       (new_manager 0 empty_store [rejecting_guard, later_plugin]))) ''guard'') = 0
   \<and> def_failPolicy rejecting_guard = Some AbortCurrentAction
   \<and> run_settlement (def_onEvent rejecting_guard event config) = Threw ThrownUndefined"
proof -
  let ?m = "new_manager 0 empty_store [rejecting_guard, later_plugin]"
  let ?ev = "sample_event ''session.created'' None"
  have en: "resolve_enabled empty_store rejecting_guard" "resolve_enabled empty_store later_plugin"
    by (simp_all add: resolve_enabled_def empty_store_def rejecting_guard_def later_plugin_def
          sample_plugin_def)
  have bl: "def_blocking rejecting_guard" "def_blocking later_plugin"
    by (simp_all add: rejecting_guard_def later_plugin_def sample_plugin_def)
  have e1: "\<not> has_error (step_exec 0 empty_store rejecting_guard s)" for s
    by (simp add: step_exec_def finish_run_def has_error_def rejecting_guard_def sample_plugin_def)
  have r1: "ex_result (step_exec 0 empty_store rejecting_guard s) = None" for s
    by (simp add: step_exec_def finish_run_def rejecting_guard_def sample_plugin_def)
  have e2: "\<not> has_error (step_exec 0 empty_store later_plugin s)" for s
    by (simp add: step_exec_def finish_run_def has_error_def later_plugin_def sample_plugin_def)
  have r2: "ex_result (step_exec 0 empty_store later_plugin s) = None" for s
    by (simp add: step_exec_def finish_run_def later_plugin_def sample_plugin_def)
  have run: "emit_run 0 ?ev ?m
      = emit_loop 0 ?ev empty_store [rejecting_guard, later_plugin] (emit_init ?m ?ev)"
    by (simp add: emit_run_def guard_scenario_candidates stateStore_new_manager)
  have a: "es_aborted (emit_run 0 ?ev ?m) = False"
    unfolding run
    by (simp add: emit_step_blocking en bl e1 e2 r1 r2 on_blocking_success_def Let_def emit_init_def)
  have i: "es_insights (emit_run 0 ?ev ?m) = []"
    unfolding run
    by (simp add: emit_step_blocking en bl e1 e2 r1 r2 on_blocking_success_def Let_def emit_init_def)
  have t0: "map inv_plugin (es_invoked (emit_run 0 ?ev ?m)) = [rejecting_guard, later_plugin]"
    unfolding run
    by (simp add: emit_step_blocking en bl e1 e2 r1 r2 on_blocking_success_def Let_def emit_init_def)
  have t: "map def_id (invoked_plugins 0 ?ev ?m) = [''guard'', ''later'']"
    unfolding invoked_plugins_def t0
    by (simp add: rejecting_guard_def later_plugin_def sample_plugin_def)
  have f: "def_failPolicy rejecting_guard = Some AbortCurrentAction"
          "run_settlement (def_onEvent rejecting_guard event config) = Threw ThrownUndefined"
    by (simp_all add: rejecting_guard_def sample_plugin_def)
  from a i t guard_scenario_stats f show ?thesis
    by (simp add: emit_def Let_def)
qed


end
